(* ===== verification/Prelude.thy ===== *)
theory Prelude
  imports Complex_Main "HOL-Library.Word" "HOL-Library.Log_Nat"
begin

text \<open>
  What every component shares: the collections of facts that carry the proofs, the finite maps
  with an iteration order that stand for the program's \<open>std::unordered_map\<close>s, and a few list
  lemmas. An \<open>std::unordered_map\<close> is looked up by key, assigned through \<open>operator[]\<close>, erased by key
  or by position, and iterated in an order the standard does not fix; the model is an association
  list with distinct keys, whose order is the iteration order. Lemmas about maps never assume a
  particular order.
\<close>

named_theorems fp_class \<open>facts about NaN, infinities and finite values\<close>
named_theorems step_inv \<open>one operation keeps an invariant\<close>
named_theorems umap_simps \<open>lookup, assignment and erasure in ordered maps\<close>

type_synonym ('k, 'v) umap = "('k \<times> 'v) list"

fun uget :: "('k, 'v) umap \<Rightarrow> 'k \<Rightarrow> 'v option" where
  "uget [] k = None"
| "uget ((k', v) # m) k = (if k' = k then Some v else uget m k)"

fun uput :: "'k \<Rightarrow> 'v \<Rightarrow> ('k, 'v) umap \<Rightarrow> ('k, 'v) umap" where
  "uput k v [] = [(k, v)]"
| "uput k v ((k', v') # m) = (if k' = k then (k, v) # m else (k', v') # uput k v m)"

fun udel :: "'k \<Rightarrow> ('k, 'v) umap \<Rightarrow> ('k, 'v) umap" where
  "udel k [] = []"
| "udel k ((k', v') # m) = (if k' = k then m else (k', v') # udel k m)"

text \<open>The first entry, in iteration order, whose value satisfies a test.\<close>

fun ufind_value :: "('v \<Rightarrow> bool) \<Rightarrow> ('k, 'v) umap \<Rightarrow> 'k option" where
  "ufind_value P [] = None"
| "ufind_value P ((k, v) # m) = (if P v then Some k else ufind_value P m)"

abbreviation (input) ukeys :: "('k, 'v) umap \<Rightarrow> 'k list" where
  "ukeys m \<equiv> map fst m"

definition uwf :: "('k, 'v) umap \<Rightarrow> bool" where
  "uwf m \<longleftrightarrow> distinct (ukeys m)"

lemma uwf_Nil [simp]: "uwf []" by (simp add: uwf_def)

lemma uget_None_iff: "uget m k = None \<longleftrightarrow> k \<notin> set (ukeys m)"
  by (induction m k rule: uget.induct) auto

lemma uget_Some_in: "uget m k = Some v \<Longrightarrow> (k, v) \<in> set m"
  by (induction m k rule: uget.induct) (auto split: if_splits)

lemma uget_iff: "uwf m \<Longrightarrow> uget m k = Some v \<longleftrightarrow> (k, v) \<in> set m"
  by (induction m k rule: uget.induct) (auto simp: uwf_def image_iff)

lemma uget_uput [umap_simps]: "uget (uput k v m) k' = (if k' = k then Some v else uget m k')"
  by (induction k v m rule: uput.induct) auto

lemma ukeys_uput: "fst ` set (uput k v m) = insert k (fst ` set m)"
  by (induction k v m rule: uput.induct) auto

lemma in_udelD: "kv \<in> set (udel k m) \<Longrightarrow> kv \<in> set m"
  by (induction k m rule: udel.induct) (auto split: if_splits)

lemma uwf_uput [simp, intro]: "uwf m \<Longrightarrow> uwf (uput k v m)"
  unfolding uwf_def by (induction k v m rule: uput.induct) (auto simp: ukeys_uput)

lemma uwf_udel [simp, intro]: "uwf m \<Longrightarrow> uwf (udel k m)"
  unfolding uwf_def
  by (induction k m rule: udel.induct) (auto, metis fst_conv image_eqI in_udelD)

lemma uget_udel [umap_simps]: "uwf m \<Longrightarrow> uget (udel k m) k' = (if k' = k then None else uget m k')"
  unfolding uwf_def by (induction k m rule: udel.induct) (auto simp: uget_None_iff, metis fst_conv image_eqI in_udelD)

lemma set_uput: "uwf m \<Longrightarrow> set (uput k v m) = insert (k, v) (set m - {k} \<times> UNIV)"
  unfolding uwf_def by (induction k v m rule: uput.induct) (auto simp: image_iff)

lemma set_udel: "uwf m \<Longrightarrow> set (udel k m) = set m - {k} \<times> UNIV"
  unfolding uwf_def by (induction k m rule: udel.induct) (auto simp: image_iff)

lemma set_uput_subset: "set (uput k v m) \<subseteq> insert (k, v) (set m)"
  by (induction k v m rule: uput.induct) auto

lemma ufind_value_Some: "ufind_value P m = Some k \<Longrightarrow> \<exists>v. (k, v) \<in> set m \<and> P v"
  by (induction P m rule: ufind_value.induct) (auto split: if_splits)

lemma ufind_value_None_iff: "ufind_value P m = None \<longleftrightarrow> (\<forall>(k, v) \<in> set m. \<not> P v)"
  by (induction P m rule: ufind_value.induct) (auto split: if_splits)

text \<open>Where at most one key carries a matching value, the iteration order does not matter.\<close>

lemma ufind_value_unique:
  assumes "(k, v) \<in> set m" "P v" "\<And>k' v'. (k', v') \<in> set m \<Longrightarrow> P v' \<Longrightarrow> k' = k"
  shows "ufind_value P m = Some k"
proof (cases "ufind_value P m")
  case None
  with assms(1,2) show ?thesis by (auto simp: ufind_value_None_iff)
next
  case (Some k')
  with assms(3) show ?thesis using ufind_value_Some by fastforce
qed

text \<open>
  The contract a client of such a map relies on: what a lookup returns after an assignment and
  after an erasure, and that both keep the map well formed.
\<close>

locale keyed_store =
  fixes get :: "'m \<Rightarrow> 'k \<Rightarrow> 'v option"
    and put :: "'k \<Rightarrow> 'v \<Rightarrow> 'm \<Rightarrow> 'm"
    and del :: "'k \<Rightarrow> 'm \<Rightarrow> 'm"
    and wf :: "'m \<Rightarrow> bool"
  assumes get_put: "wf m \<Longrightarrow> get (put k v m) k' = (if k' = k then Some v else get m k')"
    and get_del: "wf m \<Longrightarrow> get (del k m) k' = (if k' = k then None else get m k')"
    and wf_put: "wf m \<Longrightarrow> wf (put k v m)"
    and wf_del: "wf m \<Longrightarrow> wf (del k m)"
begin

lemma get_put_same: "wf m \<Longrightarrow> get (put k v m) k = Some v"
  by (simp add: get_put)

lemma get_put_other: "wf m \<Longrightarrow> k' \<noteq> k \<Longrightarrow> get (put k v m) k' = get m k'"
  by (simp add: get_put)

lemma get_del_same: "wf m \<Longrightarrow> get (del k m) k = None"
  by (simp add: get_del)

lemma get_put_put: "wf m \<Longrightarrow> get (put k v (put k w m)) = get (put k v m)"
  by (auto simp: get_put wf_put)

lemma get_del_put: "wf m \<Longrightarrow> get (del k (put k v m)) = get (del k m)"
  by (auto simp: get_put get_del wf_put)

lemma fold_put: "wf m \<Longrightarrow> wf (fold (\<lambda>(k, v). put k v) kvs m) \<and>
    get (fold (\<lambda>(k, v). put k v) kvs m) = get m ++ map_of (rev kvs)"
proof (induction kvs arbitrary: m)
  case Nil
  then show ?case by simp
next
  case (Cons kv kvs)
  obtain k v where kv: "kv = (k, v)" by force
  have "get (put k v m) = (get m)(k \<mapsto> v)" using Cons.prems by (simp add: get_put fun_eq_iff)
  moreover have "(get m)(k \<mapsto> v) ++ map_of (rev kvs) = get m ++ map_of (rev (kv # kvs))"
    by (rule ext) (simp add: kv map_add_def split: option.splits)
  ultimately show ?case using Cons.IH[OF wf_put[OF Cons.prems, of k v]] by (metis case_prod_conv fold_simps(2) kv)
qed

end

interpretation umap: keyed_store uget uput udel uwf
  by unfold_locales (simp_all add: umap_simps uwf_uput uwf_udel)

text \<open>Lists: the longest prefix of a list with a property, and what follows it.\<close>

lemma takeWhile_append_dropWhile_nth:
  "dropWhile P xs = y # ys \<Longrightarrow> \<not> P y \<and> xs = takeWhile P xs @ y # ys"
  by (metis hd_dropWhile list.distinct(1) list.sel(1) takeWhile_dropWhile_id)


text \<open>A loop over a buffer that carries a state along: the outputs and the final state.\<close>

fun mapS :: "('a \<Rightarrow> 's \<Rightarrow> 'b \<times> 's) \<Rightarrow> 'a list \<Rightarrow> 's \<Rightarrow> 'b list \<times> 's" where
  "mapS f [] s = ([], s)"
| "mapS f (x # xs) s = (case f x s of (y, s') \<Rightarrow> case mapS f xs s' of (ys, s'') \<Rightarrow> (y # ys, s''))"

lemma length_mapS [simp]: "length (fst (mapS f xs s)) = length xs"
  by (induction f xs s rule: mapS.induct) (auto split: prod.splits)

lemma mapS_outputs:
  assumes "\<And>x s. I s \<Longrightarrow> P (fst (f x s)) \<and> I (snd (f x s))" "I s"
  shows "(\<forall>y \<in> set (fst (mapS f xs s)). P y) \<and> I (snd (mapS f xs s))"
  using assms(2)
proof (induction xs arbitrary: s)
  case (Cons x xs)
  from assms(1)[OF Cons.prems, of x] Cons.IH[of "snd (f x s)"] show ?case
    by (auto split: prod.splits)
qed simp

text \<open>
  Two contracts between a component and whoever drives it: an invariant that its steps keep holds in
  every reachable state, and a simulation that holds for one input holds for every sequence of them.
\<close>

locale transition_system =
  fixes step :: "'s \<Rightarrow> 's \<Rightarrow> bool"
    and init :: "'s \<Rightarrow> bool"
    and inv :: "'s \<Rightarrow> bool"
  assumes init_inv: "init s \<Longrightarrow> inv s"
    and step_keeps: "step s s' \<Longrightarrow> inv s \<Longrightarrow> inv s'"
begin

lemma run_keeps: "step\<^sup>*\<^sup>* s s' \<Longrightarrow> inv s \<Longrightarrow> inv s'"
  by (induction rule: rtranclp_induct) (auto intro: step_keeps)

lemma reachable_inv: "init s \<Longrightarrow> step\<^sup>*\<^sup>* s s' \<Longrightarrow> inv s'"
  using run_keeps init_inv by blast

end

locale simulation =
  fixes rel :: "'s \<Rightarrow> 'c \<Rightarrow> bool"
    and astep :: "'i \<Rightarrow> 's \<Rightarrow> 's"
    and cstep :: "'i \<Rightarrow> 'c \<Rightarrow> 'c"
  assumes simulates: "rel s c \<Longrightarrow> rel (astep i s) (cstep i c)"
begin

lemma run_simulates: "rel s c \<Longrightarrow> rel (fold astep xs s) (fold cstep xs c)"
  by (induction xs arbitrary: s c) (simp_all add: simulates)

end

end
