(* ===== verification/Floats.thy ===== *)
theory Floats
  imports Prelude
begin

text \<open>
  IEEE-754 binary floating point, as far as the extension uses it: C++ \<open>float\<close> is binary32 and
  \<open>double\<close> binary64, both with round to nearest, ties to even. A finite nonzero number is its exact
  rational value, so every operation computes exactly and rounds once; zeros keep their sign,
  overflow is an infinity, and an invalid operation is NaN (one NaN: its payload is never read).
  All of it evaluates: rounding is integer arithmetic on the numerator and denominator.
\<close>

section \<open>Formats and rounding\<close>

record fmt =
  prec :: nat
  lsb_min :: int
  exp_max :: int

definition f32 :: fmt where "f32 = \<lparr>prec = 24, lsb_min = -149, exp_max = 127\<rparr>"
definition f64 :: fmt where "f64 = \<lparr>prec = 53, lsb_min = -1074, exp_max = 1023\<rparr>"

lemma fmt_simps [simp]:
  "prec f32 = 24" "lsb_min f32 = -149" "exp_max f32 = 127"
  "prec f64 = 53" "lsb_min f64 = -1074" "exp_max f64 = 1023"
  by (simp_all add: f32_def f64_def)

datatype fp = NaN | Inf bool | NZero | Fin rat

definition pow2 :: "int \<Rightarrow> rat" where
  "pow2 k = (if 0 \<le> k then 2 ^ nat k else 1 / 2 ^ nat (- k))"

text \<open>Powers of two with an integer exponent, and the binary exponent of a positive rational.\<close>

lemma pow2_pos [simp]: "0 < pow2 k" by (simp add: pow2_def)
lemma pow2_nz [simp]: "pow2 k \<noteq> 0" using pow2_pos[of k] by linarith
lemma pow2_powi: "pow2 k = 2 powi k"
  by (simp add: pow2_def power_int_def field_simps)
lemma pow2_add: "pow2 (a + b) = pow2 a * pow2 b"
  by (simp add: pow2_powi power_int_add)
lemma pow2_mono: "a \<le> b \<Longrightarrow> pow2 a \<le> pow2 b"
  by (simp add: pow2_powi power_int_increasing)
lemma pow2_strict: "a < b \<Longrightarrow> pow2 a < pow2 b"
  by (simp add: pow2_powi power_int_strict_increasing)
lemma pow2_less_iff: "pow2 a < pow2 b \<longleftrightarrow> a < b"
  by (metis linorder_not_le pow2_mono pow2_strict)

definition lg2 :: "rat \<Rightarrow> int" where
  "lg2 x = (case quotient_of x of (a, b) \<Rightarrow>
     (let k = bitlen a - bitlen b in if pow2 k \<le> x then k else k - 1))"

lemma bitlen_pow2: assumes "0 < n" shows "pow2 (bitlen n - 1) \<le> of_int n" "of_int n < pow2 (bitlen n)"
proof -
  have b: "2 ^ nat (bitlen n - 1) \<le> n \<and> n < 2 ^ nat (bitlen n)"
    using bitlen_bounds[OF assms] .
  have p: "0 < bitlen n" using assms by (metis bitlen_eq_zero_iff bitlen_nonneg le_less linorder_not_le)
  have "(of_int (2 ^ nat (bitlen n - 1)) :: rat) \<le> of_int n" using b by (simp only: of_int_le_iff)
  then show "pow2 (bitlen n - 1) \<le> of_int n" using p by (simp add: pow2_def)
  have "(of_int n :: rat) < of_int (2 ^ nat (bitlen n))" using b by (simp only: of_int_less_iff)
  then show "of_int n < pow2 (bitlen n)" using p by (simp add: pow2_def)
qed

lemma lg2_bounds: assumes "0 < x" shows "pow2 (lg2 x) \<le> x" "x < pow2 (lg2 x + 1)"
proof -
  obtain a b where q: "quotient_of x = (a, b)" by force
  have x: "x = of_int a / of_int b" using quotient_of_div[OF q] .
  have b: "0 < b" using quotient_of_denom_pos[OF q] .
  have a: "0 < a" using assms x b by (simp add: zero_less_divide_iff)
  let ?k = "bitlen a - bitlen b"
  note ba = bitlen_pow2[OF a] and bb = bitlen_pow2[OF b]
  have up: "x < pow2 (?k + 1)"
  proof -
    have e: "pow2 (?k + 1) * pow2 (bitlen b - 1) = pow2 (bitlen a)" by (simp flip: pow2_add)
    have "of_int a < pow2 (bitlen a)" by (rule ba)
    also have "\<dots> \<le> pow2 (?k + 1) * of_int b"
      unfolding e[symmetric] by (rule mult_left_mono) (use bb in \<open>auto simp: less_imp_le\<close>)
    finally show ?thesis using b by (simp add: x pos_divide_less_eq)
  qed
  have lo: "pow2 (?k - 1) \<le> x"
  proof -
    have e: "pow2 (?k - 1) * pow2 (bitlen b) = pow2 (bitlen a - 1)" by (simp flip: pow2_add)
    have "pow2 (?k - 1) * of_int b \<le> pow2 (?k - 1) * pow2 (bitlen b)"
      by (rule mult_left_mono) (use bb in \<open>auto simp: less_imp_le\<close>)
    also have "\<dots> \<le> of_int a" unfolding e by (rule ba)
    finally show ?thesis using b by (simp add: x pos_le_divide_eq)
  qed
  show "pow2 (lg2 x) \<le> x" "x < pow2 (lg2 x + 1)"
    using up lo by (auto simp: lg2_def q Let_def not_le)
qed

lemma pow2_split: "a \<le> b \<Longrightarrow> pow2 b = of_int (2 ^ nat (b - a)) * pow2 a"
  using pow2_add[of "b - a" a] by (simp add: pow2_def)

lemma pow2_plus_nat: "pow2 (e + int n) = of_int (2 ^ n) * pow2 e"
  by (simp add: pow2_add pow2_def[of "int n"])

lemma lg2_unique: assumes "pow2 k \<le> x" "x < pow2 (k + 1)" shows "lg2 x = k"
proof -
  have "0 < x" using assms(1) pow2_pos[of k] by linarith
  from lg2_bounds[OF this] assms show ?thesis
    by (metis add1_zle_eq order_antisym order.strict_trans1 pow2_less_iff zless_add1_eq less_le_not_le linorder_not_le)
qed

lemma lg2_mono: assumes "0 < x" "x \<le> y" shows "lg2 x \<le> lg2 y"
proof -
  have "pow2 (lg2 x) < pow2 (lg2 y + 1)"
    using lg2_bounds(1)[OF assms(1)] lg2_bounds(2)[of y] assms by linarith
  then show ?thesis by (simp add: pow2_less_iff)
qed

text \<open>Round to the nearest integer, ties to even.\<close>

definition rne :: "rat \<Rightarrow> int" where
  "rne x = (let n = \<lfloor>x\<rfloor>; d = x - of_int n in
     if d < 1 / 2 then n else if 1 / 2 < d then n + 1 else if even n then n else n + 1)"

lemma rne_of_int [simp]: "rne (of_int n) = n" by (simp add: rne_def)

lemma rne_minus: "rne (- x) = - rne x"
proof (cases "x = of_int \<lfloor>x\<rfloor>")
  case True
  then have "- x = of_int (- \<lfloor>x\<rfloor>)" by simp
  then show ?thesis by (metis True rne_of_int)
next
  case False
  then have "\<lfloor>- x\<rfloor> = - \<lfloor>x\<rfloor> - 1"
    by (intro floor_unique; use False floor_correct[of x] in simp; linarith)
  then show ?thesis by (auto simp: rne_def Let_def)
qed

lemma rne_mono: assumes "x \<le> y" shows "rne x \<le> rne y"
proof (cases "\<lfloor>x\<rfloor> = \<lfloor>y\<rfloor>")
  case True
  with assms show ?thesis by (auto simp: rne_def Let_def)
next
  case False
  with floor_mono[OF assms] have "\<lfloor>x\<rfloor> + 1 \<le> \<lfloor>y\<rfloor>" by linarith
  moreover have "rne x \<le> \<lfloor>x\<rfloor> + 1" "\<lfloor>y\<rfloor> \<le> rne y" by (auto simp: rne_def Let_def)
  ultimately show ?thesis by linarith
qed

text \<open>The distance between neighbouring representable numbers around \<open>x\<close>, and the rounding to them.\<close>

definition ulp :: "fmt \<Rightarrow> rat \<Rightarrow> rat" where
  "ulp f x = pow2 (max (lsb_min f) (lg2 x - int (prec f) + 1))"

definition rndq :: "fmt \<Rightarrow> rat \<Rightarrow> rat" where
  "rndq f x = (if x = 0 then 0 else of_int (rne (x / ulp f \<bar>x\<bar>)) * ulp f \<bar>x\<bar>)"

lemma rndq_0 [simp]: "rndq f 0 = 0" by (simp add: rndq_def)
lemma rndq_minus [simp]: "rndq f (- x) = - rndq f x" by (simp add: rndq_def rne_minus)

definition representable :: "fmt \<Rightarrow> rat \<Rightarrow> bool" where
  "representable f x \<longleftrightarrow> rndq f x = x"

lemma ulp_pos [simp]: "0 < ulp f x" by (simp add: ulp_def)

text \<open>
  Rounding is monotone: within a binade it is integer rounding, and across binades a power of two
  lies between the two results.
\<close>

lemma rndq_pos_mono:
  assumes "0 < x" "x \<le> y" and p: "0 < prec f"
  shows "rndq f x \<le> rndq f y"
proof (cases "ulp f x = ulp f y")
  case True
  have "x / ulp f y \<le> y / ulp f y" using assms by (simp add: divide_right_mono less_imp_le)
  then have "rne (x / ulp f y) \<le> rne (y / ulp f y)" by (rule rne_mono)
  then show ?thesis using assms True by (simp add: rndq_def)
next
  case False
  let ?ex = "max (lsb_min f) (lg2 x - int (prec f) + 1)"
  let ?ey = "max (lsb_min f) (lg2 y - int (prec f) + 1)"
  have le: "lg2 x \<le> lg2 y" using assms by (intro lg2_mono)
  have "?ex \<noteq> ?ey" using False by (auto simp: ulp_def)
  with le have lt: "?ex < ?ey" "lg2 x < lg2 y" and ey: "?ey = lg2 y - int (prec f) + 1" by linarith+
  have bx: "x < pow2 (lg2 y)"
    using lg2_bounds(2)[OF assms(1)] pow2_mono[of "lg2 x + 1" "lg2 y"] lt by linarith
  have by1: "pow2 (lg2 y) \<le> y" using lg2_bounds(1)[of y] assms by simp
  have gx: "pow2 (lg2 y) = of_int (2 ^ nat (lg2 y - ?ex)) * ulp f x"
    unfolding ulp_def by (rule pow2_split) (use lt ey p in linarith)
  have gy: "pow2 (lg2 y) = of_int (2 ^ nat (lg2 y - ?ey)) * ulp f y"
    unfolding ulp_def by (rule pow2_split) (use ey p in linarith)
  have "rne (x / ulp f x) \<le> rne (of_int (2 ^ nat (lg2 y - ?ex)))"
    using bx unfolding gx by (intro rne_mono) (simp add: pos_divide_le_eq less_imp_le)
  then have "of_int (rne (x / ulp f x)) \<le> (of_int (2 ^ nat (lg2 y - ?ex)) :: rat)"
    by (simp only: rne_of_int of_int_le_iff)
  then have "rndq f x \<le> pow2 (lg2 y)"
    using assms(1) unfolding gx by (simp add: rndq_def mult_right_mono less_imp_le)
  moreover
  have "rne (of_int (2 ^ nat (lg2 y - ?ey))) \<le> rne (y / ulp f y)"
    using by1 unfolding gy by (intro rne_mono) (simp add: pos_le_divide_eq)
  then have "(of_int (2 ^ nat (lg2 y - ?ey)) :: rat) \<le> of_int (rne (y / ulp f y))"
    by (simp only: rne_of_int of_int_le_iff)
  then have "pow2 (lg2 y) \<le> rndq f y"
    using assms unfolding gy by (simp add: rndq_def mult_right_mono less_imp_le)
  ultimately show ?thesis by linarith
qed

lemma rne_nonneg: "0 \<le> x \<Longrightarrow> 0 \<le> rne x" using rne_mono[of 0 x] rne_of_int[of 0] by simp

lemma rndq_nonneg: "0 \<le> x \<Longrightarrow> 0 \<le> rndq f x"
  using ulp_pos[of f x] by (simp add: rndq_def rne_nonneg less_imp_le)

lemma rndq_mono: assumes "x \<le> y" "0 < prec f" shows "rndq f x \<le> rndq f y"
proof -
  consider "0 < x" | "x \<le> 0" "0 \<le> y" | "y < 0" by linarith
  then show ?thesis
  proof cases
    case 1 then show ?thesis using assms rndq_pos_mono by blast
  next
    case 2
    then have "0 \<le> rndq f (- x)" "0 \<le> rndq f y" by (simp_all only: rndq_nonneg neg_0_le_iff_le)
    then show ?thesis by simp
  next
    case 3
    then have "rndq f (- y) \<le> rndq f (- x)" using assms by (intro rndq_pos_mono) auto
    then show ?thesis by simp
  qed
qed

lemma representableI:
  assumes x: "x = of_int n * pow2 e" and n: "\<bar>n\<bar> < 2 ^ prec f" and e: "lsb_min f \<le> e"
  shows "representable f x"
proof (cases "n = 0")
  case True then show ?thesis by (simp add: x representable_def)
next
  case False
  let ?l = "max (lsb_min f) (lg2 \<bar>x\<bar> - int (prec f) + 1)"
  have ax: "\<bar>x\<bar> = of_int \<bar>n\<bar> * pow2 e" by (simp add: x abs_mult abs_of_pos)
  have "(of_int \<bar>n\<bar> :: rat) < of_int (2 ^ prec f)" using n by (simp only: of_int_less_iff)
  then have "\<bar>x\<bar> < pow2 (int (prec f)) * pow2 e"
    unfolding ax by (intro mult_strict_right_mono) (auto simp: pow2_def)
  then have "\<bar>x\<bar> < pow2 (int (prec f) + e)" by (simp add: pow2_add)
  moreover have "0 < \<bar>x\<bar>" using False by (simp add: x)
  ultimately have "lg2 \<bar>x\<bar> < int (prec f) + e"
    using lg2_bounds(1)[of "\<bar>x\<bar>"] by (meson order.strict_trans1 pow2_less_iff)
  then have "?l \<le> e" using e by linarith
  then have "pow2 e = of_int (2 ^ nat (e - ?l)) * ulp f \<bar>x\<bar>" unfolding ulp_def by (rule pow2_split)
  then have "x = of_int (n * 2 ^ nat (e - ?l)) * ulp f \<bar>x\<bar>" unfolding x by simp
  then have "x / ulp f \<bar>x\<bar> = of_int (n * 2 ^ nat (e - ?l))"
    using ulp_pos[of f "\<bar>x\<bar>"] by (metis less_irrefl nonzero_mult_div_cancel_right)
  then show ?thesis
    using \<open>0 < \<bar>x\<bar>\<close> \<open>x = of_int (n * 2 ^ nat (e - ?l)) * ulp f \<bar>x\<bar>\<close>
    unfolding representable_def rndq_def by (metis abs_zero less_irrefl rne_of_int)
qed

lemma rndq_bound_pow2:
  assumes "0 < x" "0 < prec f" shows "rndq f x \<le> pow2 (max (lsb_min f) (lg2 x - int (prec f) + 1) + int (prec f))"
proof -
  let ?l = "max (lsb_min f) (lg2 x - int (prec f) + 1)"
  have "x < pow2 (?l + int (prec f))"
    using lg2_bounds(2)[OF assms(1)] pow2_mono[of "lg2 x + 1" "?l + int (prec f)"] by linarith
  then have "x \<le> of_int (2 ^ prec f) * ulp f x" by (simp only: ulp_def pow2_plus_nat less_imp_le)
  then have "x / ulp f x \<le> of_int (2 ^ prec f)" by (simp add: pos_divide_le_eq)
  then have "rne (x / ulp f x) \<le> 2 ^ prec f" using rne_mono rne_of_int by metis
  then have "(of_int (rne (x / ulp f x)) :: rat) \<le> of_int (2 ^ prec f)" by (simp only: of_int_le_iff)
  then have "rndq f x \<le> of_int (2 ^ prec f) * ulp f x"
    using assms(1) by (simp add: rndq_def mult_right_mono less_imp_le)
  then show ?thesis by (simp only: ulp_def pow2_plus_nat)
qed

lemma rndq_representable_pos:
  assumes "0 < x" "0 < prec f" shows "representable f (rndq f x)"
proof -
  let ?l = "max (lsb_min f) (lg2 x - int (prec f) + 1)"
  let ?n = "rne (x / ulp f x)"
  have r: "rndq f x = of_int ?n * pow2 ?l" using assms(1) by (simp add: rndq_def ulp_def)
  have "of_int ?n * pow2 ?l \<le> of_int (2 ^ prec f) * pow2 ?l"
    using rndq_bound_pow2[OF assms] unfolding r pow2_plus_nat .
  then have "(of_int ?n :: rat) \<le> of_int (2 ^ prec f)" by (simp only: mult_le_cancel_right_pos pow2_pos)
  then have le: "?n \<le> 2 ^ prec f" by (simp only: of_int_le_iff)
  have ge: "0 \<le> ?n" using assms(1) by (intro rne_nonneg) (simp add: less_imp_le)
  show ?thesis
  proof (cases "?n = 2 ^ prec f")
    case True
    have "rndq f x = of_int 1 * pow2 (?l + int (prec f))"
      unfolding r True pow2_plus_nat by simp
    then show ?thesis by (rule representableI) (use assms(2) in auto)
  next
    case False
    with le ge show ?thesis by (intro representableI[OF r]) auto
  qed
qed

lemma representable_minus [simp]: "representable f (- x) \<longleftrightarrow> representable f x"
  by (simp add: representable_def)

lemma rndq_representable: "0 < prec f \<Longrightarrow> representable f (rndq f x)"
  using rndq_representable_pos[of x f] rndq_representable_pos[of "- x" f]
  by (cases x "0::rat" rule: linorder_cases) (simp_all add: representable_def)

lemma rndq_le: "x \<le> c \<Longrightarrow> representable f c \<Longrightarrow> 0 < prec f \<Longrightarrow> rndq f x \<le> c"
  using rndq_mono[of x c f] by (simp add: representable_def)

lemma rndq_ge: "c \<le> x \<Longrightarrow> representable f c \<Longrightarrow> 0 < prec f \<Longrightarrow> c \<le> rndq f x"
  using rndq_mono[of c x f] by (simp add: representable_def)


section \<open>Correct rounding as an interface\<close>

text \<open>
  What reasoning about a rounded result needs of the rounding: it is monotone, odd, lands on the
  representable numbers and fixes them.
\<close>

locale correct_rounding =
  fixes rnd :: "rat \<Rightarrow> rat" and rep :: "rat \<Rightarrow> bool"
  assumes mono: "x \<le> y \<Longrightarrow> rnd x \<le> rnd y"
    and odd_rnd: "rnd (- x) = - rnd x"
    and lands: "rep (rnd x)"
    and fixes_rep: "rep x \<Longrightarrow> rnd x = x"
begin

lemma zero: "rnd 0 = 0"
  using odd_rnd[of 0] by simp

lemma nonneg: "0 \<le> x \<Longrightarrow> 0 \<le> rnd x"
  using mono[of 0 x] by (simp add: zero)

lemma nonpos: "x \<le> 0 \<Longrightarrow> rnd x \<le> 0"
  using mono[of x 0] by (simp add: zero)

lemma le_rep: "x \<le> c \<Longrightarrow> rep c \<Longrightarrow> rnd x \<le> c"
  using mono[of x c] by (simp add: fixes_rep)

lemma rep_le: "c \<le> x \<Longrightarrow> rep c \<Longrightarrow> c \<le> rnd x"
  using mono[of c x] by (simp add: fixes_rep)

lemma idem: "rnd (rnd x) = rnd x"
  by (rule fixes_rep[OF lands])

lemma abs_le_rep: "\<bar>x\<bar> \<le> c \<Longrightarrow> rep c \<Longrightarrow> \<bar>rnd x\<bar> \<le> c"
  using le_rep[of x c] le_rep[of "- x" c] by (auto simp: odd_rnd abs_le_iff)

lemma abs_rnd: "\<bar>rnd x\<bar> = rnd \<bar>x\<bar>"
  using nonneg[of x] nonpos[of x] by (auto simp: abs_if odd_rnd not_less)

end

interpretation r32: correct_rounding "rndq f32" "representable f32"
  by unfold_locales
    (simp_all add: rndq_mono rndq_representable, simp add: representable_def)

interpretation r64: correct_rounding "rndq f64" "representable f64"
  by unfold_locales
    (simp_all add: rndq_mono rndq_representable, simp add: representable_def)

section \<open>The operations\<close>

text \<open>
  \<open>fin_of f s x\<close> rounds the exact result \<open>x\<close>; \<open>s\<close> is the sign an exact zero gets. A nonzero result
  that rounds to zero keeps its own sign.
\<close>

definition fin_of :: "fmt \<Rightarrow> bool \<Rightarrow> rat \<Rightarrow> fp" where
  "fin_of f s x = (let r = rndq f x in
     if pow2 (exp_max f + 1) \<le> \<bar>r\<bar> then Inf (r < 0)
     else if r = 0 then (if (if x = 0 then s else x < 0) then NZero else Fin 0)
     else Fin r)"

fun val :: "fp \<Rightarrow> rat" where
  "val (Fin r) = r"
| "val _ = 0"

fun signbit :: "fp \<Rightarrow> bool" where
  "signbit NaN = False"
| "signbit (Inf s) = s"
| "signbit NZero = True"
| "signbit (Fin r) = (r < 0)"

fun is_nan :: "fp \<Rightarrow> bool" where
  "is_nan NaN = True"
| "is_nan _ = False"

fun is_inf :: "fp \<Rightarrow> bool" where
  "is_inf (Inf s) = True"
| "is_inf _ = False"

definition is_fin :: "fp \<Rightarrow> bool" where
  "is_fin x \<longleftrightarrow> \<not> is_nan x \<and> \<not> is_inf x"

definition fneg :: "fp \<Rightarrow> fp" where
  "fneg x = (case x of NaN \<Rightarrow> NaN | Inf s \<Rightarrow> Inf (\<not> s) | NZero \<Rightarrow> Fin 0
     | Fin r \<Rightarrow> if r = 0 then NZero else Fin (- r))"

definition fabs :: "fp \<Rightarrow> fp" where
  "fabs x = (if signbit x then fneg x else x)"

definition fadd :: "fmt \<Rightarrow> fp \<Rightarrow> fp \<Rightarrow> fp" where
  "fadd f x y =
     (if is_nan x \<or> is_nan y then NaN
      else if is_inf x then (if is_inf y \<and> signbit x \<noteq> signbit y then NaN else x)
      else if is_inf y then y
      else fin_of f (signbit x \<and> signbit y) (val x + val y))"

definition fsub :: "fmt \<Rightarrow> fp \<Rightarrow> fp \<Rightarrow> fp" where
  "fsub f x y = fadd f x (fneg y)"

definition fmul :: "fmt \<Rightarrow> fp \<Rightarrow> fp \<Rightarrow> fp" where
  "fmul f x y =
     (let s = (signbit x \<noteq> signbit y) in
      if is_nan x \<or> is_nan y then NaN
      else if is_inf x then (if is_fin y \<and> val y = 0 then NaN else Inf s)
      else if is_inf y then (if val x = 0 then NaN else Inf s)
      else fin_of f s (val x * val y))"

definition fdiv :: "fmt \<Rightarrow> fp \<Rightarrow> fp \<Rightarrow> fp" where
  "fdiv f x y =
     (let s = (signbit x \<noteq> signbit y) in
      if is_nan x \<or> is_nan y then NaN
      else if is_inf x then (if is_inf y then NaN else Inf s)
      else if is_inf y then (if s then NZero else Fin 0)
      else if val y = 0 then (if val x = 0 then NaN else Inf s)
      else fin_of f s (val x / val y))"

text \<open>Comparisons: every comparison with NaN is false, and the two zeros are equal.\<close>

fun flt :: "fp \<Rightarrow> fp \<Rightarrow> bool" where
  "flt NaN y = False"
| "flt x NaN = False"
| "flt (Inf s) (Inf t) = (s \<and> \<not> t)"
| "flt (Inf s) y = s"
| "flt x (Inf t) = (\<not> t)"
| "flt x y = (val x < val y)"

fun feq :: "fp \<Rightarrow> fp \<Rightarrow> bool" where
  "feq NaN y = False"
| "feq x NaN = False"
| "feq (Inf s) (Inf t) = (s = t)"
| "feq (Inf s) y = False"
| "feq x (Inf t) = False"
| "feq x y = (val x = val y)"

definition fle :: "fp \<Rightarrow> fp \<Rightarrow> bool" where
  "fle x y \<longleftrightarrow> flt x y \<or> feq x y"

text \<open>Conversions: from an integer, between the formats, and truncation towards zero.\<close>

definition of_int_fp :: "fmt \<Rightarrow> int \<Rightarrow> fp" where
  "of_int_fp f n = fin_of f False (of_int n)"

definition fcvt :: "fmt \<Rightarrow> fp \<Rightarrow> fp" where
  "fcvt f x = (if is_fin x then fin_of f (signbit x) (val x) else x)"

definition lit :: "fmt \<Rightarrow> rat \<Rightarrow> fp" where
  "lit f x = fin_of f False x"

definition rtrunc :: "rat \<Rightarrow> int" where
  "rtrunc r = (if 0 \<le> r then \<lfloor>r\<rfloor> else - \<lfloor>- r\<rfloor>)"

text \<open>
  \<open>static_cast\<close> to an integer type with the given bounds: \<open>None\<close> where C++ leaves the behaviour
  undefined, that is for NaN, the infinities and a truncated value out of range.
\<close>

definition cast_int :: "int \<Rightarrow> int \<Rightarrow> fp \<Rightarrow> int option" where
  "cast_int lo hi x =
     (if is_fin x \<and> lo \<le> rtrunc (val x) \<and> rtrunc (val x) \<le> hi then Some (rtrunc (val x)) else None)"

text \<open>Integer square root, two bits at a time, and the correctly rounded square root on top of it.\<close>

function isqrt :: "int \<Rightarrow> int" where
  "isqrt n = (if n \<le> 0 then 0
     else let r = 2 * isqrt (n div 4) in if (r + 1) * (r + 1) \<le> n then r + 1 else r)"
  by pat_completeness auto
termination
  by (relation "measure nat") auto

declare isqrt.simps [simp del]

definition fsqrt :: "fmt \<Rightarrow> fp \<Rightarrow> fp" where
  "fsqrt f x =
     (if is_nan x then NaN
      else if is_fin x \<and> val x = 0 then x
      else if signbit x then NaN
      else if is_inf x then x
      else let k = int (prec f) + 2 - lg2 (val x) div 2;
               s = val x * pow2 (2 * k);
               r = isqrt \<lfloor>s\<rfloor>
           in if of_int (r * r) = s then fin_of f False (of_int r / pow2 k)
              else fin_of f False (of_int (2 * r + 1) / pow2 (k + 1)))"

text \<open>\<open>std::fmod\<close>: the exact remainder of the truncated quotient, with the sign of the dividend.\<close>

definition ffmod :: "fmt \<Rightarrow> fp \<Rightarrow> fp \<Rightarrow> fp" where
  "ffmod f x y =
     (if is_nan x \<or> is_nan y \<or> is_inf x then NaN
      else if is_inf y then x
      else if val y = 0 then NaN
      else fin_of f (signbit x) (val x - of_int (rtrunc (val x / val y)) * val y))"

text \<open>\<open>std::lround\<close> rounds halves away from zero, within the range of the result type.\<close>

definition round_half_away :: "rat \<Rightarrow> int" where
  "round_half_away r = (if 0 \<le> r then \<lfloor>r + 1 / 2\<rfloor> else - \<lfloor>1 / 2 - r\<rfloor>)"

abbreviation add32 :: "fp \<Rightarrow> fp \<Rightarrow> fp" where "add32 \<equiv> fadd f32"
abbreviation sub32 :: "fp \<Rightarrow> fp \<Rightarrow> fp" where "sub32 \<equiv> fsub f32"
abbreviation mul32 :: "fp \<Rightarrow> fp \<Rightarrow> fp" where "mul32 \<equiv> fmul f32"
abbreviation div32 :: "fp \<Rightarrow> fp \<Rightarrow> fp" where "div32 \<equiv> fdiv f32"
abbreviation sqrt32 :: "fp \<Rightarrow> fp" where "sqrt32 \<equiv> fsqrt f32"
abbreviation lit32 :: "rat \<Rightarrow> fp" where "lit32 \<equiv> lit f32"
abbreviation int32_fp :: "int \<Rightarrow> fp" where "int32_fp \<equiv> of_int_fp f32"


section \<open>Facts about the operations\<close>

text \<open>Well-formed values of a format: the finite ones are representable and below the overflow limit.\<close>

definition fp_wf :: "fmt \<Rightarrow> fp \<Rightarrow> bool" where
  "fp_wf f x \<longleftrightarrow> (case x of Fin r \<Rightarrow> representable f r \<and> \<bar>r\<bar> < pow2 (exp_max f + 1) | _ \<Rightarrow> True)"

lemma fp_wf_simps [simp]:
  "fp_wf f NaN" "fp_wf f (Inf s)" "fp_wf f NZero"
  "fp_wf f (Fin r) \<longleftrightarrow> representable f r \<and> \<bar>r\<bar> < pow2 (exp_max f + 1)"
  by (simp_all add: fp_wf_def)

lemma is_fin_simps [simp]: "\<not> is_fin NaN" "\<not> is_fin (Inf s)" "is_fin NZero" "is_fin (Fin r)"
  by (simp_all add: is_fin_def)

lemma is_fin_cases: "is_fin x \<longleftrightarrow> x = NZero \<or> (\<exists>r. x = Fin r)"
  by (cases x) auto

lemma not_is_fin_iff: "\<not> is_fin x \<longleftrightarrow> x = NaN \<or> (\<exists>s. x = Inf s)"
  by (cases x) auto

lemma is_fin_not_nan: "is_fin x \<Longrightarrow> \<not> is_nan x"
  by (simp add: is_fin_def)

lemma is_fin_not_inf: "is_fin x \<Longrightarrow> \<not> is_inf x"
  by (simp add: is_fin_def)

lemma representable_0 [simp]: "representable f 0"
  by (simp add: representable_def)

lemma fin_of_wf: "0 < prec f \<Longrightarrow> fp_wf f (fin_of f s x)"
  by (auto simp: fin_of_def Let_def rndq_representable)

lemma fin_of_not_nan [simp]: "\<not> is_nan (fin_of f s x)"
  by (simp add: fin_of_def Let_def)

lemma fin_of_fin: "\<bar>rndq f x\<bar> < pow2 (exp_max f + 1) \<Longrightarrow>
    is_fin (fin_of f s x) \<and> val (fin_of f s x) = rndq f x"
  by (auto simp: fin_of_def Let_def)

lemma fin_of_between:
  assumes "lo \<le> x" "x \<le> hi" "representable f lo" "representable f hi" "0 < prec f"
    and "\<bar>lo\<bar> < pow2 (exp_max f + 1)" "\<bar>hi\<bar> < pow2 (exp_max f + 1)"
  shows "is_fin (fin_of f s x)" "lo \<le> val (fin_of f s x)" "val (fin_of f s x) \<le> hi"
proof -
  have r: "lo \<le> rndq f x" "rndq f x \<le> hi"
    using assms rndq_ge[of lo x f] rndq_le[of x hi f] by auto
  then have "\<bar>rndq f x\<bar> < pow2 (exp_max f + 1)" using assms(6,7) by linarith
  from fin_of_fin[OF this, of s] r show "is_fin (fin_of f s x)" "lo \<le> val (fin_of f s x)"
    "val (fin_of f s x) \<le> hi" by auto
qed

lemma fin_of_exact:
  assumes "representable f x" "\<bar>x\<bar> < pow2 (exp_max f + 1)"
  shows "is_fin (fin_of f s x)" "val (fin_of f s x) = x"
  using fin_of_fin[of f x s] assms by (auto simp: representable_def)

lemma fneg_simps [simp]:
  "is_nan (fneg x) = is_nan x" "is_inf (fneg x) = is_inf x" "is_fin (fneg x) = is_fin x"
  "val (fneg x) = - val x"
  by (cases x; simp add: fneg_def)+

lemma fabs_simps [simp]:
  "is_nan (fabs x) = is_nan x" "is_inf (fabs x) = is_inf x" "is_fin (fabs x) = is_fin x"
  "val (fabs x) = \<bar>val x\<bar>"
  by (cases x; simp add: fabs_def fneg_def)+

lemma fp_wf_fneg: "fp_wf f x \<Longrightarrow> fp_wf f (fneg x)"
  by (cases x) (auto simp: fneg_def)

lemma fadd_wf [fp_class]: "0 < prec f \<Longrightarrow> fp_wf f x \<Longrightarrow> fp_wf f y \<Longrightarrow> fp_wf f (fadd f x y)"
  by (simp add: fadd_def fin_of_wf)

lemma fsub_wf [fp_class]: "0 < prec f \<Longrightarrow> fp_wf f x \<Longrightarrow> fp_wf f y \<Longrightarrow> fp_wf f (fsub f x y)"
  by (simp add: fsub_def fadd_wf fp_wf_fneg)

lemma fmul_wf [fp_class]: "0 < prec f \<Longrightarrow> fp_wf f (fmul f x y)"
  by (simp add: fmul_def Let_def fin_of_wf)

lemma fdiv_wf [fp_class]: "0 < prec f \<Longrightarrow> fp_wf f (fdiv f x y)"
  by (simp add: fdiv_def Let_def fin_of_wf)

text \<open>On finite arguments an operation is the rounding of the exact result.\<close>

lemma op_fin:
  assumes "is_fin x" "is_fin y"
  shows "fadd f x y = fin_of f (signbit x \<and> signbit y) (val x + val y)"
    "fsub f x y = fin_of f (signbit x \<and> signbit (fneg y)) (val x - val y)"
    "fmul f x y = fin_of f (signbit x \<noteq> signbit y) (val x * val y)"
    "val y \<noteq> 0 \<Longrightarrow> fdiv f x y = fin_of f (signbit x \<noteq> signbit y) (val x / val y)"
  using assms by (simp_all add: fadd_def fsub_def fmul_def fdiv_def Let_def is_fin_def)

text \<open>The order: on finite values that of the rationals, and transitive throughout.\<close>

lemma cmp_fin:
  assumes "is_fin x" "is_fin y"
  shows "flt x y \<longleftrightarrow> val x < val y" "feq x y \<longleftrightarrow> val x = val y" "fle x y \<longleftrightarrow> val x \<le> val y"
  using assms by (cases x; cases y; auto simp: fle_def)+

lemma fle_simps [simp]: "\<not> fle NaN y" "\<not> fle x NaN" "\<not> flt x NaN" "\<not> feq x NaN"
  by (cases x; simp add: fle_def)+

lemma fle_not_nan: "fle x y \<Longrightarrow> \<not> is_nan x \<and> \<not> is_nan y"
  by (cases x; cases y; simp add: fle_def)

lemma flt_not_nan: "flt x y \<Longrightarrow> \<not> is_nan x \<and> \<not> is_nan y"
  by (cases x; cases y; simp)

lemma fle_refl: "\<not> is_nan x \<Longrightarrow> fle x x"
  by (cases x) (auto simp: fle_def)

lemma not_flt_iff: "\<not> is_nan x \<Longrightarrow> \<not> is_nan y \<Longrightarrow> \<not> flt x y \<longleftrightarrow> fle y x"
  by (cases x; cases y) (auto simp: fle_def)

lemma fle_trans: "fle x y \<Longrightarrow> fle y z \<Longrightarrow> fle x z"
  by (cases x; cases y; cases z) (auto simp: fle_def)

lemma fle_flt_trans: "fle x y \<Longrightarrow> flt y z \<Longrightarrow> flt x z"
  by (cases x; cases y; cases z) (auto simp: fle_def)

lemma flt_fle_trans: "flt x y \<Longrightarrow> fle y z \<Longrightarrow> flt x z"
  by (cases x; cases y; cases z) (auto simp: fle_def)

lemma flt_imp_fle: "flt x y \<Longrightarrow> fle x y"
  by (simp add: fle_def)

lemma flt_trans: "flt x y \<Longrightarrow> flt y z \<Longrightarrow> flt x z"
  using flt_fle_trans flt_imp_fle by blast

lemma flt_irrefl [simp]: "\<not> flt x x"
  by (cases x) auto

lemma flt_asym: "flt x y \<Longrightarrow> \<not> fle y x"
  by (cases x; cases y) (auto simp: fle_def)

text \<open>A value between two finite ones is finite.\<close>

lemma between_fin: "fle a x \<Longrightarrow> fle x b \<Longrightarrow> is_fin a \<Longrightarrow> is_fin b \<Longrightarrow>
    is_fin x \<and> val a \<le> val x \<and> val x \<le> val b"
  by (cases a; cases x; cases b) (auto simp: fle_def)

text \<open>Integers of at most 24 bits are exact in binary32.\<close>

lemma representable_int: "\<bar>n\<bar> < 2 ^ prec f \<Longrightarrow> lsb_min f \<le> 0 \<Longrightarrow> representable f (of_int n)"
  by (rule representableI[of _ n 0]) (auto simp: pow2_def)

lemma lit_wf: "0 < prec f \<Longrightarrow> fp_wf f (lit f x)"
  by (simp add: lit_def fin_of_wf)

lemma of_int_fp_wf: "0 < prec f \<Longrightarrow> fp_wf f (of_int_fp f n)"
  by (simp add: of_int_fp_def fin_of_wf)

lemma signbit_val: "is_fin x \<Longrightarrow> signbit x \<Longrightarrow> val x \<le> 0"
  by (cases x) auto

lemma isqrt_bounds: "0 \<le> n \<Longrightarrow> 0 \<le> isqrt n \<and> isqrt n * isqrt n \<le> n \<and> n < (isqrt n + 1) * (isqrt n + 1)"
proof (induction n rule: isqrt.induct)
  case (1 n)
  show ?case
  proof (cases "n = 0")
    case True then show ?thesis by (simp add: isqrt.simps)
  next
    case False
    let ?q = "isqrt (n div 4)"
    have IH: "0 \<le> ?q" "?q * ?q \<le> n div 4" "n div 4 < (?q + 1) * (?q + 1)"
      using 1 False by auto
    then have "4 * (?q * ?q) \<le> n" "n < 4 * ((?q + 1) * (?q + 1))" by linarith+
    then show ?thesis
      using False IH(1) 1(2) by (simp add: isqrt.simps[of n] Let_def algebra_simps)
  qed
qed

text \<open>Signs of results: sums, quotients and square roots of nonnegative values are nonnegative or NaN.\<close>

lemma fin_of_nonneg: "0 \<le> x \<Longrightarrow> fle (Fin 0) (fin_of f s x)"
  using rndq_nonneg[of x f] by (auto simp: fin_of_def Let_def fle_def)

lemma fle_0_cases: "fle (Fin 0) x \<longleftrightarrow> x = Inf False \<or> is_fin x \<and> 0 \<le> val x"
  by (cases x) (auto simp: fle_def)

lemma fle_0_simps [simp]:
  "fle (Fin 0) (Inf t) \<longleftrightarrow> \<not> t" "fle (Fin 0) NZero" "fle (Fin 0) (Fin r) \<longleftrightarrow> 0 \<le> r"
  by (auto simp: fle_def)

lemma fadd_nonneg: "fle (Fin 0) x \<Longrightarrow> fle (Fin 0) y \<Longrightarrow> fle (Fin 0) (fadd f x y)"
  by (cases x; cases y) (simp_all add: fadd_def fin_of_nonneg)

lemma fdiv_nonneg:
  assumes "fle (Fin 0) x" "flt (Fin 0) y" "\<not> is_nan (fdiv f x y)"
  shows "fle (Fin 0) (fdiv f x y)"
  using assms by (cases x; cases y) (simp_all add: fdiv_def fin_of_nonneg)

lemma isqrt_nonneg: "0 \<le> isqrt n"
  by (cases "n \<le> 0") (use isqrt_bounds[of n] in \<open>simp_all add: isqrt.simps\<close>)

lemma fsqrt_nonneg: "is_nan (fsqrt f x) \<or> fle (Fin 0) (fsqrt f x)"
proof (cases x)
  case (Fin r)
  have "0 \<le> (of_int (isqrt n) :: rat)" "0 \<le> (of_int (2 * isqrt n + 1) :: rat)" for n
    using isqrt_nonneg[of n] by simp_all
  then have "fle (Fin 0) (fin_of f False (of_int (isqrt n) / pow2 k))"
    "fle (Fin 0) (fin_of f False (of_int (2 * isqrt n + 1) / pow2 k))" for n k
    by (auto intro!: fin_of_nonneg divide_nonneg_pos)
  then show ?thesis unfolding Fin fsqrt_def Let_def by (simp del: of_int_add of_int_mult)
qed (simp_all add: fsqrt_def)

end
