(* ===== verification/CStrings.thy ===== *)
theory CStrings
  imports Floats
begin

text \<open>
  The string helpers of \<open>src/Util.cpp\<close>: splitting, the Arma truth values, number parsing through
  \<open>std::strtof\<close> and \<open>std::lround\<close>, and the nickname conversion. A \<open>std::string\<close> is a list of bytes
  (Isabelle's \<open>string\<close>).
\<close>

section \<open>Splitting\<close>

text \<open>\<open>s.find_first_of(delim, p)\<close>, with the code's replacement of \<open>npos\<close> by the length.\<close>

definition find_pos :: "string \<Rightarrow> char \<Rightarrow> nat \<Rightarrow> nat" where
  "find_pos s d p = p + length (takeWhile (\<lambda>c. c \<noteq> d) (drop p s))"

lemma find_pos_ge: "p \<le> find_pos s d p"
  by (simp add: find_pos_def)

function split_from :: "string \<Rightarrow> char \<Rightarrow> nat \<Rightarrow> string list" where
  "split_from s d lastPos =
     (if lastPos < length s + 1 then
        let pos = find_pos s d lastPos
        in take (pos - lastPos) (drop lastPos s) # split_from s d (pos + 1)
      else [])"
  by pat_completeness auto
termination
proof (relation "measure (\<lambda>(s, d, p). length s + 1 - p)")
  fix s :: string and d p pos
  assume "p < length s + 1" "pos = find_pos s d p"
  then show "((s, d, pos + 1), s, d, p) \<in> measure (\<lambda>(s, d, p). length s + 1 - p)"
    using find_pos_ge[of p s d] by simp
qed simp

declare split_from.simps [simp del]

definition split :: "string \<Rightarrow> char \<Rightarrow> string list" where
  "split s d = split_from s d 0"

text \<open>\<open>splitLimit\<close> stops once it has \<open>maxTokens\<close> tokens; \<open>n\<close> counts the ones still wanted.\<close>

function split_limit_from :: "string \<Rightarrow> char \<Rightarrow> nat \<Rightarrow> nat \<Rightarrow> string list" where
  "split_limit_from s d n lastPos =
     (if lastPos < length s + 1 then
        let pos = find_pos s d lastPos; tok = take (pos - lastPos) (drop lastPos s)
        in if n \<le> 1 then [tok] else tok # split_limit_from s d (n - 1) (pos + 1)
      else [])"
  by pat_completeness auto
termination
  by (relation "measure (\<lambda>(s, d, n, p). n)") auto

declare split_limit_from.simps [simp del]

definition splitLimit :: "string \<Rightarrow> char \<Rightarrow> nat \<Rightarrow> string list" where
  "splitLimit s d maxTokens = (if maxTokens = 0 then [] else split_limit_from s d maxTokens 0)"

text \<open>The same, read off the string itself: the structural specification of splitting.\<close>

fun pieces :: "char \<Rightarrow> string \<Rightarrow> string list" where
  "pieces d [] = [[]]"
| "pieces d (c # cs) =
     (if c = d then [] # pieces d cs
      else (case pieces d cs of [] \<Rightarrow> [[c]] | t # ts \<Rightarrow> (c # t) # ts))"

fun join :: "char \<Rightarrow> string list \<Rightarrow> string" where
  "join d [] = []"
| "join d [t] = t"
| "join d (t # ts) = t @ d # join d ts"

lemma pieces_nonempty [simp]: "pieces d s \<noteq> []"
  by (induction d s rule: pieces.induct) (auto split: list.splits)

lemma pieces_takeWhile:
  "pieces d s = takeWhile (\<lambda>c. c \<noteq> d) s #
     (case dropWhile (\<lambda>c. c \<noteq> d) s of [] \<Rightarrow> [] | _ # r \<Rightarrow> pieces d r)"
proof (induction d s rule: pieces.induct)
  case (2 d c cs)
  then show ?case by (cases "c = d") simp_all
qed simp

lemma split_from_pieces: "p \<le> length s \<Longrightarrow> split_from s d p = pieces d (drop p s)"
proof (induction s d p rule: split_from.induct)
  case (1 s d p)
  let ?w = "takeWhile (\<lambda>c. c \<noteq> d) (drop p s)"
  have tk: "take (length ?w) (drop p s) = ?w" by (rule takeWhile_eq_take[symmetric])
  have dw: "dropWhile (\<lambda>c. c \<noteq> d) (drop p s) = drop (find_pos s d p) s"
    by (subst dropWhile_eq_drop) (simp add: find_pos_def add.commute)
  show ?case
  proof (cases "drop (find_pos s d p) s")
    case Nil
    then have "split_from s d (find_pos s d p + 1) = []" by (subst split_from.simps) simp
    with 1(2) Nil show ?thesis
      by (subst split_from.simps, subst pieces_takeWhile) (simp add: dw tk Let_def find_pos_def)
  next
    case (Cons c r)
    then have "find_pos s d p < length s" by (metis drop_eq_Nil2 list.distinct(1) not_le_imp_less)
    moreover from Cons have "r = drop (find_pos s d p + 1) s" by (metis Suc_eq_plus1 drop_Suc list.sel(3) tl_drop)
    ultimately have "split_from s d (find_pos s d p + 1) = pieces d r"
      using 1 by simp
    with 1(2) Cons show ?thesis
      by (subst split_from.simps, subst pieces_takeWhile) (simp add: dw tk Let_def find_pos_def)
  qed
qed

lemma split_pieces: "split s d = pieces d s"
  by (simp add: split_def split_from_pieces)

lemma split_limit_from_take:
  "0 < n \<Longrightarrow> split_limit_from s d n p = take n (split_from s d p)"
proof (induction s d n p rule: split_limit_from.induct)
  case (1 s d n p)
  show ?case
  proof (cases "p < length s + 1 \<and> 1 < n")
    case True
    then have "0 < n - 1" by simp
    with True 1(1)[OF _ refl refl] have IH: "split_limit_from s d (n - 1) (find_pos s d p + 1) =
        take (n - 1) (split_from s d (find_pos s d p + 1))" by simp
    from True obtain k where "n = Suc k" by (cases n) auto
    with True IH show ?thesis
      by (subst split_limit_from.simps) (simp add: split_from.simps[of s d p] Let_def)
  next
    case False
    with 1(2) have "n = 1 \<or> \<not> p < length s + 1" by linarith
    then show ?thesis
      by (auto simp: split_limit_from.simps[of s d n p] split_from.simps[of s d p] Let_def)
  qed
qed

lemma splitLimit_take: "splitLimit s d n = take n (split s d)"
  by (simp add: splitLimit_def split_def split_limit_from_take)

lemma join_Cons: "ts \<noteq> [] \<Longrightarrow> join d (t # ts) = t @ d # join d ts"
  by (cases ts) auto

lemma join_pieces: "join d (pieces d s) = s"
proof (induction d s rule: pieces.induct)
  case (2 d c cs)
  show ?case
  proof (cases "pieces d cs")
    case (Cons t ts)
    with 2 show ?thesis by (cases ts) (auto simp: join_Cons)
  qed simp
qed simp

lemma pieces_no_delim: "t \<in> set (pieces d s) \<Longrightarrow> d \<notin> set t"
  by (induction d s arbitrary: t rule: pieces.induct) (auto split: list.splits if_splits)

lemma pieces_join: "ts \<noteq> [] \<Longrightarrow> \<forall>t \<in> set ts. d \<notin> set t \<Longrightarrow> pieces d (join d ts) = ts"
proof (induction d ts rule: join.induct)
  case (2 d t)
  then show ?case by (induction t) auto
next
  case (3 d t t' ts)
  have "pieces d (t @ d # r) = t # pieces d r" for r
    using 3(3) by (induction t) auto
  with 3 show ?case by simp
qed simp

lemma length_pieces: "length (pieces d s) = Suc (count_list s d)"
  by (induction d s rule: pieces.induct) (auto split: list.splits)

section \<open>Truth values and nicknames\<close>

definition isTrue :: "string \<Rightarrow> bool" where
  "isTrue s = (if length s \<noteq> 4 then length s = 1 \<and> hd s = CHR ''1'' else s = ''true'')"

text \<open>The loop that overwrites leading spaces; the second loop is the same from the other end.\<close>

fun fill_front :: "string \<Rightarrow> string" where
  "fill_front [] = []"
| "fill_front (c # cs) = (if c = CHR '' '' then CHR ''_'' # fill_front cs else c # cs)"

definition convertNickname :: "string \<Rightarrow> string" where
  "convertNickname nickname =
     (if nickname = [] then nickname
      else if hd nickname \<noteq> CHR '' '' \<and> last nickname \<noteq> CHR '' '' then nickname
      else rev (fill_front (rev (fill_front nickname))))"

lemma length_fill_front [simp]: "length (fill_front s) = length s"
  by (induction s rule: fill_front.induct) auto

lemma fill_front_eq_Nil [simp]: "fill_front s = [] \<longleftrightarrow> s = []"
  by (cases s) auto

lemma hd_fill_front: "s \<noteq> [] \<Longrightarrow> hd (fill_front s) \<noteq> CHR '' ''"
  by (cases s) auto

lemma last_fill_front: "s \<noteq> [] \<Longrightarrow> last s \<noteq> CHR '' '' \<Longrightarrow> last (fill_front s) \<noteq> CHR '' ''"
  by (induction s rule: fill_front.induct) auto

lemma convertNickname_empty [simp]: "convertNickname s = [] \<longleftrightarrow> s = []"
  by (simp add: convertNickname_def)

lemma convertNickname_Nil [simp]: "convertNickname [] = []"
  by (simp add: convertNickname_def)

lemma convertNickname_ends:
  assumes "s \<noteq> []"
  shows "hd (convertNickname s) \<noteq> CHR '' ''" "last (convertNickname s) \<noteq> CHR '' ''"
proof -
  have "hd (rev (fill_front (rev (fill_front s)))) \<noteq> CHR '' ''"
    using assms last_fill_front[of "rev (fill_front s)"] by (simp add: hd_rev last_rev hd_fill_front)
  moreover have "last (rev (fill_front (rev (fill_front s)))) \<noteq> CHR '' ''"
    using assms by (simp add: last_rev hd_fill_front)
  ultimately show "hd (convertNickname s) \<noteq> CHR '' ''" "last (convertNickname s) \<noteq> CHR '' ''"
    using assms by (simp_all add: convertNickname_def)
qed

lemma convertNickname_idem: "convertNickname (convertNickname s) = convertNickname s"
proof (cases "s = []")
  case True
  then show ?thesis by (simp add: convertNickname_def)
next
  case False
  with convertNickname_ends[of s] show ?thesis
    by (simp add: convertNickname_def[of "convertNickname s"])
qed

end
