(* ===== verification/Strtof.thy ===== *)
theory Strtof
  imports Floats
begin

text \<open>
  \<open>std::strtof\<close> in the C locale, the only number parser of the extension: leading white space, a
  sign, \<open>inf\<close>, \<open>infinity\<close> or \<open>nan\<close> in any case, a hexadecimal or a decimal number with an optional
  exponent. The longest prefix that is a number is converted, correctly rounded; without one the
  result is positive zero. (The end pointer is never asked for.)
\<close>

definition is_space :: "char \<Rightarrow> bool" where
  "is_space c \<longleftrightarrow> (let n = (of_char c :: int) in n = 32 \<or> (9 \<le> n \<and> n \<le> 13))"

definition to_lower :: "char \<Rightarrow> char" where
  "to_lower c = (let n = (of_char c :: int) in if 65 \<le> n \<and> n \<le> 90 then char_of (n + 32) else c)"

text \<open>The value of a digit in the given base, if it is one.\<close>

definition digit_val :: "int \<Rightarrow> char \<Rightarrow> int option" where
  "digit_val base c =
     (let n = (of_char (to_lower c) :: int);
          v = (if 48 \<le> n \<and> n \<le> 57 then n - 48 else if 97 \<le> n \<and> n \<le> 102 then n - 87 else base)
      in if v < base then Some v else None)"

text \<open>The longest run of digits, as its value and its length, and the rest of the string.\<close>

fun scan_digits :: "int \<Rightarrow> int \<Rightarrow> nat \<Rightarrow> string \<Rightarrow> int \<times> nat \<times> string" where
  "scan_digits base acc n [] = (acc, n, [])"
| "scan_digits base acc n (c # cs) =
     (case digit_val base c of
        None \<Rightarrow> (acc, n, c # cs)
      | Some v \<Rightarrow> scan_digits base (acc * base + v) (Suc n) cs)"

fun scan_sign :: "string \<Rightarrow> bool \<times> string" where
  "scan_sign [] = (False, [])"
| "scan_sign (c # cs) =
     (if c = CHR ''-'' then (True, cs) else if c = CHR ''+'' then (False, cs) else (False, c # cs))"

text \<open>An exponent counts only if at least one digit follows the letter and the sign.\<close>

definition scan_exponent :: "char \<Rightarrow> string \<Rightarrow> int" where
  "scan_exponent letter s =
     (case s of [] \<Rightarrow> 0
      | c # cs \<Rightarrow>
          if to_lower c \<noteq> letter then 0
          else (case scan_sign cs of (neg, ds) \<Rightarrow>
                 (case scan_digits 10 0 0 ds of (e, n, _) \<Rightarrow>
                    if n = 0 then 0 else if neg then - e else e)))"

text \<open>
  A mantissa in the given base (digits, optionally a point and more digits), as its integer value,
  the number of fractional digits and the rest; \<open>None\<close> when it has no digit at all.
\<close>

definition scan_mantissa :: "int \<Rightarrow> string \<Rightarrow> (int \<times> nat \<times> string) option" where
  "scan_mantissa base s =
     (case scan_digits base 0 0 s of (m, n, r) \<Rightarrow>
        (case r of
           [] \<Rightarrow> if n = 0 then None else Some (m, 0, r)
         | c # cs \<Rightarrow>
             if c = CHR ''.'' then
               (case scan_digits base m 0 cs of (m', k, r') \<Rightarrow>
                  if n = 0 \<and> k = 0 then None else Some (m', k, r'))
             else if n = 0 then None else Some (m, 0, r)))"

definition pow10 :: "int \<Rightarrow> rat" where
  "pow10 k = (if 0 \<le> k then 10 ^ nat k else 1 / 10 ^ nat (- k))"

definition scan_decimal :: "string \<Rightarrow> rat option" where
  "scan_decimal s = (case scan_mantissa 10 s of
       None \<Rightarrow> None
     | Some (m, k, r) \<Rightarrow> Some (of_int m * pow10 (scan_exponent CHR ''e'' r - int k)))"

definition scan_hex :: "string \<Rightarrow> rat option" where
  "scan_hex s = (case s of
       z # x # r \<Rightarrow>
         if z = CHR ''0'' \<and> to_lower x = CHR ''x'' then
           (case scan_mantissa 16 r of
              None \<Rightarrow> None
            | Some (m, k, r') \<Rightarrow> Some (of_int m * pow2 (scan_exponent CHR ''p'' r' - 4 * int k)))
         else None
     | _ \<Rightarrow> None)"

definition has_prefix_ci :: "string \<Rightarrow> string \<Rightarrow> bool" where
  "has_prefix_ci p s \<longleftrightarrow> map to_lower (take (length p) s) = p"

definition strtof :: "string \<Rightarrow> fp" where
  "strtof s =
     (case scan_sign (dropWhile is_space s) of (neg, r) \<Rightarrow>
        if has_prefix_ci ''inf'' r then Inf neg
        else if has_prefix_ci ''nan'' r then NaN
        else (case scan_hex r of
                Some x \<Rightarrow> fin_of f32 neg (if neg then - x else x)
              | None \<Rightarrow>
                  (case scan_decimal r of
                     Some x \<Rightarrow> fin_of f32 neg (if neg then - x else x)
                   | None \<Rightarrow> Fin 0)))"

lemma strtof_wf [fp_class]: "fp_wf f32 (strtof s)"
  by (auto simp: strtof_def fin_of_wf split: prod.splits option.splits)

lemma strtof_empty [simp]: "strtof [] = Fin 0"
  by code_simp

section \<open>Arma numbers (\<open>Util.cpp\<close>)\<close>

text \<open>
  The C math library. \<open>sqrt\<close>, \<open>fabs\<close>, \<open>floor\<close> and \<open>fmod\<close> are exact or correctly rounded and
  defined in \<open>Floats\<close>; the accuracy of the transcendental functions is up to the implementation,
  so they are parameters, and so are the unspecified value \<open>lround\<close> returns out of range and what a
  \<open>static_cast\<close> to an integer type gives where C++ leaves it undefined.
\<close>

record libm =
  powf :: "fp \<Rightarrow> fp \<Rightarrow> fp"
  atan2f :: "fp \<Rightarrow> fp \<Rightarrow> fp"
  sinf :: "fp \<Rightarrow> fp"
  sind :: "fp \<Rightarrow> fp"
  cosd :: "fp \<Rightarrow> fp"
  lround_oob :: "fp \<Rightarrow> 32 word"
  cast_oob :: "fp \<Rightarrow> 32 word"

definition lroundf :: "libm \<Rightarrow> fp \<Rightarrow> int" where
  "lroundf m x =
     (let n = round_half_away (val x)
      in if is_fin x \<and> - (2 ^ 31) \<le> n \<and> n < 2 ^ 31 then n else sint (lround_oob m x))"

definition parseArmaNumber :: "string \<Rightarrow> fp" where
  "parseArmaNumber s = (if s = [] then Fin 0 else strtof s)"

definition parseArmaNumberToInt :: "libm \<Rightarrow> string \<Rightarrow> int" where
  "parseArmaNumberToInt m s = lroundf m (parseArmaNumber s)"

lemma parseArmaNumber_wf [fp_class]: "fp_wf f32 (parseArmaNumber s)"
  by (simp add: parseArmaNumber_def strtof_wf)

lemma parseArmaNumberToInt_range: "- (2 ^ 31) \<le> parseArmaNumberToInt m s \<and> parseArmaNumberToInt m s < 2 ^ 31"
  using sint_range_size[of "lround_oob m (parseArmaNumber s)"]
  by (auto simp: parseArmaNumberToInt_def lroundf_def Let_def word_size)

end
