(* ===== verification/VecMath.thy ===== *)
theory VecMath
  imports CStrings Strtof
begin

text \<open>
  Vectors and audio math of \<open>src/Util.h\<close> and \<open>src/Util.cpp\<close>, operation by operation in binary32 in
  the order the code evaluates them.
\<close>

section \<open>Constants and vectors\<close>

definition kPi :: fp where "kPi = lit32 (314159265358979323846 / 100000000000000000000)"
definition kCantSpeakDistance :: fp where "kCantSpeakDistance = Fin 5"
definition kCantSpeakGain :: fp where "kCantSpeakGain = Fin 14"
definition kSpeakerGain :: fp where "kSpeakerGain = Fin 4"
definition kDdMinDistance :: fp where "kDdMinDistance = Fin 70"
definition kDdMaxDistance :: fp where "kDdMaxDistance = Fin 300"
definition kNoAntennaLoss :: fp where "kNoAntennaLoss = Fin 7"

record vec3 =
  vx :: fp
  vy :: fp
  vz :: fp

abbreviation vec :: "fp \<Rightarrow> fp \<Rightarrow> fp \<Rightarrow> vec3" where
  "vec a b c \<equiv> \<lparr>vx = a, vy = b, vz = c\<rparr>"

definition vzero :: vec3 where "vzero = vec (Fin 0) (Fin 0) (Fin 0)"

definition vadd :: "vec3 \<Rightarrow> vec3 \<Rightarrow> vec3" where
  "vadd a b = vec (add32 (vx a) (vx b)) (add32 (vy a) (vy b)) (add32 (vz a) (vz b))"

definition vsub :: "vec3 \<Rightarrow> vec3 \<Rightarrow> vec3" where
  "vsub a b = vec (sub32 (vx a) (vx b)) (sub32 (vy a) (vy b)) (sub32 (vz a) (vz b))"

definition vscale :: "vec3 \<Rightarrow> fp \<Rightarrow> vec3" where
  "vscale a f = vec (mul32 (vx a) f) (mul32 (vy a) f) (mul32 (vz a) f)"

definition isNull :: "vec3 \<Rightarrow> bool" where
  "isNull a \<longleftrightarrow> feq (vx a) (Fin 0) \<and> feq (vy a) (Fin 0) \<and> feq (vz a) (Fin 0)"

definition distanceTo :: "vec3 \<Rightarrow> vec3 \<Rightarrow> fp" where
  "distanceTo a b =
     (let dx = sub32 (vx a) (vx b); dy = sub32 (vy a) (vy b); dz = sub32 (vz a) (vz b)
      in sqrt32 (add32 (add32 (mul32 dx dx) (mul32 dy dy)) (mul32 dz dz)))"

definition parseVec3 :: "string \<Rightarrow> vec3" where
  "parseVec3 s =
     (if length s < 3 then vzero
      else
        let inner = (if hd s = CHR ''['' then
                       take (if last s = CHR '']'' then length s - 2 else length s - 1) (drop 1 s)
                     else s);
            coords = split inner (CHR '','')
        in if length coords = 2 then
             vec (parseArmaNumber (coords ! 0)) (parseArmaNumber (coords ! 1)) (Fin 0)
           else if length coords = 3 \<or> length coords = 4 then
             vec (parseArmaNumber (coords ! 0)) (parseArmaNumber (coords ! 1)) (parseArmaNumber (coords ! 2))
           else vzero)"

definition distanceUnderwater :: "vec3 \<Rightarrow> vec3 \<Rightarrow> fp" where
  "distanceUnderwater a b =
     (if flt (Fin 0) (vz a) \<and> flt (Fin 0) (vz b) then Fin 0
      else if flt (vz a) (Fin 0) \<and> flt (vz b) (Fin 0) then distanceTo a b
      else
        let lower = (if flt (vz a) (vz b) then a else b);
            upper = (if flt (vz b) (vz a) then a else b);
            diff = vsub upper lower
        in if feq (vz diff) (Fin 0) \<or> feq (vz lower) (Fin 0) then Fin 0
           else
             let divisor = div32 (vz diff) (mul32 (vz lower) (Fin (- 1)))
             in if feq divisor (Fin 0) then Fin 0
                else
                  let toWater = vec (div32 (vx diff) divisor) (div32 (vy diff) divisor)
                                    (div32 (vz diff) divisor);
                      waterLineIntersect = vadd lower toWater
                  in if flt (vz a) (Fin 0) then distanceTo a waterLineIntersect
                     else distanceTo b waterLineIntersect)"

section \<open>Audio math\<close>

definition clampf :: "fp \<Rightarrow> fp \<Rightarrow> fp \<Rightarrow> fp" where
  "clampf v lo hi = (if flt v lo then lo else if flt hi v then hi else v)"

definition volumeMultiplier :: "libm \<Rightarrow> fp \<Rightarrow> fp" where
  "volumeMultiplier m volumeValue =
     (let normalized = div32 (add32 volumeValue (Fin 1)) (Fin 10)
      in powf m normalized (Fin 4))"

definition volumeAttenuation :: "libm \<Rightarrow> fp \<Rightarrow> bool \<Rightarrow> fp \<Rightarrow> fp \<Rightarrow> fp" where
  "volumeAttenuation m distance shouldPlayerHear maxAudible multiplier =
     (if fle distance (Fin 1) then Fin 1
      else
        let maxDistance = (if shouldPlayerHear then mul32 maxAudible multiplier else kCantSpeakDistance)
        in if fle maxDistance (Fin 0) then Fin 0
           else
             let gain = powf m (Fin 10)
                   (div32 (mul32 (div32 distance (mul32 maxDistance (Fin 2))) (Fin (- 60))) (Fin 20))
             in if flt gain (lit32 (1 / 1000)) then Fin 0
                else if flt gain (Fin 1) then gain else Fin 1)"

text \<open>
  The two loops of \<open>wrapPi\<close>. Neither has a bound: for an argument so large that subtracting a turn
  rounds back to it, they do not end, so they are partial and \<open>None\<close> is "does not return".
\<close>

definition two_pi :: fp where "two_pi = mul32 (Fin 2) kPi"

partial_function (option) wrap_down :: "fp \<Rightarrow> fp option" where
  "wrap_down angle = (if flt kPi angle then wrap_down (sub32 angle two_pi) else Some angle)"

partial_function (option) wrap_up :: "fp \<Rightarrow> fp option" where
  "wrap_up angle = (if flt angle (fneg kPi) then wrap_up (add32 angle two_pi) else Some angle)"

declare wrap_down.simps [code] wrap_up.simps [code]

definition wrapPi :: "fp \<Rightarrow> fp option" where
  "wrapPi angle = Option.bind (wrap_down angle) wrap_up"

definition azimuthTo :: "libm \<Rightarrow> vec3 \<Rightarrow> vec3 \<Rightarrow> vec3 \<Rightarrow> fp option" where
  "azimuthTo m listener viewDirection target =
     (let delta = vsub target listener
      in if feq (vx delta) (Fin 0) \<and> feq (vy delta) (Fin 0) then Some (Fin 0)
         else
           let bearingToTarget = atan2f m (vx delta) (vy delta);
               viewBearing =
                 (if \<not> feq (vx viewDirection) (Fin 0) \<or> \<not> feq (vy viewDirection) (Fin 0)
                  then atan2f m (vx viewDirection) (vy viewDirection) else Fin 0)
           in wrapPi (sub32 bearingToTarget viewBearing))"

section \<open>Bounds\<close>

text \<open>Exact values of the constants.\<close>

lemma kPi_val: "kPi = Fin (13176795 / 4194304)"
  unfolding kPi_def by code_simp

lemma two_pi_val: "two_pi = Fin (13176795 / 2097152)"
  unfolding two_pi_def kPi_val by code_simp

lemma lit_milli: "lit32 (1 / 1000) = Fin (8589935 / 8589934592)"
  by code_simp

text \<open>
  The attenuation is a gain between 0 and 1 for every input, NaN and infinities included, and
  whatever \<open>powf\<close> returns: the two comparisons at the end see to it.
\<close>

lemma volumeAttenuation_range:
  "\<exists>g. (volumeAttenuation m d h ma mu = Fin g) \<and> (g = 0 \<or> 8589935 / 8589934592 \<le> g \<and> g \<le> 1)"
proof -
  have key: "\<exists>r. (if flt g (lit32 (1 / 1000)) then Fin 0 else if flt g (Fin 1) then g else Fin 1) = Fin r \<and>
      (r = 0 \<or> 8589935 / 8589934592 \<le> r \<and> r \<le> 1)" for g
    by (cases g) (auto simp: lit_milli)
  show ?thesis
    unfolding volumeAttenuation_def Let_def using key by auto
qed

lemma clampf_range:
  assumes "fle lo hi" "\<not> is_nan v"
  shows "fle lo (clampf v lo hi) \<and> fle (clampf v lo hi) hi"
proof -
  have n: "\<not> is_nan lo" "\<not> is_nan hi" using fle_not_nan[OF assms(1)] by auto
  show ?thesis
    using assms n not_flt_iff[of v lo] not_flt_iff[of hi v] fle_refl
    by (auto simp: clampf_def)
qed

lemma clampf_fin:
  assumes "fle lo hi" "\<not> is_nan v" "is_fin lo" "is_fin hi"
  shows "is_fin (clampf v lo hi)" "val lo \<le> val (clampf v lo hi)" "val (clampf v lo hi) \<le> val hi"
  using clampf_range[OF assms(1,2)] between_fin[of lo "clampf v lo hi" hi] assms(3,4) by auto

text \<open>
  One turn at most: an angle within two half turns is brought into \<open>[-kPi, kPi]\<close> by at most one
  subtraction or addition, both in range of the rounding.
\<close>

lemma representable_pi: "representable f32 (13176795 / 4194304)" "representable f32 (13176795 / 2097152)"
  by (simp add: representable_def, code_simp)+

lemma pow2_128: "pow2 128 = 2 ^ 128" by (simp add: pow2_def)

lemma wrap_down_range:
  assumes "is_fin a" "\<bar>val a\<bar> \<le> 13176795 / 2097152"
  shows "\<exists>b. wrap_down a = Some b \<and> is_fin b \<and> val b \<le> 13176795 / 4194304 \<and>
    (- (13176795 / 4194304) \<le> val b \<or> b = a)"
proof (cases "flt kPi a")
  case False
  then have "val a \<le> 13176795 / 4194304" using assms(1) cmp_fin(1)[of kPi a] by (simp add: kPi_val)
  with False assms(1) show ?thesis by (subst wrap_down.simps) auto
next
  case True
  then have a: "13176795 / 4194304 < val a" using assms(1) cmp_fin(1)[of kPi a] by (simp add: kPi_val)
  let ?b = "sub32 a two_pi"
  have b: "?b = fin_of f32 (signbit a \<and> signbit (fneg two_pi)) (val a - 13176795 / 2097152)"
    using assms(1) op_fin(2)[of a two_pi f32] by (simp add: two_pi_val)
  have "is_fin ?b \<and> - (13176795 / 4194304) \<le> val ?b \<and> val ?b \<le> 0"
    unfolding b using a assms(2) representable_pi
    by (intro conjI fin_of_between[where lo = "- (13176795 / 4194304)" and hi = 0])
      (auto simp: pow2_128)
  then have "is_fin ?b" "- (13176795 / 4194304) \<le> val ?b" "val ?b \<le> 0" by auto
  moreover have "\<not> flt kPi ?b" using calculation cmp_fin(1)[of kPi ?b] by (simp add: kPi_val)
  then have "wrap_down ?b = Some ?b" by (subst wrap_down.simps) simp
  ultimately show ?thesis using True by (subst wrap_down.simps) auto
qed

lemma wrap_up_range:
  assumes "is_fin a" "- (13176795 / 2097152) \<le> val a" "val a \<le> 13176795 / 4194304"
  shows "\<exists>b. wrap_up a = Some b \<and> is_fin b \<and> \<bar>val b\<bar> \<le> 13176795 / 4194304"
proof (cases "flt a (fneg kPi)")
  case False
  then have "- (13176795 / 4194304) \<le> val a"
    using assms(1) cmp_fin(1)[of a "fneg kPi"] by (simp add: kPi_val fneg_def)
  with False assms show ?thesis by (subst wrap_up.simps) auto
next
  case True
  then have a: "val a < - (13176795 / 4194304)"
    using assms(1) cmp_fin(1)[of a "fneg kPi"] by (simp add: kPi_val fneg_def)
  let ?b = "add32 a two_pi"
  have b: "?b = fin_of f32 (signbit a \<and> signbit two_pi) (val a + 13176795 / 2097152)"
    using assms(1) op_fin(1)[of a two_pi f32] by (simp add: two_pi_val)
  have "is_fin ?b \<and> 0 \<le> val ?b \<and> val ?b \<le> 13176795 / 4194304"
    unfolding b using a assms(2) representable_pi
    by (intro conjI fin_of_between[where lo = 0 and hi = "13176795 / 4194304"])
      (auto simp: pow2_128)
  then have "is_fin ?b" "0 \<le> val ?b" "val ?b \<le> 13176795 / 4194304" by auto
  moreover have "\<not> flt ?b (fneg kPi)"
    using calculation cmp_fin(1)[of ?b "fneg kPi"] by (simp add: kPi_val fneg_def)
  then have "wrap_up ?b = Some ?b" by (subst wrap_up.simps) simp
  ultimately show ?thesis using True by (subst wrap_up.simps) auto
qed

lemma wrapPi_range:
  assumes "is_fin a" "\<bar>val a\<bar> \<le> 13176795 / 2097152"
  shows "\<exists>b. wrapPi a = Some b \<and> is_fin b \<and> \<bar>val b\<bar> \<le> 13176795 / 4194304"
proof -
  from wrap_down_range[OF assms] obtain b where b: "wrap_down a = Some b" "is_fin b"
    "val b \<le> 13176795 / 4194304" "- (13176795 / 4194304) \<le> val b \<or> b = a" by blast
  have "- (13176795 / 2097152) \<le> val b" using b(4) assms(2) by auto
  from wrap_up_range[OF b(2) this b(3)] show ?thesis by (simp add: wrapPi_def b(1))
qed

text \<open>
  What \<open>atan2f\<close> documents: NaN for a NaN argument, otherwise an angle in \<open>[-pi, pi]\<close> (as rounded
  to binary32, which is \<open>kPi\<close>).
\<close>

definition atan2_doc :: "libm \<Rightarrow> bool" where
  "atan2_doc m \<longleftrightarrow> (\<forall>y x. (if is_nan y \<or> is_nan x then is_nan (atan2f m y x)
     else is_fin (atan2f m y x) \<and> \<bar>val (atan2f m y x)\<bar> \<le> val kPi))"

lemma atan2_docD:
  "atan2_doc m \<Longrightarrow> is_nan (atan2f m y x) \<or>
     is_fin (atan2f m y x) \<and> \<bar>val (atan2f m y x)\<bar> \<le> 13176795 / 4194304"
  unfolding atan2_doc_def kPi_val by (metis val.simps(1))

lemma wrapPi_nan: "is_nan a \<Longrightarrow> wrapPi a = Some NaN"
  by (cases a) (simp_all add: wrapPi_def wrap_down.simps wrap_up.simps)

lemma sub32_angles:
  assumes "is_nan b \<or> is_fin b \<and> \<bar>val b\<bar> \<le> 13176795 / 4194304"
    and "is_nan w \<or> is_fin w \<and> \<bar>val w\<bar> \<le> 13176795 / 4194304"
  shows "is_nan (sub32 b w) \<or> is_fin (sub32 b w) \<and> \<bar>val (sub32 b w)\<bar> \<le> 13176795 / 2097152"
proof (cases "is_nan b \<or> is_nan w")
  case True
  then show ?thesis by (auto simp: fsub_def fadd_def)
next
  case False
  with assms have f: "is_fin b" "is_fin w" by auto
  have s: "sub32 b w = fin_of f32 (signbit b \<and> signbit (fneg w)) (val b - val w)"
    by (rule op_fin(2)[OF f])
  have le: "- (13176795 / 2097152) \<le> val b - val w" "val b - val w \<le> 13176795 / 2097152"
    using assms False unfolding abs_le_iff by linarith+
  have "is_fin (sub32 b w)" "- (13176795 / 2097152) \<le> val (sub32 b w)"
    "val (sub32 b w) \<le> 13176795 / 2097152"
    unfolding s
    by (rule fin_of_between[OF le]; simp add: representable_pi pow2_128)+
  then show ?thesis by auto
qed

lemma azimuthTo_total:
  assumes "atan2_doc m"
  shows "\<exists>a. azimuthTo m l v t = Some a \<and> (is_nan a \<or> is_fin a \<and> \<bar>val a\<bar> \<le> val kPi)"
proof -
  let ?d = "vsub t l"
  let ?b = "atan2f m (vx ?d) (vy ?d)"
  let ?w = "if \<not> feq (vx v) (Fin 0) \<or> \<not> feq (vy v) (Fin 0) then atan2f m (vx v) (vy v) else Fin 0"
  have "is_nan ?w \<or> is_fin ?w \<and> \<bar>val ?w\<bar> \<le> 13176795 / 4194304"
    using atan2_docD[OF assms, of "vx v" "vy v"] by auto
  from sub32_angles[OF atan2_docD[OF assms] this, of "vx ?d" "vy ?d"]
  have "\<exists>a. wrapPi (sub32 ?b ?w) = Some a \<and> (is_nan a \<or> is_fin a \<and> \<bar>val a\<bar> \<le> val kPi)"
    using wrapPi_nan[of "sub32 ?b ?w"] wrapPi_range[of "sub32 ?b ?w"] by (auto simp: kPi_val)
  then show ?thesis by (auto simp: azimuthTo_def Let_def kPi_val)
qed

end
