(* ===== verification/ExtState.thy ===== *)
theory ExtState
  imports VecMath
begin

text \<open>
  The state of the extension (\<open>src/State.h\<close>, \<open>src/State.cpp\<close>) and the handlers of the legacy SQF
  protocol that feed it. Every handler holds \<open>m_mutex\<close> for its whole body, so each is one atomic
  function from state to state; \<open>Clock::now()\<close> is an argument, in nanoseconds since the clock's
  epoch, the unit of \<open>std::chrono::steady_clock\<close>.
\<close>

section \<open>Data\<close>

type_synonym time = int

abbreviation ms :: "int \<Rightarrow> time" where "ms n \<equiv> n * 1000000"

definition kClientExpiry :: time where "kClientExpiry = ms 6000"
definition kTxExpiry :: time where "kTxExpiry = ms 1500"

record freqSetting =
  fs_volume :: int
  fs_stereoMode :: int
  fs_radioClassname :: string

record vehicleDesc =
  vd_name :: string
  vd_isolation :: fp
  vd_intercomSlot :: int
  vd_velocity :: vec3

definition no_vehicle :: vehicleDesc where
  "no_vehicle = \<lparr>vd_name = ''no'', vd_isolation = Fin 0, vd_intercomSlot = - 1, vd_velocity = vzero\<rparr>"

record remoteClient =
  rc_nickname :: string
  rc_position :: vec3
  rc_viewDirection :: vec3
  rc_canSpeak :: bool
  rc_canUseSW :: bool
  rc_canUseLR :: bool
  rc_canUseDD :: bool
  rc_vehicle :: vehicleDesc
  rc_terrainInterception :: int
  rc_voiceVolumeMultiplier :: fp
  rc_speakRangeMeters :: fp
  rc_objectInterception :: int
  rc_isSpectating :: bool
  rc_isEnemyToPlayer :: bool
  rc_dead :: bool
  rc_lastUpdate :: time

definition new_client :: remoteClient where
  "new_client = \<lparr>rc_nickname = [], rc_position = vzero, rc_viewDirection = vzero, rc_canSpeak = True,
     rc_canUseSW = False, rc_canUseLR = False, rc_canUseDD = False, rc_vehicle = no_vehicle,
     rc_terrainInterception = 0, rc_voiceVolumeMultiplier = Fin 1, rc_speakRangeMeters = Fin 20,
     rc_objectInterception = 0, rc_isSpectating = False, rc_isEnemyToPlayer = False,
     rc_dead = False, rc_lastUpdate = 0\<rparr>"

record speakerData =
  sp_radioId :: string
  sp_frequencies :: "string list"
  sp_ownerNickname :: string
  sp_pos :: vec3
  sp_volume :: int
  sp_vehicle :: vehicleDesc
  sp_waveZ :: fp

record antennaData =
  an_netId :: string
  an_pos :: vec3
  an_range :: fp

record remoteTx =
  tx_nickname :: string
  tx_frequency :: string
  tx_range :: fp
  tx_subtype :: string
  tx_received :: time

record ext_state =
  m_clients :: "(string, remoteClient) umap"
  m_myNickname :: string
  m_swFrequencies :: "string \<Rightarrow> freqSetting option"
  m_lrFrequencies :: "string \<Rightarrow> freqSetting option"
  m_alive :: bool
  m_speakVolumeMeters :: int
  m_wavesLevel :: fp
  m_terrainInterceptionCoefficient :: fp
  m_globalVolume :: fp
  m_receivingDistanceMultiplicator :: fp
  m_speakerDistance :: fp
  m_tangentPressed :: bool
  m_tangentIsLr :: bool
  m_txFrequency :: string
  m_txSubtype :: string
  m_txRadioClassname :: string
  m_txRange :: fp
  m_speakers :: "speakerData list"
  m_antennas :: "antennaData list"
  m_config :: "string \<Rightarrow> string option"
  m_voiceConnected :: bool
  m_statusTransmitting :: bool
  m_nameToUid :: "(string, string) umap"
  m_talkingNames :: "string set"
  m_remoteTx :: "(string, remoteTx) umap"
  m_haveConfig :: bool
  m_configRequestedAt :: time
  m_receivingFrom :: "string set"
  m_receivingAnyRadio :: bool
  m_lrIncoming :: bool
  m_lrIncomingPending :: bool
  m_pendingTransmitOverride :: "bool option option"

definition init_state :: ext_state where
  "init_state = \<lparr>m_clients = [], m_myNickname = [], m_swFrequencies = (\<lambda>_. None),
     m_lrFrequencies = (\<lambda>_. None), m_alive = False, m_speakVolumeMeters = 20, m_wavesLevel = Fin 0,
     m_terrainInterceptionCoefficient = Fin 7, m_globalVolume = Fin 1,
     m_receivingDistanceMultiplicator = Fin 1, m_speakerDistance = Fin 20,
     m_tangentPressed = False, m_tangentIsLr = False, m_txFrequency = [], m_txSubtype = [],
     m_txRadioClassname = [], m_txRange = Fin 0, m_speakers = [], m_antennas = [],
     m_config = (\<lambda>_. None), m_voiceConnected = False, m_statusTransmitting = False,
     m_nameToUid = [], m_talkingNames = {}, m_remoteTx = [], m_haveConfig = False,
     m_configRequestedAt = 0, m_receivingFrom = {}, m_receivingAnyRadio = False,
     m_lrIncoming = False, m_lrIncomingPending = False, m_pendingTransmitOverride = None\<rparr>"

section \<open>Parsing helpers of State.cpp\<close>

definition kValidConfigKeys :: "string list" where
  "kValidConfigKeys =
     [''full_duplex'', ''addon_version'', ''intercomVolume'', ''intercomEnabled'',
      ''pluginTimeout'', ''headsetLowered'', ''spectatorNotHearEnemies'',
      ''spectatorCanHearFriendlies'', ''tangentReleaseDelay'', ''moveWhileTabbedOut'',
      ''intercomDucking'', ''minimumPluginVersion'', ''objectInterceptionStrength'',
      ''voiceCone'', ''allowDebugging'', ''noAutomoveSpectator'',
      ''disableAutomaticMute'', ''muteSpectators'',
      ''voice_serverHost'', ''voice_serverPort'', ''voice_serverPassword'',
      ''voice_micVolume'', ''voice_speakerVolume'', ''voice_vadThreshold'',
      ''voice_transmitMode'', ''voice_noiseSuppression'']"

definition isValidConfigKey :: "string \<Rightarrow> bool" where
  "isValidConfigKey key \<longleftrightarrow> key \<in> set kValidConfigKeys"

definition parseVehicle :: "libm \<Rightarrow> string \<Rightarrow> vehicleDesc" where
  "parseVehicle m vehicleId =
     (if vehicleId = [] \<or> vehicleId = ''no'' then no_vehicle
      else
        let parts = split vehicleId (char_of (16 :: int))
        in if length parts < 3 then no_vehicle
           else \<lparr>vd_name = parts ! 0,
                 vd_isolation = (if parts ! 1 = ''turnout'' then Fin 0 else parseArmaNumber (parts ! 1)),
                 vd_intercomSlot = parseArmaNumberToInt m (parts ! 2),
                 vd_velocity = (if 3 < length parts then parseVec3 (parts ! 3) else vzero)\<rparr>)"

text \<open>\<open>s.substr(1, s.length() - 2)\<close>, for a string of at least two bytes.\<close>

definition unquote :: "string \<Rightarrow> string" where
  "unquote s = take (length s - 2) (drop 1 s)"

text \<open>One entry of a frequency list; an entry of the wrong shape leaves the map as it is.\<close>

definition add_freq_entry ::
    "libm \<Rightarrow> string \<Rightarrow> (string \<Rightarrow> freqSetting option) \<Rightarrow> (string \<Rightarrow> freqSetting option)" where
  "add_freq_entry m entry result =
     (if length entry < 2 then result
      else
        let parts = split (unquote entry) (CHR ''|'')
        in if length parts \<noteq> 3 \<and> length parts \<noteq> 4 then result
           else result(parts ! 0 \<mapsto>
             \<lparr>fs_volume = parseArmaNumberToInt m (parts ! 1),
              fs_stereoMode = parseArmaNumberToInt m (parts ! 2),
              fs_radioClassname = (if length parts = 4 then parts ! 3 else [])\<rparr>))"

definition parseFrequencies :: "libm \<Rightarrow> string \<Rightarrow> (string \<Rightarrow> freqSetting option)" where
  "parseFrequencies m raw =
     (if length raw < 2 then (\<lambda>_. None)
      else
        let inner = unquote raw
        in if inner = [] then (\<lambda>_. None)
           else fold (add_freq_entry m) (split inner (CHR '','')) (\<lambda>_. None))"

definition subtypeToFx :: "string \<Rightarrow> bool \<Rightarrow> string option" where
  "subtypeToFx subtype senderUnderwater =
     (if subtype = ''digital'' then Some (if senderUnderwater then ''dd'' else ''sw'')
      else if subtype = ''digital_lr'' then Some ''lr''
      else if subtype = ''airborne'' then Some ''airborne''
      else if subtype = ''dd'' then Some ''dd''
      else if subtype = ''phone'' then Some ''phone''
      else None)"

text \<open>
  \<open>duration<float>(now - lastUpdate).count()\<close> converts the tick count and the billion to \<open>float\<close>
  and divides.
\<close>

definition seconds_between :: "time \<Rightarrow> time \<Rightarrow> fp" where
  "seconds_between now earlier = div32 (int32_fp (now - earlier)) (int32_fp 1000000000)"

definition extrapolatedPosition :: "remoteClient \<Rightarrow> time \<Rightarrow> vec3" where
  "extrapolatedPosition c now =
     (if isNull (vd_velocity (rc_vehicle c)) then rc_position c
      else
        let seconds = seconds_between now (rc_lastUpdate c)
        in if fle seconds (Fin 0) \<or> flt (Fin 2) seconds then rc_position c
           else vadd (rc_position c) (vscale (vd_velocity (rc_vehicle c)) seconds))"

section \<open>Handlers\<close>

definition queueLocalMessage :: "bool option \<Rightarrow> ext_state \<Rightarrow> ext_state" where
  "queueLocalMessage v s = s\<lparr>m_pendingTransmitOverride := Some v\<rparr>"

definition handlePos :: "libm \<Rightarrow> time \<Rightarrow> string list \<Rightarrow> ext_state \<Rightarrow> ext_state" where
  "handlePos m now tokens s =
     (if length tokens < 14 then s
      else
        let nickname = convertNickname (tokens ! 1)
        in if nickname = [] then s
           else
             let old = (case uget (m_clients s) nickname of None \<Rightarrow> new_client | Some c \<Rightarrow> c);
                 client = old\<lparr>rc_nickname := nickname,
                   rc_position := parseVec3 (tokens ! 2),
                   rc_viewDirection := parseVec3 (tokens ! 3),
                   rc_canSpeak := isTrue (tokens ! 4),
                   rc_canUseSW := isTrue (tokens ! 5),
                   rc_canUseLR := isTrue (tokens ! 6),
                   rc_canUseDD := isTrue (tokens ! 7),
                   rc_vehicle := parseVehicle m (tokens ! 8),
                   rc_terrainInterception := parseArmaNumberToInt m (tokens ! 9),
                   rc_voiceVolumeMultiplier := parseArmaNumber (tokens ! 10),
                   rc_objectInterception := parseArmaNumberToInt m (tokens ! 11),
                   rc_isSpectating := isTrue (tokens ! 12),
                   rc_isEnemyToPlayer := isTrue (tokens ! 13),
                   rc_speakRangeMeters :=
                     (if 15 \<le> length tokens then
                        (let range = parseArmaNumber (tokens ! 14)
                         in if flt (Fin 0) range then range else Fin 20)
                      else rc_speakRangeMeters old),
                   rc_dead := False,
                   rc_lastUpdate := now\<rparr>
             in s\<lparr>m_clients := uput nickname client (m_clients s)\<rparr>)"

definition handleFreq :: "libm \<Rightarrow> string list \<Rightarrow> ext_state \<Rightarrow> ext_state" where
  "handleFreq m tokens s =
     (if length tokens < 11 then s
      else
        let wasAlive = m_alive s;
            alive = (tokens ! 3 = ''true'');
            speakVolume = parseArmaNumberToInt m (tokens ! 4);
            multiplicator = parseArmaNumber (tokens ! 9);
            s' = s\<lparr>m_swFrequencies := parseFrequencies m (tokens ! 1),
              m_lrFrequencies := parseFrequencies m (tokens ! 2),
              m_alive := alive,
              m_speakVolumeMeters := (if speakVolume \<le> 0 then 20 else speakVolume),
              m_myNickname := convertNickname (tokens ! 5),
              m_wavesLevel := parseArmaNumber (tokens ! 6),
              m_terrainInterceptionCoefficient := parseArmaNumber (tokens ! 7),
              m_globalVolume := parseArmaNumber (tokens ! 8),
              m_receivingDistanceMultiplicator :=
                (if fle multiplicator (Fin 0) then Fin 1 else multiplicator),
              m_speakerDistance := parseArmaNumber (tokens ! 10)\<rparr>
        in if \<not> wasAlive \<and> alive then queueLocalMessage None s' else s')"

text \<open>The clamp of the announced range: NaN and negative values to 0, at most 200 km.\<close>

definition clamp_tx_range :: "fp \<Rightarrow> fp" where
  "clamp_tx_range r =
     (let r' = (if \<not> fle (Fin 0) r then Fin 0 else r)
      in if flt (Fin 200000) r' then Fin 200000 else r')"

definition handleTangent :: "string list \<Rightarrow> ext_state \<Rightarrow> ext_state" where
  "handleTangent tokens s =
     (if length tokens < 5 then s
      else
        let pressed = (tokens ! 1 = ''PRESSED'')
        in if pressed = m_tangentPressed s \<and> m_txFrequency s = tokens ! 2 then s
           else
             let s' = s\<lparr>m_tangentPressed := pressed,
                   m_tangentIsLr := (tokens ! 0 = ''TANGENT_LR''),
                   m_txFrequency := tokens ! 2,
                   m_txSubtype := tokens ! 4\<rparr>
             in if pressed then
                  queueLocalMessage (Some True)
                    (s'\<lparr>m_txRange := clamp_tx_range (parseArmaNumber (tokens ! 3)),
                        m_txRadioClassname := (if 5 < length tokens then tokens ! 5 else [])\<rparr>)
                else
                  queueLocalMessage None (s'\<lparr>m_txRange := Fin 0, m_txRadioClassname := []\<rparr>))"

definition parse_speaker :: "libm \<Rightarrow> string \<Rightarrow> speakerData option" where
  "parse_speaker m block =
     (if block = [] then None
      else
        let parts = split block (char_of (10 :: int))
        in if length parts < 6 then None
           else
             let pos = parseVec3 (parts ! 3)
             in Some \<lparr>sp_radioId = parts ! 0,
                  sp_frequencies = split (parts ! 1) (CHR ''|''),
                  sp_ownerNickname = convertNickname (parts ! 2),
                  sp_pos = pos,
                  sp_volume = parseArmaNumberToInt m (parts ! 4),
                  sp_vehicle = parseVehicle m (parts ! 5),
                  sp_waveZ = (if 6 < length parts then parseArmaNumber (parts ! 6)
                              else if isNull pos then Fin 1 else vz pos)\<rparr>)"

definition handleSpeakers :: "libm \<Rightarrow> string list \<Rightarrow> ext_state \<Rightarrow> ext_state" where
  "handleSpeakers m tokens s =
     (if length tokens < 2 \<or> tokens ! 1 = [] then s\<lparr>m_speakers := []\<rparr>
      else s\<lparr>m_speakers :=
        List.map_filter (parse_speaker m) (split (tokens ! 1) (char_of (11 :: int)))\<rparr>)"

definition handleSetCfg :: "string list \<Rightarrow> ext_state \<Rightarrow> ext_state" where
  "handleSetCfg tokens s =
     (if length tokens < 3 then s
      else
        let key = tokens ! 1
        in if \<not> isValidConfigKey key then s
           else
             let value = (if 4 \<le> length tokens \<and> tokens ! 3 = ''BOOL'' then
                            (if tokens ! 2 = ''true'' \<or> tokens ! 2 = ''TRUE'' then ''true'' else ''false'')
                          else tokens ! 2)
             in s\<lparr>m_config := (m_config s)(key \<mapsto> value), m_haveConfig := True\<rparr>)"

definition handleKilled :: "string \<Rightarrow> ext_state \<Rightarrow> ext_state" where
  "handleKilled nickname s =
     (let name = convertNickname nickname;
          s1 = (case uget (m_clients s) name of
                  None \<Rightarrow> s
                | Some c \<Rightarrow> s\<lparr>m_clients := uput name (c\<lparr>rc_dead := True\<rparr>) (m_clients s)\<rparr>)
      in if name \<noteq> [] \<and> name = m_myNickname s1 then
           queueLocalMessage (Some False)
             (s1\<lparr>m_alive := False, m_tangentPressed := False, m_txRange := Fin 0,
                 m_txFrequency := [], m_txRadioClassname := []\<rparr>)
         else s1)"

definition handleUid :: "string \<Rightarrow> string \<Rightarrow> ext_state \<Rightarrow> ext_state" where
  "handleUid nickname uid s =
     (let name = convertNickname nickname
      in if name = [] \<or> uid = [] then s
         else s\<lparr>m_nameToUid := uput name uid (m_nameToUid s)\<rparr>)"

definition handleReleaseAllTangents :: "string \<Rightarrow> ext_state \<Rightarrow> ext_state" where
  "handleReleaseAllTangents nickname s =
     (let name = convertNickname nickname
      in if name \<noteq> [] \<and> m_myNickname s \<noteq> [] \<and> name \<noteq> m_myNickname s then s
         else queueLocalMessage None
           (s\<lparr>m_tangentPressed := False, m_txRange := Fin 0, m_txFrequency := [],
              m_txRadioClassname := []\<rparr>))"

text \<open>The antenna list: the first entry with the same id is overwritten in place, else appended.\<close>

fun put_antenna :: "antennaData \<Rightarrow> antennaData list \<Rightarrow> antennaData list" where
  "put_antenna a [] = [a]"
| "put_antenna a (x # xs) = (if an_netId x = an_netId a then a # xs else x # put_antenna a xs)"

fun del_antenna :: "string \<Rightarrow> antennaData list \<Rightarrow> antennaData list" where
  "del_antenna k [] = []"
| "del_antenna k (x # xs) = (if an_netId x = k then xs else x # del_antenna k xs)"

definition parse_antenna :: "string \<Rightarrow> antennaData option" where
  "parse_antenna entry =
     (if entry = [] then None
      else
        let fields = split entry (CHR '';'')
        in if length fields \<noteq> 3 then None
           else if fields ! 0 = [] then None
           else Some \<lparr>an_netId = fields ! 0, an_pos = parseVec3 (fields ! 2),
                      an_range = parseArmaNumber (fields ! 1)\<rparr>)"

definition handleAddRadioTowers :: "string \<Rightarrow> ext_state \<Rightarrow> ext_state" where
  "handleAddRadioTowers payload s =
     (if payload = [] then s
      else s\<lparr>m_antennas :=
        fold put_antenna (List.map_filter parse_antenna (split payload (char_of (10 :: int)))) (m_antennas s)\<rparr>)"

definition handleDelRadioTowers :: "string \<Rightarrow> ext_state \<Rightarrow> ext_state" where
  "handleDelRadioTowers payload s =
     (if payload = [] then s
      else s\<lparr>m_antennas :=
        fold (\<lambda>e as. if e = [] then as else del_antenna e as)
          (split payload (char_of (10 :: int))) (m_antennas s)\<rparr>)"

definition handleDataFrame :: "ext_state \<Rightarrow> ext_state" where
  "handleDataFrame s = s"

definition handleMissionEnd :: "ext_state \<Rightarrow> ext_state" where
  "handleMissionEnd s = queueLocalMessage None
     (s\<lparr>m_clients := [], m_speakers := [], m_antennas := [],
        m_swFrequencies := (\<lambda>_. None), m_lrFrequencies := (\<lambda>_. None), m_remoteTx := [],
        m_receivingFrom := {}, m_receivingAnyRadio := False, m_tangentPressed := False,
        m_txFrequency := [], m_txRadioClassname := [], m_txRange := Fin 0, m_alive := False,
        m_haveConfig := False, m_configRequestedAt := 0\<rparr>)"

section \<open>Queries and the voice port\<close>

definition speakingPair :: "ext_state \<Rightarrow> string \<Rightarrow> string" where
  "speakingPair s nickname =
     (let name = convertNickname nickname
      in case uget (m_clients s) name of
           None \<Rightarrow> ''00''
         | Some _ \<Rightarrow>
             let isMe = (m_myNickname s \<noteq> [] \<and> name = m_myNickname s);
                 speaking = (name \<in> m_talkingNames s \<or>
                   (isMe \<and> (m_tangentPressed s \<or> m_statusTransmitting s)));
                 receiving = (if isMe then m_receivingAnyRadio s else name \<in> m_receivingFrom s)
             in [if speaking then CHR ''1'' else CHR ''0'', if receiving then CHR ''1'' else CHR ''0''])"

definition kPluginVersion :: string where "kPluginVersion = ''TFRS-1.0.0''"

definition tsInfo :: "string \<Rightarrow> ext_state \<Rightarrow> string \<Rightarrow> string" where
  "tsInfo opusVersion s sub =
     (if sub = ''SERVER'' then ''TFRS Voice Server''
      else if sub = ''SERVERUID'' then ''TFRS''
      else if sub = ''CHANNEL'' then ''TFRS''
      else if sub = ''CHANNELID'' then ''0''
      else if sub = ''VERSION'' then kPluginVersion
      else if sub = ''OPUSVER'' then opusVersion
      else if sub = ''PING'' then (if m_voiceConnected s then ''PONG'' else [])
      else ''FAIL'')"

definition needsConfig :: "time \<Rightarrow> ext_state \<Rightarrow> bool \<times> ext_state" where
  "needsConfig now s =
     (if m_haveConfig s then (False, s)
      else if m_configRequestedAt s \<noteq> 0 \<and> now - m_configRequestedAt s < ms 3000 then (False, s)
      else (True, s\<lparr>m_configRequestedAt := now\<rparr>))"

definition myUid :: "ext_state \<Rightarrow> string" where
  "myUid s =
     (if m_myNickname s = [] then []
      else case uget (m_nameToUid s) (m_myNickname s) of
             Some u \<Rightarrow> if u \<noteq> [] then u else m_myNickname s
           | None \<Rightarrow> m_myNickname s)"

definition setLocalTransmitting :: "bool \<Rightarrow> ext_state \<Rightarrow> ext_state" where
  "setLocalTransmitting b s = s\<lparr>m_statusTransmitting := b\<rparr>"

definition setRemoteTx ::
    "time \<Rightarrow> string \<Rightarrow> bool \<Rightarrow> string \<Rightarrow> fp \<Rightarrow> string \<Rightarrow> ext_state \<Rightarrow> ext_state" where
  "setRemoteTx now uid active freq rng subtype s =
     (if uid = [] then s
      else
        let found = (case ufind_value (\<lambda>u. u = uid) (m_nameToUid s) of None \<Rightarrow> [] | Some n \<Rightarrow> n);
            name = (if found = [] \<and> uget (m_clients s) uid \<noteq> None then uid else found)
        in if name = [] then s
           else if \<not> active \<or> freq = [] then s\<lparr>m_remoteTx := udel name (m_remoteTx s)\<rparr>
           else s\<lparr>m_remoteTx := uput name
             \<lparr>tx_nickname = name, tx_frequency = freq, tx_range = rng, tx_subtype = subtype,
              tx_received = now\<rparr> (m_remoteTx s)\<rparr>)"

definition setVoiceConnected :: "bool \<Rightarrow> ext_state \<Rightarrow> ext_state" where
  "setVoiceConnected b s = s\<lparr>m_voiceConnected := b\<rparr>"

definition takeTransmitOverride :: "ext_state \<Rightarrow> bool option option \<times> ext_state" where
  "takeTransmitOverride s = (m_pendingTransmitOverride s, s\<lparr>m_pendingTransmitOverride := None\<rparr>)"

definition configBool :: "ext_state \<Rightarrow> string \<Rightarrow> bool \<Rightarrow> bool" where
  "configBool s key fallback =
     (case m_config s key of None \<Rightarrow> fallback | Some v \<Rightarrow> v = ''true'' \<or> v = ''1'')"

definition configFloat :: "ext_state \<Rightarrow> string \<Rightarrow> fp \<Rightarrow> fp" where
  "configFloat s key fallback =
     (case m_config s key of None \<Rightarrow> fallback | Some v \<Rightarrow> parseArmaNumber v)"

definition voiceConfigString :: "ext_state \<Rightarrow> string \<Rightarrow> string \<Rightarrow> string" where
  "voiceConfigString s key fallback = (case m_config s key of None \<Rightarrow> fallback | Some v \<Rightarrow> v)"

text \<open>\<open>voiceConfigBool\<close> and \<open>voiceConfigFloat\<close> are the same lookups with the lock taken.\<close>

definition voiceConfigFloat :: "ext_state \<Rightarrow> string \<Rightarrow> fp \<Rightarrow> fp" where
  "voiceConfigFloat s key fallback =
     (case m_config s key of None \<Rightarrow> fallback | Some v \<Rightarrow> parseArmaNumber v)"

definition voiceConfigBool :: "ext_state \<Rightarrow> string \<Rightarrow> bool \<Rightarrow> bool" where
  "voiceConfigBool s key fallback =
     (case m_config s key of None \<Rightarrow> fallback | Some v \<Rightarrow> v = ''true'' \<or> v = ''1'')"

definition uidFor :: "ext_state \<Rightarrow> string \<Rightarrow> string" where
  "uidFor s nickname = (case uget (m_nameToUid s) nickname of Some u \<Rightarrow> u | None \<Rightarrow> nickname)"

record localTxState =
  lt_active :: bool
  lt_freq :: string
  lt_range :: fp
  lt_subtype :: string

definition get_localTxState :: "ext_state \<Rightarrow> localTxState" where
  "get_localTxState s =
     (if m_tangentPressed s then
        \<lparr>lt_active = True, lt_freq = m_txFrequency s, lt_range = m_txRange s, lt_subtype = m_txSubtype s\<rparr>
      else \<lparr>lt_active = False, lt_freq = [], lt_range = Fin 0, lt_subtype = []\<rparr>)"

end
