(* ===== verification/Solver.thy ===== *)
theory Solver
  imports ExtState "HOL-Library.Monad_Syntax"
begin

text \<open>
  The audibility solver of \<open>src/State.cpp\<close>: effective distance, antenna loss, the four ways of
  hearing somebody (radio, an external speaker, vehicle intercom, direct speech) and the per-tick
  snapshot \<open>computeAudibleUnits\<close>. What reaches \<open>azimuthTo\<close> is partial, because its angle-wrapping
  loops are: \<open>None\<close> is a call that does not return.
\<close>

record audibleUnit =
  au_uid :: string
  au_nickname :: string
  au_gain :: fp
  au_az :: fp
  au_muted :: bool
  au_fx :: string
  au_err :: fp
  au_stereoMode :: int

definition new_unit :: audibleUnit where
  "new_unit = \<lparr>au_uid = [], au_nickname = [], au_gain = Fin 0, au_az = Fin 0, au_muted = False,
     au_fx = ''direct'', au_err = Fin 0, au_stereoMode = 0\<rparr>"

definition effectiveDistance :: "ext_state \<Rightarrow> vec3 \<Rightarrow> remoteClient \<Rightarrow> time \<Rightarrow> fp" where
  "effectiveDistance s myPos other now =
     (let raw = distanceTo myPos (extrapolatedPosition other now);
          terrain = mul32 (int32_fp (rc_terrainInterception other)) (m_terrainInterceptionCoefficient s);
          result = add32 (add32 raw terrain) (mul32 terrain (div32 raw (Fin 2000)))
      in mul32 result (m_receivingDistanceMultiplicator s))"

text \<open>One round of the antenna loop; the accumulator is the loss so far and whether one was found.\<close>

definition antenna_step :: "vec3 \<Rightarrow> fp \<Rightarrow> vec3 \<Rightarrow> antennaData \<Rightarrow> fp \<times> bool \<Rightarrow> fp \<times> bool" where
  "antenna_step sender maxDistanceToAnt to antenna acc =
     (if fle (an_range antenna) (Fin 0) then acc
      else
        let distToSender = distanceTo (an_pos antenna) sender;
            distToReceiver = distanceTo (an_pos antenna) to
        in if \<not> flt distToSender maxDistanceToAnt then acc
           else if \<not> flt distToReceiver (an_range antenna) then acc
           else
             let loss = add32 (div32 distToReceiver (an_range antenna)) (div32 distToSender maxDistanceToAnt)
             in if flt loss (fst acc) then (loss, True) else acc)"

definition antennaLoss :: "ext_state \<Rightarrow> vec3 \<Rightarrow> fp \<Rightarrow> vec3 \<Rightarrow> fp" where
  "antennaLoss s sender maxDistanceToAnt to =
     (if m_antennas s = [] \<or> fle maxDistanceToAnt (Fin 0) then kNoAntennaLoss
      else case fold (antenna_step sender maxDistanceToAnt to) (m_antennas s) (Fin 1, False) of
             (lowest, found) \<Rightarrow> if found then lowest else kNoAntennaLoss)"

definition fresh_tx :: "ext_state \<Rightarrow> time \<Rightarrow> string \<Rightarrow> remoteTx option" where
  "fresh_tx s now nickname =
     (case uget (m_remoteTx s) nickname of
        None \<Rightarrow> None
      | Some tx \<Rightarrow> if now - tx_received tx < kTxExpiry then Some tx else None)"

text \<open>\<open>(tx->range > 1.0f) ? tx->range : 1.0f\<close> and \<open>a < b ? a : b\<close>, written three times in the code.\<close>

definition range_or_1 :: "remoteTx \<Rightarrow> fp" where
  "range_or_1 tx = (if flt (Fin 1) (tx_range tx) then tx_range tx else Fin 1)"

definition fmin :: "fp \<Rightarrow> fp \<Rightarrow> fp" where
  "fmin a b = (if flt a b then a else b)"

definition in_range :: "remoteTx \<Rightarrow> fp \<Rightarrow> fp \<Rightarrow> bool" where
  "in_range tx effDist loss \<longleftrightarrow>
     (flt (Fin 0) (tx_range tx) \<and> fle effDist (tx_range tx)) \<or> flt loss kNoAntennaLoss"

text \<open>The radio this player receives a transmission with, if any: setting and whether it is the LR set.\<close>

definition receiving_setting ::
    "ext_state \<Rightarrow> remoteClient \<Rightarrow> remoteTx \<Rightarrow> (freqSetting \<times> bool) option" where
  "receiving_setting s me tx =
     (let viaLr = (if rc_canUseLR me then m_lrFrequencies s (tx_frequency tx) else None);
          viaSw = (if rc_canUseSW me then m_swFrequencies s (tx_frequency tx) else None);
          chosen = (case viaLr of Some l \<Rightarrow> Some (l, True)
                    | None \<Rightarrow> map_option (\<lambda>w. (w, False)) viaSw)
      in case chosen of
           None \<Rightarrow> None
         | Some (setting, viaLr) \<Rightarrow>
             if \<not> configBool s ''full_duplex'' True \<and> m_tangentPressed s \<and>
                m_txRadioClassname s \<noteq> [] \<and> fs_radioClassname setting = m_txRadioClassname s
             then None else Some (setting, viaLr))"

definition dd_error :: "ext_state \<Rightarrow> vec3 \<Rightarrow> vec3 \<Rightarrow> remoteTx \<Rightarrow> fp" where
  "dd_error s myPos hisPos tx =
     (let underwaterRange = add32 kDdMinDistance
            (mul32 (sub32 kDdMaxDistance kDdMinDistance) (sub32 (Fin 1) (m_wavesLevel s)));
          uwDist = distanceUnderwater myPos hisPos;
          normalDist = distanceTo myPos hisPos;
          range = range_or_1 tx
      in div32
           (add32
             (mul32 uwDist (div32 range (if flt (Fin 0) underwaterRange then underwaterRange else Fin 1)))
             (sub32 normalDist uwDist))
           range)"

text \<open>
  Part 1, radio: the unit, if the transmission reaches one of our radios, and whether it counts as
  an incoming LR transmission for the intercom ducking of the next snapshot.
\<close>

definition radio_path ::
    "libm \<Rightarrow> ext_state \<Rightarrow> remoteClient \<Rightarrow> remoteClient \<Rightarrow> vec3 \<Rightarrow> vec3 \<Rightarrow> remoteTx \<Rightarrow> fp \<Rightarrow> fp \<Rightarrow>
      audibleUnit list \<times> bool" where
  "radio_path m s me other myPos hisPos tx effDist loss =
     (let senderUnderwater = (flt (vz hisPos) (Fin 0) \<and> \<not> rc_canUseSW other)
      in if \<not> in_range tx effDist loss then ([], False)
         else case receiving_setting s me tx of
           None \<Rightarrow> ([], False)
         | Some (setting, viaLr) \<Rightarrow>
             (case subtypeToFx (tx_subtype tx) senderUnderwater of
                None \<Rightarrow> ([], False)
              | Some fx \<Rightarrow>
                  let v = volumeMultiplier m (int32_fp (fs_volume setting));
                      volumeLevel = (if configBool s ''headsetLowered'' False then mul32 v (lit32 (1 / 10)) else v);
                      unit = new_unit\<lparr>au_nickname := rc_nickname other,
                        au_fx := fx,
                        au_az := Fin 0,
                        au_stereoMode := fs_stereoMode setting,
                        au_gain := (if fx = ''phone'' then mul32 volumeLevel (Fin 10)
                                    else mul32 volumeLevel (lit32 (35 / 100))),
                        au_err := clampf
                          (fmin (if fx = ''dd'' then dd_error s myPos hisPos tx
                                 else div32 effDist (range_or_1 tx)) loss) (Fin 0) (Fin 1)\<rparr>
                  in (if flt (Fin 0) (au_gain unit) then [unit] else [],
                      viaLr \<and> 2 < fs_volume setting)))"

definition vehicle_loss :: "fp \<Rightarrow> fp \<Rightarrow> fp" where
  "vehicle_loss a b = clampf (add32 a b) (Fin 0) (lit32 (99 / 100))"

text \<open>
  The muffling shared by speakers and direct speech: the range shrinks with the isolation, and the
  level by its power.
\<close>

definition muffled :: "libm \<Rightarrow> fp \<Rightarrow> bool \<Rightarrow> fp \<Rightarrow> fp \<Rightarrow> fp" where
  "muffled m distance hear maxAudible loss =
     mul32 (volumeAttenuation m distance hear maxAudible (sub32 (Fin 1) loss))
           (powf m (sub32 (Fin 1) loss) (lit32 (12 / 10)))"

text \<open>Part 2, one external speaker: no unit where the loop says \<open>continue\<close>.\<close>

definition speaker_path ::
    "libm \<Rightarrow> ext_state \<Rightarrow> remoteClient \<Rightarrow> remoteClient \<Rightarrow> vec3 \<Rightarrow> time \<Rightarrow> remoteTx \<Rightarrow> fp \<Rightarrow> fp \<Rightarrow>
      speakerData \<Rightarrow> audibleUnit list option" where
  "speaker_path m s me other myPos now tx effDist loss speaker =
     (if sp_ownerNickname speaker = rc_nickname other then Some []
      else if tx_frequency tx \<notin> set (sp_frequencies speaker) then Some []
      else
        let located =
          (if isNull (sp_pos speaker) then
             (case uget (m_clients s) (sp_ownerNickname speaker) of
                None \<Rightarrow> None
              | Some owner \<Rightarrow> Some (extrapolatedPosition owner now))
           else Some (sp_pos speaker))
        in case located of
             None \<Rightarrow> Some []
           | Some speakerPos \<Rightarrow>
               if isNull speakerPos then Some []
               else if flt (vz speakerPos) (Fin 0) then Some []
               else
                 let sameVehicleAsMe = (vd_name (rc_vehicle me) = vd_name (sp_vehicle speaker));
                     radioVehicleLoss = (if sameVehicleAsMe then Fin 0
                       else vehicle_loss (vd_isolation (rc_vehicle me)) (vd_isolation (sp_vehicle speaker)));
                     speakerRange = (if sp_volume speaker < 20
                       then mul32 (div32 (int32_fp (sp_volume speaker)) (Fin 10)) (m_speakerDistance s)
                       else mul32 (int32_fp (sp_volume speaker)) (lit32 (19 / 10)));
                     distFromRadio = distanceTo myPos speakerPos;
                     shouldHear = (rc_canSpeak other \<and> rc_canSpeak me);
                     attenuation = (if flt radioVehicleLoss (lit32 (1 / 100))
                       then volumeAttenuation m distFromRadio shouldHear speakerRange (Fin 1)
                       else muffled m distFromRadio shouldHear speakerRange radioVehicleLoss)
                 in do {
                   az \<leftarrow> azimuthTo m myPos (rc_viewDirection me) speakerPos;
                   let unit = new_unit\<lparr>au_nickname := rc_nickname other,
                     au_fx := ''speaker'',
                     au_gain := mul32 attenuation kSpeakerGain,
                     au_az := az,
                     au_err := clampf (fmin (div32 effDist (range_or_1 tx)) loss) (Fin 0) (Fin 1)\<rparr>;
                   Some (if flt (Fin 0) (au_gain unit) then [unit] else [])
                 })"

definition speaker_paths ::
    "libm \<Rightarrow> ext_state \<Rightarrow> remoteClient \<Rightarrow> remoteClient \<Rightarrow> vec3 \<Rightarrow> time \<Rightarrow> remoteTx \<Rightarrow> fp \<Rightarrow> fp \<Rightarrow>
      audibleUnit list option" where
  "speaker_paths m s me other myPos now tx effDist loss =
     (if \<not> in_range tx effDist loss then Some []
      else map_option concat
        (those (map (speaker_path m s me other myPos now tx effDist loss) (m_speakers s))))"

text \<open>Part 3, vehicle intercom.\<close>

definition intercom_path ::
    "ext_state \<Rightarrow> remoteClient \<Rightarrow> remoteClient \<Rightarrow> remoteTx option \<Rightarrow> audibleUnit list" where
  "intercom_path s me other tx =
     (if configBool s ''intercomEnabled'' True \<and> tx = None \<and>
         vd_name (rc_vehicle other) \<noteq> ''no'' \<and>
         vd_name (rc_vehicle other) = vd_name (rc_vehicle me) \<and>
         vd_intercomSlot (rc_vehicle other) \<noteq> - 1 \<and>
         vd_intercomSlot (rc_vehicle other) = vd_intercomSlot (rc_vehicle me)
      then
        let v0 = configFloat s ''intercomVolume'' (lit32 (3 / 10));
            v1 = (if configBool s ''headsetLowered'' False then mul32 v0 (lit32 (1 / 10)) else v0);
            v2 = (if m_lrIncoming s
                  then mul32 v1 (sub32 (Fin 1) (configFloat s ''intercomDucking'' (lit32 (2 / 10)))) else v1);
            unit = new_unit\<lparr>au_nickname := rc_nickname other, au_fx := ''intercom'', au_gain := v2\<rparr>
        in if flt (Fin 0) (au_gain unit) then [unit] else []
      else [])"

text \<open>Part 4, direct speech.\<close>

definition notHearableInSpectator :: "ext_state \<Rightarrow> remoteClient \<Rightarrow> remoteClient \<Rightarrow> bool" where
  "notHearableInSpectator s me other \<longleftrightarrow>
     rc_isSpectating me \<and>
     ((rc_isEnemyToPlayer other \<and> configBool s ''spectatorNotHearEnemies'' True) \<or>
      (\<not> rc_isEnemyToPlayer other \<and> \<not> configBool s ''spectatorCanHearFriendlies'' True))"

definition direct_path ::
    "libm \<Rightarrow> ext_state \<Rightarrow> remoteClient \<Rightarrow> remoteClient \<Rightarrow> vec3 \<Rightarrow> vec3 \<Rightarrow> audibleUnit list option" where
  "direct_path m s me other myPos hisPos =
     (let directDistance = add32 (distanceTo myPos hisPos)
            (mul32 (Fin 2) (int32_fp (rc_objectInterception other)))
      in if \<not> rc_isSpectating other \<and> \<not> notHearableInSpectator s me other \<and>
            fle directDistance (add32 (rc_speakRangeMeters other) (Fin 15))
         then
           let shouldPlayerHear = (rc_canSpeak other \<and> rc_canSpeak me);
               vehicleLoss = vehicle_loss (vd_isolation (rc_vehicle me)) (vd_isolation (rc_vehicle other));
               isInSameVehicle = (vd_name (rc_vehicle me) = vd_name (rc_vehicle other) \<and>
                                  vd_name (rc_vehicle me) \<noteq> ''no'');
               gain = (if shouldPlayerHear then
                   (if flt vehicleLoss (lit32 (1 / 100)) \<or> isInSameVehicle
                    then volumeAttenuation m directDistance True (rc_speakRangeMeters other) (Fin 1)
                    else muffled m directDistance True (rc_speakRangeMeters other) vehicleLoss)
                 else mul32 (volumeAttenuation m directDistance False (rc_speakRangeMeters other) (Fin 1))
                        kCantSpeakGain)
           in do {
             az \<leftarrow> azimuthTo m myPos (rc_viewDirection me) hisPos;
             let unit = new_unit\<lparr>au_nickname := rc_nickname other, au_fx := ''direct'',
               au_gain := mul32 gain (rc_voiceVolumeMultiplier other), au_az := az\<rparr>;
             Some (if flt (Fin 0) (au_gain unit) then [unit] else [])
           }
         else Some [])"

definition spectator_unit :: "remoteClient \<Rightarrow> audibleUnit" where
  "spectator_unit other = new_unit\<lparr>au_nickname := rc_nickname other, au_gain := Fin 1,
     au_az := Fin 0, au_fx := ''direct'', au_err := Fin 0\<rparr>"

text \<open>
  Everything one other player is heard through, in the order the code appends it, and whether
  \<open>m_lrIncomingPending\<close> is set.
\<close>

definition addAudibleForClient ::
    "libm \<Rightarrow> ext_state \<Rightarrow> time \<Rightarrow> remoteClient \<Rightarrow> remoteClient \<Rightarrow> (audibleUnit list \<times> bool) option" where
  "addAudibleForClient m s now me other =
     (let myPos = extrapolatedPosition me now;
          hisPos = extrapolatedPosition other now
      in if rc_isSpectating me \<and> rc_isSpectating other then
           Some (if configBool s ''muteSpectators'' False then [] else [spectator_unit other], False)
         else
           let tx = fresh_tx s now (rc_nickname other)
           in do {
             (radio, lr, speakers) \<leftarrow>
               (case tx of
                  Some t \<Rightarrow>
                    if rc_isSpectating other then Some ([], False, [])
                    else
                      let effDist = effectiveDistance s myPos other now;
                          loss = antennaLoss s hisPos (tx_range t) myPos
                      in (case radio_path m s me other myPos hisPos t effDist loss of
                            (radio, lr) \<Rightarrow>
                              map_option (\<lambda>sp. (radio, lr, sp))
                                (speaker_paths m s me other myPos now t effDist loss))
                | None \<Rightarrow> Some ([], False, []));
             direct \<leftarrow> direct_path m s me other myPos hisPos;
             Some (radio @ speakers @ intercom_path s me other tx @ direct, lr)
           })"

text \<open>The final pass over the units: master volume, floor at 0, resolved identity.\<close>

definition finish_unit :: "ext_state \<Rightarrow> audibleUnit \<Rightarrow> audibleUnit" where
  "finish_unit s u =
     (let g = mul32 (au_gain u) (m_globalVolume s)
      in u\<lparr>au_gain := (if flt g (Fin 0) then Fin 0 else g), au_uid := uidFor s (au_nickname u)\<rparr>)"

definition talking_names :: "ext_state \<Rightarrow> time \<Rightarrow> string set" where
  "talking_names s now = fst ` set (filter (\<lambda>(n, tx). now - tx_received tx < kTxExpiry) (m_remoteTx s))"

definition considered :: "ext_state \<Rightarrow> time \<Rightarrow> remoteClient list" where
  "considered s now =
     filter (\<lambda>other. rc_nickname other \<noteq> m_myNickname s \<and> now - rc_lastUpdate other < kClientExpiry)
       (map snd (m_clients s))"

definition local_client :: "ext_state \<Rightarrow> time \<Rightarrow> remoteClient option" where
  "local_client s now =
     (if m_myNickname s = [] then None
      else case uget (m_clients s) (m_myNickname s) of
             None \<Rightarrow> None
           | Some me \<Rightarrow> if now - rc_lastUpdate me < kClientExpiry then Some me else None)"

definition computeAudibleUnits ::
    "libm \<Rightarrow> time \<Rightarrow> ext_state \<Rightarrow> (audibleUnit list \<times> ext_state) option" where
  "computeAudibleUnits m now s =
     do {
       results \<leftarrow>
         (case local_client s now of
            None \<Rightarrow> Some []
          | Some me \<Rightarrow> those (map (addAudibleForClient m s now me) (considered s now)));
       let pending = (\<exists>r \<in> set results. snd r);
       let units = map (finish_unit s) (concat (map fst results));
       let radioUnits = filter (\<lambda>u. au_fx u \<noteq> ''direct'') units;
       Some (units, s\<lparr>m_talkingNames := talking_names s now,
         m_lrIncomingPending := pending,
         m_lrIncoming := pending,
         m_receivingFrom := au_nickname ` set radioUnits,
         m_receivingAnyRadio := (radioUnits \<noteq> [])\<rparr>)
     }"

text \<open>The snapshot, taken apart: per-player results, the units made of them, and the fields written.\<close>

definition client_results ::
    "libm \<Rightarrow> time \<Rightarrow> ext_state \<Rightarrow> (audibleUnit list \<times> bool) list option" where
  "client_results m now s =
     (case local_client s now of
        None \<Rightarrow> Some []
      | Some me \<Rightarrow> those (map (addAudibleForClient m s now me) (considered s now)))"

definition units_of :: "ext_state \<Rightarrow> (audibleUnit list \<times> bool) list \<Rightarrow> audibleUnit list" where
  "units_of s results = map (finish_unit s) (concat (map fst results))"

definition snapshot_state :: "ext_state \<Rightarrow> time \<Rightarrow> (audibleUnit list \<times> bool) list \<Rightarrow> ext_state" where
  "snapshot_state s now results =
     s\<lparr>m_talkingNames := talking_names s now,
       m_lrIncomingPending := (\<exists>r \<in> set results. snd r),
       m_lrIncoming := (\<exists>r \<in> set results. snd r),
       m_receivingFrom := au_nickname ` set (filter (\<lambda>u. au_fx u \<noteq> ''direct'') (units_of s results)),
       m_receivingAnyRadio := (filter (\<lambda>u. au_fx u \<noteq> ''direct'') (units_of s results) \<noteq> [])\<rparr>"

lemma computeAudibleUnits_eq:
  "computeAudibleUnits m now s =
     map_option (\<lambda>rs. (units_of s rs, snapshot_state s now rs)) (client_results m now s)"
  unfolding computeAudibleUnits_def client_results_def[symmetric]
  by (cases "client_results m now s") (simp_all add: units_of_def snapshot_state_def Let_def)

end
