(* ===== verification/Commands.thy ===== *)
theory Commands
  imports Solver
begin

text \<open>
  The \<open>callExtension\<close> parser and dispatcher of \<open>src/CommandProcessor.cpp\<close>. Of the voice session it
  sees the flags below, which other components extend; \<open>now\<close> is the one clock value of the call
  (the few readings of the clock inside one call follow each other immediately).
\<close>

record voice_flags =
  v_connected :: bool
  v_pttHeld :: bool
  v_micMuted :: bool
  v_transmitting :: bool
  v_speakerMuted :: bool

definition setPttHeld :: "bool \<Rightarrow> 'a voice_flags_scheme \<Rightarrow> 'a voice_flags_scheme" where
  "setPttHeld held v = v\<lparr>v_pttHeld := held\<rparr>"

definition toggleMicMute :: "'a voice_flags_scheme \<Rightarrow> 'a voice_flags_scheme" where
  "toggleMicMute v = v\<lparr>v_micMuted := \<not> v_micMuted v\<rparr>"

definition toggleSpeakerMute :: "'a voice_flags_scheme \<Rightarrow> 'a voice_flags_scheme" where
  "toggleSpeakerMute v = v\<lparr>v_speakerMuted := \<not> v_speakerMuted v\<rparr>"

record processor =
  p_state :: ext_state
  p_voice :: voice_flags
  p_disconnectedSince :: time

definition kNotConnected :: string where "kNotConnected = ''Not connected to TeamSpeak''"
definition kNotConnectedGrace :: time where "kNotConnectedGrace = ms 10000"

definition tab :: char where "tab = char_of (9 :: int)"

definition firstToken :: "string \<Rightarrow> string" where
  "firstToken payload = takeWhile (\<lambda>c. c \<noteq> tab) payload"

definition bool_char :: "bool \<Rightarrow> char" where
  "bool_char b = (if b then CHR ''1'' else CHR ''0'')"

definition processSync :: "string \<Rightarrow> processor \<Rightarrow> string \<Rightarrow> string \<Rightarrow> string" where
  "processSync opusVersion p command payload =
     (if command = ''TS_INFO'' then
        (let tokens = splitLimit payload tab 2
         in if length tokens < 2 then ''FAIL'' else tsInfo opusVersion (p_state p) (tokens ! 1))
      else if command = ''IS_SPEAKING'' then
        (let tokens = splitLimit payload tab 2
         in if length tokens < 2 then ''00'' else speakingPair (p_state p) (tokens ! 1))
      else if command = ''MUTE_STATE'' then
        [bool_char (v_micMuted (p_voice p)), bool_char (v_speakerMuted (p_voice p)),
         bool_char (v_transmitting (p_voice p))]
      else if command = ''IS_SPEAKING_BULK'' then
        concat (map (\<lambda>n. speakingPair (p_state p) n @ [tab]) (drop 1 (split payload tab)))
      else ''UNKNOWN COMMAND'')"

abbreviation on_state :: "(ext_state \<Rightarrow> ext_state) \<Rightarrow> processor \<Rightarrow> processor" where
  "on_state f p \<equiv> p\<lparr>p_state := f (p_state p)\<rparr>"

abbreviation on_voice :: "(voice_flags \<Rightarrow> voice_flags) \<Rightarrow> processor \<Rightarrow> processor" where
  "on_voice f p \<equiv> p\<lparr>p_voice := f (p_voice p)\<rparr>"

definition processAsync :: "libm \<Rightarrow> time \<Rightarrow> string \<Rightarrow> string \<Rightarrow> processor \<Rightarrow> processor" where
  "processAsync m now command payload p =
     (if command = ''POS'' then on_state (handlePos m now (split payload tab)) p
      else if command = ''FREQ'' then on_state (handleFreq m (split payload tab)) p
      else if command = ''TANGENT'' \<or> command = ''TANGENT_LR'' \<or> command = ''TANGENT_DD'' then
        on_state (handleTangent (split payload tab)) p
      else if command = ''SPEAKERS'' then on_state (handleSpeakers m (splitLimit payload tab 2)) p
      else if command = ''SETCFG'' then on_state (handleSetCfg (splitLimit payload tab 4)) p
      else if command = ''KILLED'' then
        (let tokens = splitLimit payload tab 2
         in if 2 \<le> length tokens then on_state (handleKilled (tokens ! 1)) p else p)
      else if command = ''UID'' then
        (let tokens = splitLimit payload tab 3
         in if 3 \<le> length tokens then on_state (handleUid (tokens ! 1) (tokens ! 2)) p else p)
      else if command = ''RELEASE_ALL_TANGENTS'' then
        (let tokens = splitLimit payload tab 2
         in on_state (handleReleaseAllTangents (if 2 \<le> length tokens then tokens ! 1 else [])) p)
      else if command = ''RadioTwrAdd'' then
        (let tokens = splitLimit payload tab 2
         in if 2 \<le> length tokens then on_state (handleAddRadioTowers (tokens ! 1)) p else p)
      else if command = ''RadioTwrDel'' then
        (let tokens = splitLimit payload tab 2
         in if 2 \<le> length tokens then on_state (handleDelRadioTowers (tokens ! 1)) p else p)
      else if command = ''DFRAME'' then on_state handleDataFrame p
      else if command = ''MISSIONEND'' then on_state handleMissionEnd p
      else if command = ''MICPTT'' then
        (let tokens = splitLimit payload tab 2
         in if 2 \<le> length tokens then on_voice (setPttHeld (tokens ! 1 = ''PRESSED'')) p else p)
      else if command = ''MICMUTE'' then on_voice toggleMicMute p
      else if command = ''SPEAKERMUTE'' then on_voice toggleSpeakerMute p
      else p)"

text \<open>The grace period of the "not connected" reply to POS.\<close>

definition pos_reply :: "time \<Rightarrow> processor \<Rightarrow> string \<times> processor" where
  "pos_reply now p =
     (if v_connected (p_voice p) then (''OK'', p\<lparr>p_disconnectedSince := 0\<rparr>)
      else if p_disconnectedSince p = 0 then (''OK'', p\<lparr>p_disconnectedSince := now\<rparr>)
      else if kNotConnectedGrace \<le> now - p_disconnectedSince p then (kNotConnected, p)
      else (''OK'', p))"

definition process :: "libm \<Rightarrow> string \<Rightarrow> time \<Rightarrow> string \<Rightarrow> processor \<Rightarrow> string \<times> processor" where
  "process m opusVersion now input p =
     (if input = [] then ([], p)
      else
        let async = (last input = CHR ''~'');
            payload = (if async then butlast input else input);
            command = firstToken payload
        in if \<not> async then (processSync opusVersion p command payload, p)
           else
             let p' = processAsync m now command payload p
             in if command = ''DFRAME'' then
                  (case needsConfig now (p_state p') of (ask, s) \<Rightarrow>
                     (if ask then ''NEEDCFG'' else ''OK'', p'\<lparr>p_state := s\<rparr>))
                else if command = ''MISSIONEND'' then ([], p')
                else if command = ''POS'' then pos_reply now p'
                else (''OK'', p'))"

end
