(* ===== verification/StateInv.thy ===== *)
theory StateInv
  imports Commands
begin

text \<open>
  The invariant of the extension's state, kept by every handler of the SQF protocol, by the voice
  tick's operations and by the snapshot, and the antenna registry as a keyed store.
\<close>

section \<open>The antenna list is a keyed store\<close>

definition antenna_get :: "antennaData list \<Rightarrow> string \<Rightarrow> (vec3 \<times> fp) option" where
  "antenna_get as k = map_option (\<lambda>a. (an_pos a, an_range a)) (List.find (\<lambda>a. an_netId a = k) as)"

definition antenna_put :: "string \<Rightarrow> vec3 \<times> fp \<Rightarrow> antennaData list \<Rightarrow> antennaData list" where
  "antenna_put k v = put_antenna \<lparr>an_netId = k, an_pos = fst v, an_range = snd v\<rparr>"

definition antenna_wf :: "antennaData list \<Rightarrow> bool" where
  "antenna_wf as \<longleftrightarrow> distinct (map an_netId as)"

lemma ids_put_antenna: "an_netId ` set (put_antenna a as) = insert (an_netId a) (an_netId ` set as)"
  by (induction a as rule: put_antenna.induct) auto

lemma put_antenna_wf: "antenna_wf as \<Longrightarrow> antenna_wf (put_antenna a as)"
  unfolding antenna_wf_def by (induction a as rule: put_antenna.induct) (auto simp: ids_put_antenna)

lemma in_del_antennaD: "x \<in> set (del_antenna k as) \<Longrightarrow> x \<in> set as"
  by (induction k as rule: del_antenna.induct) (auto split: if_splits)

lemma del_antenna_wf: "antenna_wf as \<Longrightarrow> antenna_wf (del_antenna k as)"
  unfolding antenna_wf_def
  by (induction k as rule: del_antenna.induct) (auto, metis image_eqI in_del_antennaD)

lemma antenna_get_put: "antenna_get (put_antenna a as) k =
    (if k = an_netId a then Some (an_pos a, an_range a) else antenna_get as k)"
  by (induction a as rule: put_antenna.induct) (auto simp: antenna_get_def)

lemma antenna_get_None: "k \<notin> an_netId ` set as \<Longrightarrow> antenna_get as k = None"
  by (induction as) (auto simp: antenna_get_def)

lemma antenna_get_del: "antenna_wf as \<Longrightarrow> antenna_get (del_antenna k as) k' =
    (if k' = k then None else antenna_get as k')"
proof (induction k as rule: del_antenna.induct)
  case (2 k x xs)
  have "an_netId x \<notin> an_netId ` set xs" using 2(2) by (auto simp: antenna_wf_def)
  with antenna_get_None[of k' xs] 2 show ?case
    by (cases "an_netId x = k") (auto simp: antenna_get_def antenna_wf_def)
qed (simp add: antenna_get_def)

interpretation antennas: keyed_store antenna_get antenna_put del_antenna antenna_wf
  by unfold_locales
    (auto simp: antenna_put_def antenna_get_put antenna_get_del put_antenna_wf del_antenna_wf)

section \<open>The invariant\<close>

definition client_ok :: "string \<times> remoteClient \<Rightarrow> bool" where
  "client_ok nc \<longleftrightarrow> fst nc \<noteq> [] \<and> rc_nickname (snd nc) = fst nc \<and>
     flt (Fin 0) (rc_speakRangeMeters (snd nc))"

definition remote_tx_ok :: "string \<times> remoteTx \<Rightarrow> bool" where
  "remote_tx_ok nt \<longleftrightarrow> fst nt \<noteq> [] \<and> tx_nickname (snd nt) = fst nt \<and> tx_frequency (snd nt) \<noteq> []"

definition uid_ok :: "string \<times> string \<Rightarrow> bool" where
  "uid_ok nu \<longleftrightarrow> fst nu \<noteq> [] \<and> snd nu \<noteq> []"

definition tx_range_ok :: "fp \<Rightarrow> bool" where
  "tx_range_ok r \<longleftrightarrow> fle (Fin 0) r \<and> fle r (Fin 200000)"

definition maps_ok :: "ext_state \<Rightarrow> bool" where
  "maps_ok s \<longleftrightarrow> uwf (m_clients s) \<and> uwf (m_remoteTx s) \<and> uwf (m_nameToUid s) \<and>
     antenna_wf (m_antennas s) \<and>
     list_all client_ok (m_clients s) \<and> list_all remote_tx_ok (m_remoteTx s) \<and>
     list_all uid_ok (m_nameToUid s) \<and> list_all (\<lambda>a. an_netId a \<noteq> []) (m_antennas s) \<and>
     list_all (\<lambda>sp. sp_frequencies sp \<noteq> []) (m_speakers s)"

definition local_ok :: "ext_state \<Rightarrow> bool" where
  "local_ok s \<longleftrightarrow> tx_range_ok (m_txRange s) \<and>
     (m_tangentPressed s \<or> m_txRange s = Fin 0 \<and> m_txRadioClassname s = []) \<and>
     0 < m_speakVolumeMeters s \<and> m_speakVolumeMeters s < 2 ^ 31 \<and>
     \<not> fle (m_receivingDistanceMultiplicator s) (Fin 0) \<and>
     (\<forall>k. m_config s k \<noteq> None \<longrightarrow> isValidConfigKey k)"

definition ext_inv :: "ext_state \<Rightarrow> bool" where
  "ext_inv s \<longleftrightarrow> maps_ok s \<and> local_ok s"

lemma clamp_tx_range_ok: "tx_range_ok (clamp_tx_range r)"
  by (cases r) (auto simp: tx_range_ok_def clamp_tx_range_def Let_def cmp_fin fle_def)

lemma ext_inv_init: "ext_inv init_state"
  by (simp add: ext_inv_def maps_ok_def local_ok_def init_state_def tx_range_ok_def antenna_wf_def cmp_fin)

lemma list_all_uput: "list_all P m \<Longrightarrow> P (k, v) \<Longrightarrow> list_all P (uput k v m)"
  by (induction k v m rule: uput.induct) auto

lemma list_all_udel: "list_all P m \<Longrightarrow> list_all P (udel k m)"
  by (induction k m rule: udel.induct) auto

lemma list_all_uget: "list_all P m \<Longrightarrow> uget m k = Some v \<Longrightarrow> P (k, v)"
  using uget_Some_in by (fastforce simp: list_all_iff)

lemma fold_antennas_ok:
  "antenna_wf as \<Longrightarrow> antenna_wf (fold put_antenna es as)"
  "antenna_wf as \<Longrightarrow> antenna_wf (fold (\<lambda>e as. if e = [] then as else del_antenna e as) ds as)"
  by (induction es arbitrary: as, auto simp: put_antenna_wf)
    (induction ds arbitrary: as, auto simp: del_antenna_wf)

lemma put_antenna_ids_ok: "list_all (\<lambda>a. an_netId a \<noteq> []) as \<Longrightarrow> an_netId a \<noteq> [] \<Longrightarrow>
    list_all (\<lambda>a. an_netId a \<noteq> []) (put_antenna a as)"
  by (induction a as rule: put_antenna.induct) auto

lemma fold_put_ids_ok: "list_all (\<lambda>a. an_netId a \<noteq> []) as \<Longrightarrow> list_all (\<lambda>a. an_netId a \<noteq> []) es \<Longrightarrow>
    list_all (\<lambda>a. an_netId a \<noteq> []) (fold put_antenna es as)"
  by (induction es arbitrary: as) (auto simp: put_antenna_ids_ok)

lemma fold_del_ids_ok: "list_all P as \<Longrightarrow>
    list_all P (fold (\<lambda>e as. if e = [] then as else del_antenna e as) ds as)"
proof (induction ds arbitrary: as)
  case (Cons d ds)
  have "list_all P (del_antenna d as)" using Cons.prems in_del_antennaD by (fastforce simp: list_all_iff)
  with Cons show ?case by simp
qed simp

lemma parse_antenna_ids: "list_all (\<lambda>a. an_netId a \<noteq> []) (List.map_filter parse_antenna es)"
  by (induction es) (auto simp: List.map_filter_simps parse_antenna_def Let_def split: option.split)

lemma split_nonempty [simp]: "split s d \<noteq> []"
  by (simp add: split_pieces)

lemma parse_speaker_freqs: "list_all (\<lambda>sp. sp_frequencies sp \<noteq> []) (List.map_filter (parse_speaker m) bs)"
  by (induction bs) (auto simp: List.map_filter_simps parse_speaker_def Let_def split: option.split)

section \<open>Every handler keeps it\<close>

lemmas inv_defs = ext_inv_def maps_ok_def local_ok_def

lemma handlePos_inv [step_inv]: assumes "ext_inv s" shows "ext_inv (handlePos m now ts s)"
proof -
  have "flt (Fin 0) (rc_speakRangeMeters c)" if "uget (m_clients s) n = Some c" for n c
    using assms that list_all_uget[of client_ok] by (fastforce simp: inv_defs client_ok_def)
  then show ?thesis using assms
    by (auto simp: handlePos_def Let_def inv_defs client_ok_def new_client_def
        intro!: list_all_uput split: option.split)
qed

lemma handleFreq_inv [step_inv]: "ext_inv s \<Longrightarrow> ext_inv (handleFreq m ts s)"
  using parseArmaNumberToInt_range[of m "ts ! 4"]
  by (auto simp: handleFreq_def Let_def inv_defs queueLocalMessage_def cmp_fin)

lemma tx_range_ok_0 [simp]: "tx_range_ok (Fin 0)"
  by (simp add: tx_range_ok_def cmp_fin)

lemma handleTangent_inv [step_inv]: "ext_inv s \<Longrightarrow> ext_inv (handleTangent ts s)"
  by (simp add: handleTangent_def Let_def inv_defs queueLocalMessage_def clamp_tx_range_ok)

lemma handleSpeakers_inv [step_inv]: "ext_inv s \<Longrightarrow> ext_inv (handleSpeakers m ts s)"
  by (simp add: handleSpeakers_def inv_defs parse_speaker_freqs)

lemma handleSetCfg_inv [step_inv]: "ext_inv s \<Longrightarrow> ext_inv (handleSetCfg ts s)"
  by (simp add: handleSetCfg_def Let_def inv_defs)

lemma handleKilled_inv [step_inv]: assumes "ext_inv s" shows "ext_inv (handleKilled n s)"
proof -
  have "client_ok (k, c)" if "uget (m_clients s) k = Some c" for k c
    using assms that list_all_uget[of client_ok] by (fastforce simp: inv_defs)
  then show ?thesis using assms
    by (auto simp: handleKilled_def Let_def inv_defs queueLocalMessage_def client_ok_def
        intro!: list_all_uput split: option.split)
qed

lemma handleUid_inv [step_inv]: "ext_inv s \<Longrightarrow> ext_inv (handleUid n u s)"
  by (simp add: handleUid_def Let_def inv_defs list_all_uput uid_ok_def)

lemma handleReleaseAllTangents_inv [step_inv]: "ext_inv s \<Longrightarrow> ext_inv (handleReleaseAllTangents n s)"
  by (simp add: handleReleaseAllTangents_def Let_def inv_defs queueLocalMessage_def)

lemma handleAddRadioTowers_inv [step_inv]: "ext_inv s \<Longrightarrow> ext_inv (handleAddRadioTowers p s)"
  by (simp add: handleAddRadioTowers_def inv_defs fold_antennas_ok fold_put_ids_ok parse_antenna_ids)

lemma handleDelRadioTowers_inv [step_inv]: "ext_inv s \<Longrightarrow> ext_inv (handleDelRadioTowers p s)"
  by (simp add: handleDelRadioTowers_def inv_defs fold_antennas_ok fold_del_ids_ok)

lemma handleMissionEnd_inv [step_inv]: "ext_inv s \<Longrightarrow> ext_inv (handleMissionEnd s)"
  by (simp add: handleMissionEnd_def inv_defs queueLocalMessage_def antenna_wf_def)

lemma handleDataFrame_inv [step_inv]: "ext_inv s \<Longrightarrow> ext_inv (handleDataFrame s)"
  by (simp add: handleDataFrame_def)

lemma needsConfig_inv [step_inv]: "ext_inv s \<Longrightarrow> ext_inv (snd (needsConfig now s))"
  by (simp add: needsConfig_def inv_defs)

lemma setLocalTransmitting_inv [step_inv]: "ext_inv s \<Longrightarrow> ext_inv (setLocalTransmitting b s)"
  by (simp add: setLocalTransmitting_def inv_defs)

lemma setVoiceConnected_inv [step_inv]: "ext_inv s \<Longrightarrow> ext_inv (setVoiceConnected b s)"
  by (simp add: setVoiceConnected_def inv_defs)

lemma takeTransmitOverride_inv [step_inv]: "ext_inv s \<Longrightarrow> ext_inv (snd (takeTransmitOverride s))"
  by (simp add: takeTransmitOverride_def inv_defs)

lemma setRemoteTx_inv [step_inv]: "ext_inv s \<Longrightarrow> ext_inv (setRemoteTx now u a f r st s)"
  by (simp add: setRemoteTx_def Let_def inv_defs list_all_uput list_all_udel remote_tx_ok_def)

lemma computeAudibleUnits_inv [step_inv]:
  "ext_inv s \<Longrightarrow> computeAudibleUnits m now s = Some (us, s') \<Longrightarrow> ext_inv s'"
  by (auto simp: computeAudibleUnits_eq snapshot_state_def inv_defs)

lemma processAsync_inv [step_inv]: "ext_inv (p_state p) \<Longrightarrow> ext_inv (p_state (processAsync m now c pl p))"
  by (simp add: processAsync_def Let_def step_inv)

lemma process_inv [step_inv]: "ext_inv (p_state p) \<Longrightarrow> ext_inv (p_state (snd (process m ov now input p)))"
  using needsConfig_inv[OF processAsync_inv, of p now m now]
  by (auto simp: process_def pos_reply_def Let_def step_inv case_prod_unfold)

end
