(* ===== verification/SolverFacts.thy ===== *)
theory SolverFacts
  imports StateInv "HOL-Library.Multiset"
begin

text \<open>
  Facts about the audibility solver, path by path: what each unit carries, that the antenna loss is
  a fraction or the sentinel, that the snapshot always returns, and that it does not depend on the
  order in which the maps are iterated.
\<close>

section \<open>Antenna loss\<close>

lemma distanceTo_nonneg: "is_nan (distanceTo a b) \<or> fle (Fin 0) (distanceTo a b)"
  by (simp add: distanceTo_def Let_def fsqrt_nonneg)

text \<open>A loss in \<open>[0, 1)\<close> or the sentinel 7: never NaN, whatever the positions and ranges hold.\<close>

definition loss_ok :: "fp \<Rightarrow> bool" where
  "loss_ok x \<longleftrightarrow> x = kNoAntennaLoss \<or> is_fin x \<and> 0 \<le> val x \<and> val x < 1"

definition acc_ok :: "fp \<times> bool \<Rightarrow> bool" where
  "acc_ok acc \<longleftrightarrow> fle (Fin 0) (fst acc) \<and> fle (fst acc) (Fin 1) \<and> (snd acc \<longrightarrow> flt (fst acc) (Fin 1))"

lemma positive_bound: "flt x y \<Longrightarrow> \<not> fle y (Fin 0) \<Longrightarrow> flt (Fin 0) y"
  using not_flt_iff[of "Fin 0" y] flt_not_nan[of x y] by auto

lemma antenna_step_ok:
  assumes "\<not> fle mx (Fin 0)" "acc_ok acc"
  shows "acc_ok (antenna_step sender mx to a acc)"
proof -
  let ?ds = "distanceTo (an_pos a) sender" and ?dr = "distanceTo (an_pos a) to"
  let ?l = "add32 (div32 ?dr (an_range a)) (div32 ?ds mx)"
  have "acc_ok (?l, True)"
    if h: "\<not> fle (an_range a) (Fin 0)" "flt ?ds mx" "flt ?dr (an_range a)" "flt ?l (fst acc)"
  proof -
    have nn: "\<not> is_nan ?l" using flt_not_nan[OF h(4)] by simp
    have n: "\<not> is_nan (div32 ?dr (an_range a))" "\<not> is_nan (div32 ?ds mx)"
      using nn by (auto simp: fadd_def)
    have "fle (Fin 0) ?dr" "fle (Fin 0) ?ds"
      using distanceTo_nonneg flt_not_nan[OF h(2)] flt_not_nan[OF h(3)] by blast+
    then have "fle (Fin 0) ?l"
      using n positive_bound[OF h(2) assms(1)] positive_bound[OF h(3) h(1)]
      by (intro fadd_nonneg fdiv_nonneg)
    moreover have "flt ?l (Fin 1)"
      using h(4) assms(2) flt_fle_trans by (auto simp: acc_ok_def)
    ultimately show ?thesis by (simp add: acc_ok_def flt_imp_fle)
  qed
  then show ?thesis using assms(2) by (auto simp: antenna_step_def Let_def)
qed

lemma antennaLoss_ok: "loss_ok (antennaLoss s sender mx to)"
proof (cases "m_antennas s = [] \<or> fle mx (Fin 0)")
  case True
  then show ?thesis by (simp add: antennaLoss_def loss_ok_def)
next
  case False
  have "acc_ok acc \<Longrightarrow> acc_ok (fold (antenna_step sender mx to) as acc)" for as acc
    using False by (induction as arbitrary: acc) (auto simp: antenna_step_ok)
  moreover have "acc_ok (Fin 1, False)" by (simp add: acc_ok_def cmp_fin)
  ultimately have ok: "acc_ok (fold (antenna_step sender mx to) (m_antennas s) (Fin 1, False))" .
  obtain l b where f: "fold (antenna_step sender mx to) (m_antennas s) (Fin 1, False) = (l, b)" by force
  have "is_fin l \<and> 0 \<le> val l \<and> val l < 1" if b
    using ok that f between_fin[of "Fin 0" l "Fin 1"] cmp_fin(1)[of l "Fin 1"]
    by (auto simp: acc_ok_def)
  then show ?thesis using False f by (simp add: antennaLoss_def loss_ok_def)
qed

lemma loss_ok_not_nan: "loss_ok x \<Longrightarrow> \<not> is_nan x"
  by (cases x) (auto simp: loss_ok_def kNoAntennaLoss_def)

section \<open>What a unit carries\<close>

definition err_ok :: "fp \<Rightarrow> bool" where
  "err_ok e \<longleftrightarrow> is_fin e \<and> 0 \<le> val e \<and> val e \<le> 1"

lemma err_ok_0 [simp]: "err_ok (Fin 0)"
  by (simp add: err_ok_def)

lemma fmin_not_nan: "\<not> is_nan b \<Longrightarrow> \<not> is_nan (fmin a b)"
  using flt_not_nan[of a b] by (auto simp: fmin_def)

lemma err_ok_clamp: "loss_ok loss \<Longrightarrow> err_ok (clampf (fmin e loss) (Fin 0) (Fin 1))"
  using clampf_fin[of "Fin 0" "Fin 1" "fmin e loss"] fmin_not_nan[OF loss_ok_not_nan]
  by (simp add: err_ok_def cmp_fin)

definition radio_fx :: "string set" where
  "radio_fx = {''sw'', ''lr'', ''airborne'', ''dd'', ''phone''}"

lemma subtypeToFx_radio: "subtypeToFx st uw = Some fx \<Longrightarrow> fx \<in> radio_fx"
  by (auto simp: subtypeToFx_def radio_fx_def split: if_splits)

text \<open>The facts every path guarantees for its units.\<close>

definition unit_ok :: "remoteClient \<Rightarrow> audibleUnit \<Rightarrow> bool" where
  "unit_ok other u \<longleftrightarrow> au_nickname u = rc_nickname other \<and> flt (Fin 0) (au_gain u) \<and>
     err_ok (au_err u) \<and> au_fx u \<in> radio_fx \<union> {''direct'', ''speaker'', ''intercom''}"

lemma radio_path_unit:
  assumes "u \<in> set (fst (radio_path m s me other p h tx e loss))" "loss_ok loss"
  shows "unit_ok other u \<and> au_fx u \<in> radio_fx \<and> au_az u = Fin 0 \<and>
    (\<exists>setting viaLr. receiving_setting s me tx = Some (setting, viaLr) \<and>
       au_stereoMode u = fs_stereoMode setting)"
  using assms
  by (auto simp: radio_path_def Let_def unit_ok_def err_ok_clamp subtypeToFx_radio new_unit_def
      split: if_splits option.splits)

lemma intercom_path_unit:
  "u \<in> set (intercom_path s me other tx) \<Longrightarrow>
     unit_ok other u \<and> au_fx u = ''intercom'' \<and> tx = None \<and> au_az u = Fin 0"
  by (auto simp: intercom_path_def Let_def unit_ok_def new_unit_def split: if_splits)

lemma speaker_path_unit:
  assumes "speaker_path m s me other p now tx e loss sp = Some us" "u \<in> set us" "loss_ok loss"
  shows "unit_ok other u \<and> au_fx u = ''speaker'' \<and> tx_frequency tx \<in> set (sp_frequencies sp) \<and>
    (\<exists>t. azimuthTo m p (rc_viewDirection me) t = Some (au_az u))"
  using assms
  by (auto simp: speaker_path_def Let_def unit_ok_def new_unit_def err_ok_clamp bind_eq_Some_conv
      split: if_splits option.splits)

lemma direct_path_unit:
  assumes "direct_path m s me other p h = Some us" "u \<in> set us"
  shows "unit_ok other u \<and> au_fx u = ''direct'' \<and>
    (\<exists>t. azimuthTo m p (rc_viewDirection me) t = Some (au_az u)) \<and>
    \<not> rc_isSpectating other \<and> \<not> notHearableInSpectator s me other \<and>
    fle (add32 (distanceTo p h) (mul32 (Fin 2) (int32_fp (rc_objectInterception other))))
        (add32 (rc_speakRangeMeters other) (Fin 15))"
  using assms
  by (auto simp: direct_path_def Let_def unit_ok_def new_unit_def bind_eq_Some_conv split: if_splits)

lemma those_map: "those (map f xs) = (if \<forall>x \<in> set xs. f x \<noteq> None then Some (map (the \<circ> f) xs) else None)"
  by (induction xs) (auto split: option.split)

lemma those_map_SomeD: "those (map f xs) = Some ys \<Longrightarrow> y \<in> set ys \<Longrightarrow> \<exists>x \<in> set xs. f x = Some y"
  by (auto simp: those_map split: if_splits) (metis option.collapse)

lemma speaker_paths_unit:
  assumes "speaker_paths m s me other p now tx e loss = Some us" "u \<in> set us" "loss_ok loss"
  shows "unit_ok other u \<and> au_fx u = ''speaker'' \<and>
    (\<exists>sp \<in> set (m_speakers s). tx_frequency tx \<in> set (sp_frequencies sp)) \<and>
    (\<exists>t. azimuthTo m p (rc_viewDirection me) t = Some (au_az u))"
proof -
  from assms(1,2) obtain vs uss where v: "u \<in> set vs" "vs \<in> set uss"
    "those (map (speaker_path m s me other p now tx e loss) (m_speakers s)) = Some uss"
    by (auto simp: speaker_paths_def split: if_splits)
  from those_map_SomeD[OF v(3,2)] obtain sp where
    "sp \<in> set (m_speakers s)" "speaker_path m s me other p now tx e loss sp = Some vs" by blast
  with speaker_path_unit[OF this(2) v(1) assms(3)] show ?thesis by blast
qed

section \<open>One player\<close>

text \<open>The unit is heard on the radio that receives the transmission, in the ear that radio is set to.\<close>

definition heard_on :: "ext_state \<Rightarrow> remoteClient \<Rightarrow> remoteTx \<Rightarrow> audibleUnit \<Rightarrow> bool" where
  "heard_on s me tx u \<longleftrightarrow> (\<exists>st viaLr. receiving_setting s me tx = Some (st, viaLr) \<and> au_stereoMode u = fs_stereoMode st)"

text \<open>
  Which path a unit came from can be read off its effect; radio and speaker audio need a fresh
  transmission of that player, intercom audio needs that there is none.
\<close>

definition direct_in_reach :: "ext_state \<Rightarrow> time \<Rightarrow> remoteClient \<Rightarrow> remoteClient \<Rightarrow> bool" where
  "direct_in_reach s now me other \<longleftrightarrow>
     \<not> rc_isSpectating other \<and> \<not> notHearableInSpectator s me other \<and>
     fle (add32 (distanceTo (extrapolatedPosition me now) (extrapolatedPosition other now))
           (mul32 (Fin 2) (int32_fp (rc_objectInterception other))))
         (add32 (rc_speakRangeMeters other) (Fin 15))"

definition path_ok :: "ext_state \<Rightarrow> time \<Rightarrow> remoteClient \<Rightarrow> remoteClient \<Rightarrow> audibleUnit \<Rightarrow> bool" where
  "path_ok s now me other u \<longleftrightarrow>
     (au_fx u \<in> radio_fx \<longrightarrow> (\<exists>tx. fresh_tx s now (rc_nickname other) = Some tx \<and> heard_on s me tx u)) \<and>
     (au_fx u = ''speaker'' \<longrightarrow> (\<exists>tx. fresh_tx s now (rc_nickname other) = Some tx \<and>
        (\<exists>sp \<in> set (m_speakers s). tx_frequency tx \<in> set (sp_frequencies sp)))) \<and>
     (au_fx u = ''intercom'' \<longrightarrow> fresh_tx s now (rc_nickname other) = None) \<and>
     (au_fx u = ''direct'' \<longrightarrow> rc_isSpectating me \<and> rc_isSpectating other \<or> direct_in_reach s now me other)"

definition az_ok :: "libm \<Rightarrow> audibleUnit \<Rightarrow> bool" where
  "az_ok m u \<longleftrightarrow> au_az u = Fin 0 \<or> (\<exists>p v t. azimuthTo m p v t = Some (au_az u))"

lemma fx_distinct [simp]:
  "''direct'' \<notin> radio_fx" "''speaker'' \<notin> radio_fx" "''intercom'' \<notin> radio_fx"
  by (auto simp: radio_fx_def)

lemma addAudible_unit:
  assumes "addAudibleForClient m s now me other = Some (us, lr)" "u \<in> set us"
  shows "unit_ok other u \<and> path_ok s now me other u \<and> az_ok m u"
proof (cases "rc_isSpectating me \<and> rc_isSpectating other")
  case True
  have "u = spectator_unit other"
    using True assms by (auto simp: addAudibleForClient_def Let_def split: if_splits)
  then show ?thesis
    using True by (simp add: spectator_unit_def unit_ok_def new_unit_def path_ok_def az_ok_def)
next
  case False
  let ?p = "extrapolatedPosition me now" and ?h = "extrapolatedPosition other now"
  let ?tx = "fresh_tx s now (rc_nickname other)"
  consider (direct) ds where "direct_path m s me other ?p ?h = Some ds" "u \<in> set ds"
    | (intercom) "u \<in> set (intercom_path s me other ?tx)"
    | (radio) tx e loss where "?tx = Some tx" "loss_ok loss"
        "u \<in> set (fst (radio_path m s me other ?p ?h tx e loss))"
    | (speaker) tx e loss sps where "?tx = Some tx" "loss_ok loss"
        "speaker_paths m s me other ?p now tx e loss = Some sps" "u \<in> set sps"
    using assms False antennaLoss_ok
    by (fastforce simp: addAudibleForClient_def Let_def bind_eq_Some_conv case_prod_unfold
        split: option.splits if_splits)
  then show ?thesis
  proof cases
    case direct
    with direct_path_unit[OF direct] show ?thesis
      by (auto simp: path_ok_def az_ok_def direct_in_reach_def)
  next
    case intercom
    with intercom_path_unit[OF intercom] show ?thesis by (auto simp: path_ok_def az_ok_def)
  next
    case radio
    with radio_path_unit[OF radio(3,2)] show ?thesis
      by (auto simp: path_ok_def az_ok_def heard_on_def)
  next
    case speaker
    with speaker_paths_unit[OF speaker(3,4,2)] show ?thesis by (auto simp: path_ok_def az_ok_def)
  qed
qed

section \<open>The snapshot returns\<close>

lemma azimuthTo_returns: "atan2_doc m \<Longrightarrow> azimuthTo m l v t \<noteq> None"
  using azimuthTo_total[of m l v t] by auto

lemma speaker_path_total: "atan2_doc m \<Longrightarrow> speaker_path m s me other p now tx e loss sp \<noteq> None"
  by (simp add: speaker_path_def Let_def bind_eq_None_conv azimuthTo_returns del: not_None_eq split: option.split)

lemma direct_path_total: "atan2_doc m \<Longrightarrow> direct_path m s me other p h \<noteq> None"
  by (simp add: direct_path_def Let_def bind_eq_None_conv azimuthTo_returns del: not_None_eq)

lemma speaker_paths_total: "atan2_doc m \<Longrightarrow> speaker_paths m s me other p now tx e loss \<noteq> None"
  by (simp add: speaker_paths_def those_map speaker_path_total)

lemma addAudible_total:
  assumes "atan2_doc m"
  shows "addAudibleForClient m s now me other \<noteq> None"
proof -
  obtain ds where d: "direct_path m s me other (extrapolatedPosition me now) (extrapolatedPosition other now) = Some ds"
    using direct_path_total[OF assms] by blast
  have sp: "\<exists>sps. speaker_paths m s me other p now tx e loss = Some sps" for p tx e loss
    using speaker_paths_total[OF assms] by blast
  show ?thesis
  proof (cases "fresh_tx s now (rc_nickname other)")
    case None
    then show ?thesis by (simp add: addAudibleForClient_def Let_def d del: not_None_eq)
  next
    case (Some tx)
    then show ?thesis
      using sp[of "extrapolatedPosition me now" tx "effectiveDistance s (extrapolatedPosition me now) other now"
          "antennaLoss s (extrapolatedPosition other now) (tx_range tx) (extrapolatedPosition me now)"]
      by (auto simp: addAudibleForClient_def Let_def d case_prod_unfold)
  qed
qed

lemma client_results_total: "atan2_doc m \<Longrightarrow> client_results m now s \<noteq> None"
  by (auto simp: client_results_def those_map addAudible_total split: option.split)

lemma client_results_unit:
  assumes "client_results m now s = Some rs" "u \<in> set (units_of s rs)"
  shows "\<exists>me other u0. local_client s now = Some me \<and> other \<in> set (considered s now) \<and>
    u = finish_unit s u0 \<and> unit_ok other u0 \<and> path_ok s now me other u0 \<and> az_ok m u0"
proof -
  from assms(2) obtain r u0 where r: "r \<in> set rs" "u0 \<in> set (fst r)" "u = finish_unit s u0"
    by (auto simp: units_of_def)
  from assms(1) r(1) obtain me where me: "local_client s now = Some me"
    "those (map (addAudibleForClient m s now me) (considered s now)) = Some rs"
    by (auto simp: client_results_def split: option.splits)
  from those_map_SomeD[OF me(2) r(1)] obtain other where
    o: "other \<in> set (considered s now)" "addAudibleForClient m s now me other = Some r" by blast
  have "addAudibleForClient m s now me other = Some (fst r, snd r)" using o(2) by simp
  from addAudible_unit[OF this r(2)] me(1) o(1) r(3) show ?thesis by blast
qed

section \<open>Iteration order\<close>

text \<open>
  The solver reads \<open>m_clients\<close>, \<open>m_remoteTx\<close> and \<open>m_nameToUid\<close> by key inside one player, so it only
  depends on their lookups.
\<close>

definition reordered :: "ext_state \<Rightarrow> ext_state \<Rightarrow> bool" where
  "reordered s s' \<longleftrightarrow>
     mset (m_clients s') = mset (m_clients s) \<and> mset (m_remoteTx s') = mset (m_remoteTx s) \<and>
     mset (m_nameToUid s') = mset (m_nameToUid s) \<and>
     s' = s\<lparr>m_clients := m_clients s', m_remoteTx := m_remoteTx s', m_nameToUid := m_nameToUid s'\<rparr>"

lemma uwf_mset: "mset m' = mset m \<Longrightarrow> uwf m' \<longleftrightarrow> uwf m"
  unfolding uwf_def by (metis mset_eq_imp_distinct_iff mset_map)

lemma uget_mset: assumes "mset m' = mset m" "uwf m" shows "uget m' k = uget m k"
proof -
  have "uget m' k = Some v \<longleftrightarrow> uget m k = Some v" for v
    using assms uwf_mset[OF assms(1)] uget_iff[of m' k v] uget_iff[of m k v] mset_eq_setD[OF assms(1)]
    by simp
  then show ?thesis by (metis option.exhaust)
qed

lemma speaker_path_lookup:
  "uget cs = uget (m_clients s) \<Longrightarrow>
   speaker_path m (s\<lparr>m_clients := cs, m_remoteTx := ts, m_nameToUid := us\<rparr>) = speaker_path m s"
  by (intro ext) (simp add: speaker_path_def cong: option.case_cong if_cong)

lemma addAudible_lookup:
  assumes "uget cs = uget (m_clients s)" "uget ts = uget (m_remoteTx s)"
  shows "addAudibleForClient m (s\<lparr>m_clients := cs, m_remoteTx := ts, m_nameToUid := us\<rparr>) =
    addAudibleForClient m s"
proof -
  let ?s = "s\<lparr>m_clients := cs, m_remoteTx := ts, m_nameToUid := us\<rparr>"
  have "fresh_tx ?s = fresh_tx s" "antennaLoss ?s = antennaLoss s"
    "effectiveDistance ?s = effectiveDistance s" "configBool ?s = configBool s"
    by (intro ext; simp add: fresh_tx_def antennaLoss_def effectiveDistance_def configBool_def assms(2) cong: option.case_cong if_cong)+
  moreover have "receiving_setting ?s = receiving_setting s" "dd_error ?s = dd_error s"
    by (intro ext; simp add: receiving_setting_def dd_error_def configBool_def cong: option.case_cong if_cong)+
  moreover from calculation have "radio_path m ?s = radio_path m s"
    by (intro ext) (simp add: radio_path_def cong: option.case_cong if_cong)
  moreover have "speaker_paths m ?s = speaker_paths m s"
    by (intro ext) (simp add: speaker_paths_def speaker_path_lookup[OF assms(1)])
  moreover have "direct_path m ?s = direct_path m s"
    by (intro ext) (simp add: direct_path_def notHearableInSpectator_def configBool_def cong: option.case_cong if_cong)
  moreover have "intercom_path ?s = intercom_path s"
    by (intro ext) (simp add: intercom_path_def configBool_def configFloat_def cong: option.case_cong if_cong)
  ultimately show ?thesis by (intro ext) (simp only: addAudibleForClient_def)
qed

lemma considered_mset:
  "mset cs = mset (m_clients s) \<Longrightarrow>
   mset (considered (s\<lparr>m_clients := cs, m_remoteTx := ts, m_nameToUid := us\<rparr>) now) = mset (considered s now)"
  by (simp add: considered_def mset_filter mset_map)

lemma those_map_mset:
  assumes "mset ys = mset xs" "those (map f xs) = Some rs"
  shows "\<exists>rs'. those (map f ys) = Some rs' \<and> mset rs' = mset rs"
  using assms mset_eq_setD[OF assms(1)] by (auto simp: those_map split: if_splits)

lemma client_results_reordered:
  assumes "reordered s s'" "uwf (m_clients s)" "uwf (m_remoteTx s)" "client_results m now s = Some rs"
  shows "\<exists>rs'. client_results m now s' = Some rs' \<and> mset rs' = mset rs"
proof -
  let ?cs = "m_clients s'" and ?ts = "m_remoteTx s'"
  have s': "s' = s\<lparr>m_clients := ?cs, m_remoteTx := ?ts, m_nameToUid := m_nameToUid s'\<rparr>"
    and ms: "mset ?cs = mset (m_clients s)" "mset ?ts = mset (m_remoteTx s)"
    using assms(1) by (auto simp: reordered_def)
  have g: "uget ?cs = uget (m_clients s)" "uget ?ts = uget (m_remoteTx s)"
    using uget_mset ms assms(2,3) by (auto intro!: ext)
  have "m_myNickname s' = m_myNickname s" by (subst s') simp
  then have l: "local_client s' now = local_client s now" by (simp add: local_client_def g)
  have a: "addAudibleForClient m s' = addAudibleForClient m s"
    by (subst s') (rule addAudible_lookup[OF g])
  have c: "mset (considered s' now) = mset (considered s now)"
    by (subst s') (rule considered_mset[OF ms(1)])
  show ?thesis
  proof (cases "local_client s now")
    case None
    with assms(4) show ?thesis by (simp add: client_results_def l)
  next
    case (Some me)
    with assms(4) have "those (map (addAudibleForClient m s now me) (considered s now)) = Some rs"
      by (simp add: client_results_def)
    from those_map_mset[OF c this] Some show ?thesis by (simp add: client_results_def l a)
  qed
qed

end
