(* ===== verification/SolverProps.thy ===== *)
theory SolverProps
  imports SolverFacts
begin

text \<open>
  The properties of the audibility solver, with witnesses on a small world: the local player A and
  the player B, who transmits on a frequency A's short-wave radio is tuned to.
\<close>

section \<open>A concrete world\<close>

text \<open>A math library that is exact on the axes; enough to satisfy what \<open>atan2f\<close> documents.\<close>

definition axis_libm :: libm where
  "axis_libm = \<lparr>
     powf = (\<lambda>x y. if feq y (Fin 4) then mul32 (mul32 x x) (mul32 x x)
                   else if fle (Fin (- 1)) y then Fin (1 / 2) else Fin 0),
     atan2f = (\<lambda>y x. if is_nan y \<or> is_nan x then NaN
                     else if flt y (Fin 0) then div32 (fneg kPi) (Fin 2)
                     else if flt (Fin 0) y then div32 kPi (Fin 2)
                     else if flt x (Fin 0) then kPi else Fin 0),
     sinf = (\<lambda>x. Fin 0), sind = (\<lambda>x. Fin 0), cosd = (\<lambda>x. Fin 1), lround_oob = (\<lambda>x. 0),
     cast_oob = (\<lambda>x. 0)\<rparr>"

lemma half_pi: "div32 kPi (Fin 2) = Fin (13176795 / 8388608)"
  "div32 (fneg kPi) (Fin 2) = Fin (- (13176795 / 8388608))"
  unfolding kPi_val by code_simp+

lemma axis_libm_doc: "atan2_doc axis_libm"
  by (simp add: atan2_doc_def axis_libm_def half_pi[unfolded kPi_val] kPi_val)

definition player_at :: "string \<Rightarrow> rat \<Rightarrow> remoteClient" where
  "player_at n x = new_client\<lparr>rc_nickname := n, rc_position := vec (Fin x) (Fin 0) (Fin 0),
     rc_canUseSW := True, rc_lastUpdate := ms 1000\<rparr>"

definition radio_B :: remoteTx where
  "radio_B = \<lparr>tx_nickname = ''B'', tx_frequency = ''51'', tx_range = Fin 5000,
     tx_subtype = ''digital'', tx_received = ms 1000\<rparr>"

definition world :: ext_state where
  "world = init_state\<lparr>m_myNickname := ''A'',
     m_clients := [(''A'', player_at ''A'' 0), (''B'', player_at ''B'' 10)],
     m_swFrequencies := [''51'' \<mapsto> \<lparr>fs_volume = 9, fs_stereoMode = 0, fs_radioClassname = ''R1''\<rparr>],
     m_remoteTx := [(''B'', radio_B)]\<rparr>"

lemma world_inv: "ext_inv world"
  by (simp add: inv_defs world_def init_state_def client_ok_def remote_tx_ok_def player_at_def
      radio_B_def new_client_def antenna_wf_def uwf_def cmp_fin)

text \<open>What A hears: B's radio at full headset volume, and B's own voice at half a gain.\<close>

definition radio_unit_B :: audibleUnit where
  "radio_unit_B = new_unit\<lparr>au_uid := ''B'', au_nickname := ''B'',
     au_gain := lit32 (35 / 100), au_fx := ''sw'', au_err := lit32 (1 / 500)\<rparr>"

definition direct_unit_B :: audibleUnit where
  "direct_unit_B = new_unit\<lparr>au_uid := ''B'', au_nickname := ''B'', au_gain := Fin (1 / 2),
     au_az := Fin (13176795 / 8388608)\<rparr>"

lemma world_snapshot:
  "map_option fst (computeAudibleUnits axis_libm (ms 2000) world) = Some [radio_unit_B, direct_unit_B]"
  by code_simp


section \<open>The snapshot\<close>

text \<open>A snapshot always returns: with the documented \<open>atan2f\<close>, the angle-wrapping loops of
  \<open>azimuthTo\<close> end for every state, and so does \<open>computeAudibleUnits\<close>.\<close>

theorem snapshot_returns:
  assumes "atan2_doc m"
  shows "\<exists>us s'. computeAudibleUnits m now s = Some (us, s')"
  using client_results_total[OF assms, of now s] by (auto simp: computeAudibleUnits_eq)

theorem snapshot_returns_witness:
  "\<exists>us s'. computeAudibleUnits axis_libm (ms 2000) world = Some (us, s')"
  by (rule snapshot_returns[OF axis_libm_doc])

lemma snapshotE:
  assumes "computeAudibleUnits m now s = Some (us, s')"
  obtains rs where "client_results m now s = Some rs" "us = units_of s rs" "s' = snapshot_state s now rs"
  using assms by (auto simp: computeAudibleUnits_eq)

lemma finish_unit_simps [simp]:
  "au_nickname (finish_unit s u) = au_nickname u" "au_fx (finish_unit s u) = au_fx u"
  "au_err (finish_unit s u) = au_err u" "au_az (finish_unit s u) = au_az u"
  "au_stereoMode (finish_unit s u) = au_stereoMode u"
  "au_uid (finish_unit s u) = uidFor s (au_nickname u)"
  "\<not> flt (au_gain (finish_unit s u)) (Fin 0)"
  by (auto simp: finish_unit_def Let_def cmp_fin)

lemma consideredD:
  assumes "other \<in> set (considered s now)" "ext_inv s"
  shows "uget (m_clients s) (rc_nickname other) = Some other" "rc_nickname other \<noteq> m_myNickname s"
    "now - rc_lastUpdate other < kClientExpiry"
proof -
  from assms(1) obtain k where k: "(k, other) \<in> set (m_clients s)" by (auto simp: considered_def)
  with assms(2) have "rc_nickname other = k" by (fastforce simp: inv_defs client_ok_def list_all_iff)
  with k assms(2) show "uget (m_clients s) (rc_nickname other) = Some other"
    by (simp add: uget_iff inv_defs)
qed (use assms(1) in \<open>auto simp: considered_def\<close>)

lemma snapshot_unit:
  assumes "computeAudibleUnits m now s = Some (us, s')" "u \<in> set us" "ext_inv s"
  shows "\<exists>me other u0. local_client s now = Some me \<and> uget (m_clients s) (au_nickname u) = Some other \<and>
    other \<in> set (considered s now) \<and> rc_nickname other = au_nickname u \<and>
    u = finish_unit s u0 \<and> unit_ok other u0 \<and> path_ok s now me other u0 \<and> az_ok m u0"
proof -
  from assms(1) obtain rs where "client_results m now s = Some rs" "us = units_of s rs"
    by (rule snapshotE)
  from client_results_unit[OF this(1), of u] this(2) assms(2) obtain me other u0 where
    h: "local_client s now = Some me" "other \<in> set (considered s now)"
      "u = finish_unit s u0" "unit_ok other u0" "path_ok s now me other u0" "az_ok m u0" by blast
  then have "rc_nickname other = au_nickname u" by (simp add: unit_ok_def)
  with h consideredD[OF h(2) assms(3)] show ?thesis by metis
qed

lemma az_ok_range: "atan2_doc m \<Longrightarrow> az_ok m u \<Longrightarrow>
    is_nan (au_az u) \<or> is_fin (au_az u) \<and> \<bar>val (au_az u)\<bar> \<le> val kPi"
proof -
  assume m: "atan2_doc m" and az: "az_ok m u"
  from az consider "au_az u = Fin 0" | p v t where "azimuthTo m p v t = Some (au_az u)"
    by (auto simp: az_ok_def)
  then show ?thesis
  proof cases
    case 1 then show ?thesis by (simp add: kPi_val)
  next
    case (2 p v t) with azimuthTo_total[OF m, of p v t] show ?thesis by auto
  qed
qed

text \<open>C1. Every unit of a snapshot is well formed: its gain is not below zero, its error level is a
  fraction between 0 and 1 whatever the positions and ranges were, its azimuth is an angle of at
  most half a turn (or NaN, where a position was), and it names another player than the local one
  whose last POS is less than six seconds old, under the resolved uid.\<close>

theorem snapshot_units_well_formed:
  assumes "atan2_doc m" "ext_inv s" "computeAudibleUnits m now s = Some (us, s')" "u \<in> set us"
  shows "\<not> flt (au_gain u) (Fin 0) \<and> is_fin (au_err u) \<and> 0 \<le> val (au_err u) \<and> val (au_err u) \<le> 1 \<and>
    (is_nan (au_az u) \<or> is_fin (au_az u) \<and> \<bar>val (au_az u)\<bar> \<le> val kPi) \<and>
    au_fx u \<in> {''sw'', ''lr'', ''airborne'', ''dd'', ''phone'', ''direct'', ''speaker'', ''intercom''} \<and>
    au_uid u = uidFor s (au_nickname u) \<and> au_nickname u \<noteq> m_myNickname s \<and>
    (\<exists>c. uget (m_clients s) (au_nickname u) = Some c \<and> now - rc_lastUpdate c < kClientExpiry)"
proof -
  from snapshot_unit[OF assms(3,4,2)] obtain other u0 where h:
    "uget (m_clients s) (au_nickname u) = Some other" "other \<in> set (considered s now)"
    "rc_nickname other = au_nickname u"
    "u = finish_unit s u0" "unit_ok other u0" "az_ok m u0" by blast
  with consideredD[OF h(2) assms(2)] az_ok_range[OF assms(1) h(6)] show ?thesis
    by (auto simp: unit_ok_def err_ok_def radio_fx_def)
qed

lemma world_units: "\<exists>s'. computeAudibleUnits axis_libm (ms 2000) world = Some ([radio_unit_B, direct_unit_B], s')"
  using world_snapshot by auto

theorem snapshot_units_well_formed_witness:
  "au_fx radio_unit_B \<in> {''sw'', ''lr'', ''airborne'', ''dd'', ''phone'', ''direct'', ''speaker'', ''intercom''} \<and>
   au_nickname radio_unit_B \<noteq> m_myNickname world"
proof -
  obtain s' where "computeAudibleUnits axis_libm (ms 2000) world = Some ([radio_unit_B, direct_unit_B], s')"
    using world_units by blast
  from snapshot_units_well_formed[OF axis_libm_doc world_inv this, of radio_unit_B] show ?thesis by simp
qed

text \<open>C2. A unit says truly how the player is heard: radio and speaker audio only while a
  transmission of that player less than 1.5 seconds old is known, on a frequency one of the local
  radios, or a nearby speaker, is tuned to; intercom audio only while there is none; direct speech
  only within the speak range plus 15 metres, never from a spectator to a living player nor where
  the spectator settings forbid it.\<close>

theorem snapshot_units_paths:
  assumes "ext_inv s" "computeAudibleUnits m now s = Some (us, s')" "u \<in> set us"
  shows "\<exists>me other. local_client s now = Some me \<and> uget (m_clients s) (au_nickname u) = Some other \<and>
    (au_fx u \<in> radio_fx \<longrightarrow> (\<exists>tx. fresh_tx s now (au_nickname u) = Some tx \<and>
       receiving_setting s me tx \<noteq> None)) \<and>
    (au_fx u = ''speaker'' \<longrightarrow> (\<exists>tx sp. fresh_tx s now (au_nickname u) = Some tx \<and>
       sp \<in> set (m_speakers s) \<and> tx_frequency tx \<in> set (sp_frequencies sp))) \<and>
    (au_fx u = ''intercom'' \<longrightarrow> fresh_tx s now (au_nickname u) = None) \<and>
    (au_fx u = ''direct'' \<longrightarrow> rc_isSpectating me \<and> rc_isSpectating other \<or>
       \<not> rc_isSpectating other \<and> \<not> notHearableInSpectator s me other \<and>
       fle (add32 (distanceTo (extrapolatedPosition me now) (extrapolatedPosition other now))
             (mul32 (Fin 2) (int32_fp (rc_objectInterception other))))
           (add32 (rc_speakRangeMeters other) (Fin 15)))"
proof -
  from snapshot_unit[OF assms(2,3,1)] obtain me other u0 where h: "local_client s now = Some me"
    "uget (m_clients s) (au_nickname u) = Some other" "rc_nickname other = au_nickname u"
    "u = finish_unit s u0" "path_ok s now me other u0" by blast
  then show ?thesis
    by (intro exI[of _ me] exI[of _ other])
      (auto simp: path_ok_def direct_in_reach_def heard_on_def)
qed

theorem snapshot_units_paths_witness:
  "\<exists>tx. fresh_tx world (ms 2000) ''B'' = Some tx"
proof -
  obtain s' where "computeAudibleUnits axis_libm (ms 2000) world = Some ([radio_unit_B, direct_unit_B], s')"
    using world_units by blast
  from snapshot_units_paths[OF world_inv this, of radio_unit_B] show ?thesis
    by (auto simp: radio_unit_B_def radio_fx_def new_unit_def)
qed


lemma receiving_settingD:
  assumes "receiving_setting s me tx = Some (st, viaLr)"
  shows "if viaLr then rc_canUseLR me \<and> m_lrFrequencies s (tx_frequency tx) = Some st
    else rc_canUseSW me \<and> m_swFrequencies s (tx_frequency tx) = Some st"
    "configBool s ''full_duplex'' True \<or> \<not> m_tangentPressed s \<or> m_txRadioClassname s = [] \<or>
     fs_radioClassname st \<noteq> m_txRadioClassname s"
  using assms by (auto simp: receiving_setting_def Let_def split: if_splits option.splits)

lemma receiving_setting_chosen:
  assumes "receiving_setting s me tx = Some (st, viaLr)"
  shows "if rc_canUseLR me \<and> m_lrFrequencies s (tx_frequency tx) \<noteq> None
    then m_lrFrequencies s (tx_frequency tx) = Some st
    else rc_canUseSW me \<and> m_swFrequencies s (tx_frequency tx) = Some st"
  using assms by (auto simp: receiving_setting_def Let_def split: if_splits option.splits)

text \<open>C8. Half duplex: with \<open>full_duplex\<close> off, while the local player transmits on a radio, no headset unit
  of the snapshot is received on that radio. The radio a unit is received on is the long-range radio
  tuned to the frequency of the transmission when the player can use one, otherwise the short-range
  radio tuned to it; the unit comes out of the ear that radio is set to, and its class is not the class
  of the radio the player transmits with. (A loudspeaker in the world is no radio of the player: the code
  lets it be heard, and the property does not speak of it.)\<close>

theorem half_duplex:
  assumes "ext_inv s" "computeAudibleUnits m now s = Some (us, s')" "u \<in> set us" "au_fx u \<in> radio_fx"
    and "\<not> configBool s ''full_duplex'' True" "m_tangentPressed s" "m_txRadioClassname s \<noteq> []"
  shows "\<exists>me tx st. local_client s now = Some me \<and> fresh_tx s now (au_nickname u) = Some tx \<and>
    (if rc_canUseLR me \<and> m_lrFrequencies s (tx_frequency tx) \<noteq> None
     then m_lrFrequencies s (tx_frequency tx) = Some st
     else rc_canUseSW me \<and> m_swFrequencies s (tx_frequency tx) = Some st) \<and>
    au_stereoMode u = fs_stereoMode st \<and> fs_radioClassname st \<noteq> m_txRadioClassname s"
proof -
  from snapshot_unit[OF assms(2,3,1)] obtain me other u0 where h: "local_client s now = Some me"
    "rc_nickname other = au_nickname u" "u = finish_unit s u0" "path_ok s now me other u0" by blast
  have "au_fx u0 \<in> radio_fx" "au_stereoMode u0 = au_stereoMode u"
    using assms(4) h(3) by (simp_all add: finish_unit_def Let_def)
  with h(2,4) obtain tx st viaLr where tx: "fresh_tx s now (au_nickname u) = Some tx"
    "receiving_setting s me tx = Some (st, viaLr)" "au_stereoMode u = fs_stereoMode st"
    by (auto simp: path_ok_def heard_on_def)
  from receiving_setting_chosen[OF tx(2)] receiving_settingD(2)[OF tx(2)] assms(5-7) tx(1,3) h(1)
  show ?thesis by (intro exI[of _ me] exI[of _ tx] exI[of _ st]) auto
qed

definition talking_world :: ext_state where
  "talking_world = world\<lparr>m_config := [''full_duplex'' \<mapsto> ''false''], m_tangentPressed := True,
     m_txFrequency := ''60'', m_txRadioClassname := ''R2''\<rparr>"

lemma talking_world_snapshot:
  "map_option fst (computeAudibleUnits axis_libm (ms 2000) talking_world) = Some [radio_unit_B, direct_unit_B]"
  by code_simp

text \<open>B's transmission is heard while the player talks on an R2: it is received on an R1.\<close>

theorem half_duplex_witness:
  "\<exists>me tx st. local_client talking_world (ms 2000) = Some me \<and> fresh_tx talking_world (ms 2000) ''B'' = Some tx \<and>
     (m_lrFrequencies talking_world (tx_frequency tx) = Some st \<or> m_swFrequencies talking_world (tx_frequency tx) = Some st) \<and>
     fs_radioClassname st = ''R1'' \<and> m_txRadioClassname talking_world = ''R2''"
proof -
  obtain s' where c: "computeAudibleUnits axis_libm (ms 2000) talking_world = Some ([radio_unit_B, direct_unit_B], s')"
    using talking_world_snapshot by auto
  have i: "ext_inv talking_world"
    using world_inv by (auto simp: talking_world_def inv_defs world_def init_state_def isValidConfigKey_def
        kValidConfigKeys_def)
  have "\<not> configBool talking_world ''full_duplex'' True" by (simp add: talking_world_def configBool_def)
  from half_duplex[OF i c, of radio_unit_B, OF _ _ this] obtain me tx st where h:
    "local_client talking_world (ms 2000) = Some me" "fresh_tx talking_world (ms 2000) ''B'' = Some tx"
    "m_lrFrequencies talking_world (tx_frequency tx) = Some st \<or> m_swFrequencies talking_world (tx_frequency tx) = Some st"
    by (auto simp: talking_world_def radio_unit_B_def radio_fx_def new_unit_def split: if_splits)
  then have "fs_radioClassname st = ''R1''"
    by (auto simp: talking_world_def world_def init_state_def split: if_splits)
  with h show ?thesis by (auto simp: talking_world_def)
qed

lemma talking_names_fresh:
  "uwf (m_remoteTx s) \<Longrightarrow> n \<in> talking_names s now \<longleftrightarrow> fresh_tx s now n \<noteq> None"
  by (force simp: talking_names_def fresh_tx_def uget_iff[symmetric] split: option.split)

text \<open>C9. \<open>IS_SPEAKING\<close> answers from the last snapshot: for another known player, the first digit
  says whether a transmission of that player was fresh then, the second whether that snapshot had a
  unit of that player other than direct speech; for an unknown player the answer is \<open>00\<close>.\<close>

theorem speaking_pair_after_snapshot:
  assumes "ext_inv s" "computeAudibleUnits m now s = Some (us, s')"
    and "convertNickname n \<noteq> m_myNickname s"
  shows "speakingPair s' n =
    (if uget (m_clients s) (convertNickname n) = None then ''00''
     else [bool_char (fresh_tx s now (convertNickname n) \<noteq> None),
           bool_char (\<exists>u \<in> set us. au_nickname u = convertNickname n \<and> au_fx u \<noteq> ''direct'')])"
proof -
  from assms(2) obtain rs where "us = units_of s rs" "s' = snapshot_state s now rs" by (rule snapshotE)
  moreover have "uwf (m_remoteTx s)" using assms(1) by (simp add: inv_defs)
  ultimately show ?thesis
    using assms(3)
    by (auto simp: speakingPair_def snapshot_state_def talking_names_fresh bool_char_def Let_def
        image_iff split: option.split)
qed

theorem speaking_pair_after_snapshot_witness:
  "\<exists>us s'. computeAudibleUnits axis_libm (ms 2000) world = Some (us, s') \<and> speakingPair s' ''B'' = ''11''"
proof -
  obtain s' where c: "computeAudibleUnits axis_libm (ms 2000) world = Some ([radio_unit_B, direct_unit_B], s')"
    using world_units by blast
  have n: "convertNickname ''B'' = ''B''" by (simp add: convertNickname_def)
  have "speakingPair s' ''B'' = ''11''"
    using speaking_pair_after_snapshot[OF world_inv c, of "''B''"]
    by (simp add: n world_def init_state_def fresh_tx_def radio_B_def kTxExpiry_def bool_char_def
        radio_unit_B_def new_unit_def)
  with c show ?thesis by blast
qed

text \<open>Who is heard on a long-range radio loud enough to lower the intercom.\<close>

definition lr_heard :: "ext_state \<Rightarrow> time \<Rightarrow> remoteClient \<Rightarrow> remoteClient \<Rightarrow> bool" where
  "lr_heard s now me other \<longleftrightarrow> \<not> rc_isSpectating other \<and>
     (\<exists>tx st. fresh_tx s now (rc_nickname other) = Some tx \<and>
        in_range tx (effectiveDistance s (extrapolatedPosition me now) other now)
          (antennaLoss s (extrapolatedPosition other now) (tx_range tx) (extrapolatedPosition me now)) \<and>
        receiving_setting s me tx = Some (st, True) \<and>
        subtypeToFx (tx_subtype tx) (flt (vz (extrapolatedPosition other now)) (Fin 0) \<and> \<not> rc_canUseSW other) \<noteq> None \<and>
        2 < fs_volume st)"

lemma radio_path_lr:
  "snd (radio_path m s me other p h tx e loss) \<longleftrightarrow>
     in_range tx e loss \<and> (\<exists>st. receiving_setting s me tx = Some (st, True) \<and>
       subtypeToFx (tx_subtype tx) (flt (vz h) (Fin 0) \<and> \<not> rc_canUseSW other) \<noteq> None \<and> 2 < fs_volume st)"
  by (auto simp: radio_path_def Let_def split: option.split)

lemma addAudible_lr:
  assumes "addAudibleForClient m s now me other = Some (us, lr)"
  shows "lr \<longleftrightarrow> lr_heard s now me other"
proof (cases "rc_isSpectating me \<and> rc_isSpectating other")
  case True
  then show ?thesis using assms by (auto simp: addAudibleForClient_def lr_heard_def Let_def)
next
  case False
  let ?p = "extrapolatedPosition me now" and ?h = "extrapolatedPosition other now"
  show ?thesis
  proof (cases "fresh_tx s now (rc_nickname other)")
    case None
    then show ?thesis using assms False
      by (auto simp: addAudibleForClient_def lr_heard_def Let_def bind_eq_Some_conv)
  next
    case (Some tx)
    then show ?thesis using assms False
      by (auto simp: addAudibleForClient_def lr_heard_def Let_def bind_eq_Some_conv
          radio_path_lr case_prod_unfold split: if_splits)
  qed
qed

lemma those_mapD: "those (map f xs) = Some ys \<Longrightarrow> map Some ys = map f xs"
proof (induction xs arbitrary: ys)
  case (Cons x xs)
  then show ?case by (cases "f x") (auto split: option.splits)
qed simp

text \<open>The intercom is ducked exactly when long-range traffic is heard: a snapshot leaves
  \<open>m_lrIncoming\<close> set if and only if some considered player is heard in range on the local
  long-range radio at a volume setting above 2.\<close>

theorem lr_ducking:
  assumes "computeAudibleUnits m now s = Some (us, s')"
  shows "m_lrIncoming s' \<longleftrightarrow>
    (\<exists>me. local_client s now = Some me \<and> (\<exists>other \<in> set (considered s now). lr_heard s now me other))"
proof -
  from assms obtain rs where rs: "client_results m now s = Some rs" "s' = snapshot_state s now rs"
    by (rule snapshotE)
  show ?thesis
  proof (cases "local_client s now")
    case None
    with rs show ?thesis by (simp add: client_results_def snapshot_state_def)
  next
    case (Some me)
    with rs have "those (map (addAudibleForClient m s now me) (considered s now)) = Some rs"
      by (simp add: client_results_def)
    from those_mapD[OF this] have mp: "map Some rs = map (addAudibleForClient m s now me) (considered s now)" .
    have "(\<exists>r \<in> set rs. snd r) \<longleftrightarrow> (\<exists>r \<in> set (map Some rs). snd (the r))" by auto
    also have "\<dots> \<longleftrightarrow> (\<exists>other \<in> set (considered s now). snd (the (addAudibleForClient m s now me other)))"
      unfolding mp by auto
    also have "\<dots> \<longleftrightarrow> (\<exists>other \<in> set (considered s now). lr_heard s now me other)"
    proof (rule bex_cong[OF refl])
      fix other assume "other \<in> set (considered s now)"
      then have "addAudibleForClient m s now me other \<in> set (map Some rs)" unfolding mp by auto
      then obtain r where "addAudibleForClient m s now me other = Some r" by auto
      with addAudible_lr[of m s now me other "fst r" "snd r"]
      show "snd (the (addAudibleForClient m s now me other)) = lr_heard s now me other" by simp
    qed
    finally show ?thesis using Some rs(2) by (simp add: snapshot_state_def)
  qed
qed

text \<open>Here B's transmission is on the short-wave radio, so the intercom keeps its volume.\<close>

theorem lr_ducking_witness:
  "\<exists>us s'. computeAudibleUnits axis_libm (ms 2000) world = Some (us, s') \<and> \<not> m_lrIncoming s'"
proof -
  obtain s' where c: "computeAudibleUnits axis_libm (ms 2000) world = Some ([radio_unit_B, direct_unit_B], s')"
    using world_units by blast
  have "\<not> lr_heard world (ms 2000) me other" for me other
    by (auto simp: lr_heard_def dest!: receiving_settingD(1)) (simp add: world_def init_state_def)
  with lr_ducking[OF c] c show ?thesis by blast
qed

text \<open>C7. The snapshot does not depend on the iteration order of the hash maps: for two orders of
  the same maps it returns the same units, as a multiset, and leaves the same flags.\<close>

theorem snapshot_order_independent:
  assumes "ext_inv s" "reordered s s'" "computeAudibleUnits m now s = Some (us, t)"
  shows "\<exists>us' t'. computeAudibleUnits m now s' = Some (us', t') \<and> mset us' = mset us \<and>
    m_lrIncoming t' = m_lrIncoming t \<and> m_talkingNames t' = m_talkingNames t \<and>
    m_receivingFrom t' = m_receivingFrom t \<and> m_receivingAnyRadio t' = m_receivingAnyRadio t"
proof -
  have wf: "uwf (m_clients s)" "uwf (m_remoteTx s)" "uwf (m_nameToUid s)" using assms(1) by (auto simp: inv_defs)
  from assms(3) obtain rs where rs: "client_results m now s = Some rs" "us = units_of s rs"
    "t = snapshot_state s now rs" by (rule snapshotE)
  from client_results_reordered[OF assms(2) wf(1,2) rs(1)] obtain rs' where
    rs': "client_results m now s' = Some rs'" "mset rs' = mset rs" by blast
  have ms: "mset (m_nameToUid s') = mset (m_nameToUid s)" "mset (m_remoteTx s') = mset (m_remoteTx s)"
    and s': "s' = s\<lparr>m_clients := m_clients s', m_remoteTx := m_remoteTx s', m_nameToUid := m_nameToUid s'\<rparr>"
    using assms(2) by (auto simp: reordered_def)
  have g: "m_globalVolume s' = m_globalVolume s" by (subst s') simp
  have "finish_unit s' = finish_unit s"
    by (intro ext) (simp add: finish_unit_def uidFor_def g uget_mset[OF ms(1) wf(3)])
  moreover have "mset (concat (map fst rs')) = mset (concat (map fst rs))"
    using rs'(2) by (simp add: mset_concat sum_mset_sum_list[symmetric] mset_map[symmetric] del: mset_map)
      (simp add: mset_map)
  ultimately have u: "mset (units_of s' rs') = mset us"
    by (simp add: units_of_def rs(2) mset_map)
  have "talking_names s' now = talking_names s now"
    using mset_eq_setD[OF ms(2)] by (simp add: talking_names_def)
  moreover have "set (units_of s' rs') = set (units_of s rs)" "set rs' = set rs"
    using mset_eq_setD[OF u] mset_eq_setD[OF rs'(2)] rs(2) by simp_all
  ultimately have "m_lrIncoming (snapshot_state s' now rs') = m_lrIncoming t \<and>
      m_talkingNames (snapshot_state s' now rs') = m_talkingNames t \<and>
      m_receivingFrom (snapshot_state s' now rs') = m_receivingFrom t \<and>
      m_receivingAnyRadio (snapshot_state s' now rs') = m_receivingAnyRadio t"
    by (simp add: rs(3) snapshot_state_def filter_empty_conv)
  with u rs'(1) show ?thesis by (simp add: computeAudibleUnits_eq)
qed

text \<open>The world with its players inserted in the other order.\<close>

definition world' :: ext_state where
  "world' = world\<lparr>m_clients := rev (m_clients world)\<rparr>"

theorem snapshot_order_independent_witness:
  "\<exists>us' t'. computeAudibleUnits axis_libm (ms 2000) world' = Some (us', t') \<and>
     mset us' = {#radio_unit_B, direct_unit_B#}"
proof -
  obtain t where c: "computeAudibleUnits axis_libm (ms 2000) world = Some ([radio_unit_B, direct_unit_B], t)"
    using world_units by blast
  have "reordered world world'" by (simp add: reordered_def world'_def)
  from snapshot_order_independent[OF world_inv this c] show ?thesis by auto
qed


section \<open>Antennas\<close>

text \<open>The relay loss by itself: which antennas can carry the link, and the loss over one of them.\<close>

definition eligible :: "vec3 \<Rightarrow> fp \<Rightarrow> vec3 \<Rightarrow> antennaData \<Rightarrow> bool" where
  "eligible sender mx to a \<longleftrightarrow> \<not> fle (an_range a) (Fin 0) \<and>
     flt (distanceTo (an_pos a) sender) mx \<and> flt (distanceTo (an_pos a) to) (an_range a)"

definition route_loss :: "vec3 \<Rightarrow> fp \<Rightarrow> vec3 \<Rightarrow> antennaData \<Rightarrow> fp" where
  "route_loss sender mx to a = add32 (div32 (distanceTo (an_pos a) to) (an_range a))
     (div32 (distanceTo (an_pos a) sender) mx)"

lemma antenna_step_alt:
  "antenna_step sender mx to a acc =
     (if eligible sender mx to a \<and> flt (route_loss sender mx to a) (fst acc)
      then (route_loss sender mx to a, True) else acc)"
  by (auto simp: antenna_step_def eligible_def route_loss_def Let_def)

lemma fold_antennas_least:
  assumes "fold (antenna_step sender mx to) as (l0, b0) = (l, b)"
  shows "(l = l0 \<and> b = b0 \<or> b \<and> flt l l0 \<and> (\<exists>a \<in> set as. eligible sender mx to a \<and> l = route_loss sender mx to a)) \<and>
    (\<forall>a \<in> set as. eligible sender mx to a \<longrightarrow> \<not> flt (route_loss sender mx to a) l)"
  using assms
proof (induction as arbitrary: l0 b0)
  case (Cons a as)
  show ?case
  proof (cases "eligible sender mx to a \<and> flt (route_loss sender mx to a) l0")
    case True
    let ?r = "route_loss sender mx to a"
    have "fold (antenna_step sender mx to) as (?r, True) = (l, b)"
      using Cons.prems True by (simp add: antenna_step_alt[of sender mx to a])
    from Cons.IH[OF this] True show ?thesis
      using flt_trans[of l ?r l0] flt_trans[of ?r l ?r] flt_irrefl[of ?r] by auto
  next
    case False
    then have "fold (antenna_step sender mx to) as (l0, b0) = (l, b)"
      using Cons.prems by (auto simp: antenna_step_alt[of sender mx to a])
    from Cons.IH[OF this] False show ?thesis
      using flt_trans[of "route_loss sender mx to a" l l0] by auto
  qed
qed simp

text \<open>C10. The antenna loop finds the best relay: the result is the least loss below 1 among the
  antennas that reach both ends, attained by one of them, or the sentinel 7 when there is none.\<close>

theorem antennaLoss_least:
  "if fle mx (Fin 0) \<or>
      (\<forall>a \<in> set (m_antennas s). eligible sender mx to a \<longrightarrow> \<not> flt (route_loss sender mx to a) (Fin 1))
   then antennaLoss s sender mx to = kNoAntennaLoss
   else (\<exists>a \<in> set (m_antennas s). eligible sender mx to a \<and>
          antennaLoss s sender mx to = route_loss sender mx to a) \<and>
        flt (antennaLoss s sender mx to) (Fin 1) \<and>
        (\<forall>a \<in> set (m_antennas s). eligible sender mx to a \<longrightarrow>
          \<not> flt (route_loss sender mx to a) (antennaLoss s sender mx to))"
proof -
  obtain l b where f: "fold (antenna_step sender mx to) (m_antennas s) (Fin 1, False) = (l, b)" by force
  from fold_antennas_least[OF f] f show ?thesis by (auto simp: antennaLoss_def)
qed

definition relay_world :: ext_state where
  "relay_world = init_state\<lparr>m_antennas :=
     [\<lparr>an_netId = ''a'', an_pos = vec (Fin 3) (Fin 4) (Fin 0), an_range = Fin 10\<rparr>,
      \<lparr>an_netId = ''b'', an_pos = vec (Fin 0) (Fin 0) (Fin 0), an_range = Fin 20\<rparr>]\<rparr>"

text \<open>Over \<open>b\<close> the link loses 10/20 + 0, over \<open>a\<close> more.\<close>

lemma relay_world_b:
  "eligible vzero (Fin 20) (vec (Fin 6) (Fin 8) (Fin 0)) (m_antennas relay_world ! 1)"
  "flt (route_loss vzero (Fin 20) (vec (Fin 6) (Fin 8) (Fin 0)) (m_antennas relay_world ! 1)) (Fin 1)"
  by code_simp+

theorem antennaLoss_least_witness:
  "flt (antennaLoss relay_world vzero (Fin 20) (vec (Fin 6) (Fin 8) (Fin 0))) (Fin 1)"
proof -
  have "m_antennas relay_world ! 1 \<in> set (m_antennas relay_world)" by (simp add: relay_world_def)
  with antennaLoss_least[of "Fin 20" relay_world vzero "vec (Fin 6) (Fin 8) (Fin 0)"] relay_world_b
  show ?thesis by (auto simp: cmp_fin split: if_splits)
qed

end
