(* ===== verification/CommandProps.thy ===== *)
theory CommandProps
  imports SolverProps
begin

text \<open>
  The extension seen from outside: interleavings of \<open>callExtension\<close> calls with what the voice
  threads do to the same state, the invariant over all of them, and the protocol-level behaviour
  (message formats, configuration requests, the not-connected reply, towers, transmissions).
\<close>

section \<open>Messages\<close>

definition command_of :: "string \<Rightarrow> string" where
  "command_of input = (if input \<noteq> [] \<and> last input = CHR ''~'' then firstToken (butlast input) else [])"

lemma tab_char: "tab = Char True False False True False False False False"
  by (simp add: tab_def char_of_def)

lemma firstToken_join: "tab \<notin> set c \<Longrightarrow> firstToken (join tab (c # ts)) = c"
proof (cases ts)
  case (Cons t us)
  assume "tab \<notin> set c"
  then show ?thesis unfolding Cons firstToken_def by (induction c) auto
qed (simp add: firstToken_def, metis takeWhile_eq_all_conv)

text \<open>An async message of tab-separated tokens reaches its handler as exactly those tokens.\<close>

lemma process_message:
  assumes "ts \<noteq> []" "\<forall>t \<in> set ts. tab \<notin> set t"
  shows "command_of (join tab ts @ ''~'') = hd ts" "split (join tab ts) tab = ts"
    "splitLimit (join tab ts) tab n = take n ts"
  using assms firstToken_join[of "hd ts" "tl ts"] pieces_join[OF assms]
  by (auto simp: command_of_def split_pieces splitLimit_take)

lemma process_async:
  "process m ov now (s @ ''~'') p =
     (let p' = processAsync m now (firstToken s) s p
      in if firstToken s = ''DFRAME'' then
           (case needsConfig now (p_state p') of (ask, s) \<Rightarrow>
              (if ask then ''NEEDCFG'' else ''OK'', p'\<lparr>p_state := s\<rparr>))
         else if firstToken s = ''MISSIONEND'' then ([], p')
         else if firstToken s = ''POS'' then pos_reply now p'
         else (''OK'', p'))"
  by (simp add: process_def Let_def)

lemma pos_reply_state [simp]: "p_state (snd (pos_reply now p)) = p_state p" "p_voice (snd (pos_reply now p)) = p_voice p"
  by (auto simp: pos_reply_def)

text \<open>A POS message with fourteen fields or more for a non-empty nickname updates exactly that
  player's entry, with the fields parsed from the message and the time of the call, and nothing
  else of the state.\<close>

theorem pos_message:
  assumes "\<forall>t \<in> set ts. tab \<notin> set t" "14 \<le> length ts" "ts ! 0 = ''POS''" "convertNickname (ts ! 1) \<noteq> []"
  shows "\<exists>c. p_state (snd (process m ov now (join tab ts @ ''~'') p)) =
      (p_state p)\<lparr>m_clients := uput (convertNickname (ts ! 1)) c (m_clients (p_state p))\<rparr> \<and>
    rc_nickname c = convertNickname (ts ! 1) \<and> rc_lastUpdate c = now \<and> \<not> rc_dead c \<and>
    rc_position c = parseVec3 (ts ! 2) \<and> rc_viewDirection c = parseVec3 (ts ! 3) \<and>
    rc_canSpeak c = isTrue (ts ! 4) \<and> rc_canUseSW c = isTrue (ts ! 5) \<and>
    rc_canUseLR c = isTrue (ts ! 6) \<and> rc_canUseDD c = isTrue (ts ! 7) \<and>
    rc_vehicle c = parseVehicle m (ts ! 8) \<and> rc_isSpectating c = isTrue (ts ! 12) \<and>
    rc_isEnemyToPlayer c = isTrue (ts ! 13)"
proof -
  have ne: "ts \<noteq> []" using assms(2) by auto
  have hd: "hd ts = ''POS''" using assms(3) ne by (simp add: hd_conv_nth)
  note pm = process_message[OF ne assms(1)]
  have f: "firstToken (join tab ts) = ''POS''" using pm(1) hd by (simp add: command_of_def)
  have "p_state (snd (process m ov now (join tab ts @ ''~'') p)) = handlePos m now ts (p_state p)"
    by (simp add: process_async f processAsync_def pm(2) Let_def)
  with assms(2,4) show ?thesis
    by (intro exI[of _ "the (uget (m_clients (handlePos m now ts (p_state p))) (convertNickname (ts ! 1)))"])
      (simp add: handlePos_def Let_def umap_simps)
qed

definition pos_tokens :: "string list" where
  "pos_tokens = [''POS'', ''B'', ''[1,2,3]'', ''[0,1,0]'', ''true'', ''true'', ''false'', ''false'',
     ''no'', ''0'', ''1'', ''0'', ''false'', ''false'']"

theorem pos_message_witness:
  "\<exists>c. p_state (snd (process axis_libm [] (ms 5) (join tab pos_tokens @ ''~'')
        \<lparr>p_state = init_state, p_voice = undefined, p_disconnectedSince = 0\<rparr>)) =
     init_state\<lparr>m_clients := [(''B'', c)]\<rparr>"
  using pos_message[of pos_tokens axis_libm "[]" "ms 5"
      "\<lparr>p_state = init_state, p_voice = undefined, p_disconnectedSince = 0\<rparr>"]
  by (auto simp: pos_tokens_def tab_char convertNickname_def init_state_def)

text \<open>\<open>IS_SPEAKING_BULK\<close> answers with one two-digit pair and a tab per name, in the order asked
  for; each pair is the answer \<open>IS_SPEAKING\<close> gives for that name.\<close>

theorem bulk_reply:
  assumes "\<forall>n \<in> set names. tab \<notin> set n" "names \<noteq> []" "last names \<noteq> [] \<longrightarrow> last (last names) \<noteq> CHR ''~''"
  shows "process m ov now (join tab (''IS_SPEAKING_BULK'' # names)) p =
      (concat (map (\<lambda>n. speakingPair (p_state p) n @ [tab]) names), p) \<and>
    length (fst (process m ov now (join tab (''IS_SPEAKING_BULK'' # names)) p)) = 3 * length names"
proof -
  let ?ts = "''IS_SPEAKING_BULK'' # names"
  have t: "\<forall>t \<in> set ?ts. tab \<notin> set t" using assms(1) by (auto simp: tab_char)
  have last_join: "us \<noteq> [] \<Longrightarrow> last (join tab us) = (if last us = [] then (if length us = 1 then last [] else tab) else last (last us))"
    for us by (induction tab us rule: join.induct) (auto simp: join_Cons split: if_splits)
  have ne: "join tab ?ts \<noteq> []" using assms(2) by (cases names) auto
  have l: "last (join tab ?ts) \<noteq> CHR ''~''"
    using last_join[of ?ts] assms(2,3) by (auto simp: tab_char)
  have "process m ov now (join tab ?ts) p = (concat (map (\<lambda>n. speakingPair (p_state p) n @ [tab]) names), p)"
    using ne l process_message(2)[OF _ t] firstToken_join[of "''IS_SPEAKING_BULK''" names] t
    by (simp add: process_def processSync_def Let_def)
  moreover have "length (concat (map (\<lambda>n. speakingPair s n @ [tab]) ns)) = 3 * length ns" for s ns
    by (induction ns) (auto simp: speakingPair_def Let_def split: option.split)
  ultimately show ?thesis by simp
qed

theorem bulk_reply_witness:
  "fst (process axis_libm [] 0 (join tab [''IS_SPEAKING_BULK'', ''A'', ''X''])
     \<lparr>p_state = world, p_voice = undefined, p_disconnectedSince = 0\<rparr>) = ''00'' @ [tab] @ ''00'' @ [tab]"
proof -
  have "speakingPair world ''A'' = ''00''" "speakingPair world ''X'' = ''00''"
    by (simp_all add: speakingPair_def convertNickname_def world_def init_state_def Let_def)
  with bulk_reply[of "[''A'', ''X'']" axis_libm "[]" 0
      "\<lparr>p_state = world, p_voice = undefined, p_disconnectedSince = 0\<rparr>"]
  show ?thesis by (simp add: tab_char)
qed


section \<open>Interleavings\<close>

text \<open>
  The game thread's calls, with their replies, and what the voice threads do to the shared state
  between them. Each event is one critical section of \<open>m_mutex\<close>, but for a POS call, whose handler
  and reply are two; only the reply of a POS call depends on the voice flags.
\<close>

datatype sys_event =
    Call string string
  | RemoteTxEvent string bool string fp string
  | ConnectedEvent bool
  | TransmittingEvent bool
  | OverrideTaken "bool option option"
  | SnapshotTaken "audibleUnit list"
  | FlagsChanged voice_flags

inductive sys_step :: "libm \<Rightarrow> string \<Rightarrow> time \<Rightarrow> sys_event \<Rightarrow> processor \<Rightarrow> processor \<Rightarrow> bool"
  for m :: libm and ov :: string and now :: time where
  call: "process m ov now input p = (reply, p') \<Longrightarrow> sys_step m ov now (Call input reply) p p'"
| remote_tx: "sys_step m ov now (RemoteTxEvent uid active freq rng st) p
    (p\<lparr>p_state := setRemoteTx now uid active freq rng st (p_state p)\<rparr>)"
| connected: "sys_step m ov now (ConnectedEvent b) p (p\<lparr>p_state := setVoiceConnected b (p_state p)\<rparr>)"
| transmitting: "sys_step m ov now (TransmittingEvent b) p (p\<lparr>p_state := setLocalTransmitting b (p_state p)\<rparr>)"
| override: "takeTransmitOverride (p_state p) = (ovr, s') \<Longrightarrow>
    sys_step m ov now (OverrideTaken ovr) p (p\<lparr>p_state := s'\<rparr>)"
| snapshot: "computeAudibleUnits m now (p_state p) = Some (us, s') \<Longrightarrow>
    sys_step m ov now (SnapshotTaken us) p (p\<lparr>p_state := s'\<rparr>)"
| flags: "sys_step m ov now (FlagsChanged v) p (p\<lparr>p_voice := v\<rparr>)"

inductive_cases sys_callE: "sys_step m ov now (Call input reply) p p'"
inductive_simps sys_step_simps:
  "sys_step m ov now (Call input reply) p p'"
  "sys_step m ov now (RemoteTxEvent uid active freq rng st) p p'"
  "sys_step m ov now (ConnectedEvent b) p p'"
  "sys_step m ov now (TransmittingEvent b) p p'"
  "sys_step m ov now (OverrideTaken ovr) p p'"
  "sys_step m ov now (SnapshotTaken us) p p'"
  "sys_step m ov now (FlagsChanged v) p p'"

text \<open>A run: timed events, the clock never going back.\<close>

inductive sys_run :: "libm \<Rightarrow> string \<Rightarrow> (time \<times> sys_event) list \<Rightarrow> processor \<Rightarrow> processor \<Rightarrow> bool"
  for m :: libm and ov :: string where
  nothing: "sys_run m ov [] p p"
| more: "sys_step m ov t e p q \<Longrightarrow> sys_run m ov es q r \<Longrightarrow> (\<forall>(t', _) \<in> set es. t \<le> t') \<Longrightarrow>
    sys_run m ov ((t, e) # es) p r"

inductive_simps sys_run_simps: "sys_run m ov [] p r" "sys_run m ov ((t, e) # es) p r"

lemma sys_run_append:
  "sys_run m ov (es @ fs) p r \<Longrightarrow> \<exists>q. sys_run m ov es p q \<and> sys_run m ov fs q r"
proof (induction es arbitrary: p)
  case Nil
  then show ?case by (auto intro: sys_run.nothing)
next
  case (Cons te es)
  obtain t e where te: "te = (t, e)" by force
  from Cons.prems obtain q where q: "sys_step m ov t e p q" "sys_run m ov (es @ fs) q r"
    "\<forall>(t', _) \<in> set (es @ fs). t \<le> t'" by (auto simp: te sys_run_simps)
  from Cons.IH[OF q(2)] q(1,3) show ?case
    by (auto simp: te sys_run_simps)
qed

lemma sys_run_mono: "sys_run m ov ((t, e) # es) p r \<Longrightarrow> (t', e') \<in> set es \<Longrightarrow> t \<le> t'"
  by (auto simp: sys_run_simps)

lemma sys_step_inv: "sys_step m ov t e p q \<Longrightarrow> ext_inv (p_state p) \<Longrightarrow> ext_inv (p_state q)"
proof (induction rule: sys_step.induct)
  case (call input p reply p')
  then show ?case using process_inv[of p m ov t input] by simp
next
  case (override p ovr s')
  then show ?case using takeTransmitOverride_inv[of "p_state p"] by simp
qed (simp_all add: step_inv)

lemma sys_run_inv: "sys_run m ov es p q \<Longrightarrow> ext_inv (p_state p) \<Longrightarrow> ext_inv (p_state q)"
  by (induction rule: sys_run.induct) (blast dest: sys_step_inv)+

text \<open>The state a freshly loaded extension has.\<close>

definition start :: "voice_flags \<Rightarrow> processor" where
  "start v = \<lparr>p_state = init_state, p_voice = v, p_disconnectedSince = 0\<rparr>"

text \<open>C6. Under every interleaving of game calls with the voice threads the state stays well formed:
  unique map keys that agree with the entries, positive speak ranges, transmissions with a
  frequency, antennas with distinct ids, only known configuration keys, and an announced radio
  range between 0 and 200 km.\<close>

theorem reachable_state_invariant:
  assumes "sys_run m ov es (start v) p"
  shows "ext_inv (p_state p) \<and> tx_range_ok (lt_range (get_localTxState (p_state p)))"
proof -
  from sys_run_inv[OF assms] have "ext_inv (p_state p)" by (simp add: start_def ext_inv_init)
  then show ?thesis by (auto simp: get_localTxState_def inv_defs)
qed

definition idle_flags :: voice_flags where
  "idle_flags = \<lparr>v_connected = False, v_pttHeld = False, v_micMuted = False, v_transmitting = False,
     v_speakerMuted = False\<rparr>"

theorem reachable_state_invariant_witness:
  "ext_inv (p_state (snd (process axis_libm [] (ms 5) (join tab pos_tokens @ ''~'') (start idle_flags))))"
proof -
  let ?c = "process axis_libm [] (ms 5) (join tab pos_tokens @ ''~'') (start idle_flags)"
  have "sys_run axis_libm [] [(ms 5, Call (join tab pos_tokens @ ''~'') (fst ?c))] (start idle_flags) (snd ?c)"
    by (simp add: sys_run_simps sys_step_simps)
  from reachable_state_invariant[OF this] show ?thesis by simp
qed

section \<open>Configuration requests\<close>

text \<open>Only SETCFG and MISSIONEND touch the two fields.\<close>

abbreviation config_status :: "ext_state \<Rightarrow> bool \<times> time" where
  "config_status s \<equiv> (m_haveConfig s, m_configRequestedAt s)"

lemma config_kept:
  "config_status (handlePos m now ts s) = config_status s"
  "config_status (handleFreq m ts s) = config_status s"
  "config_status (handleTangent ts s) = config_status s"
  "config_status (handleSpeakers m ts s) = config_status s"
  "config_status (handleKilled n s) = config_status s"
  "config_status (handleUid n u s) = config_status s"
  "config_status (handleReleaseAllTangents n s) = config_status s"
  "config_status (handleAddRadioTowers pl s) = config_status s"
  "config_status (handleDelRadioTowers pl s) = config_status s"
  "config_status (handleDataFrame s) = config_status s"
  "config_status (setRemoteTx now u a f r st s) = config_status s"
  "config_status (setVoiceConnected b s) = config_status s"
  "config_status (setLocalTransmitting b s) = config_status s"
  "config_status (snd (takeTransmitOverride s)) = config_status s"
  by (simp_all add: handlePos_def handleFreq_def handleTangent_def handleSpeakers_def handleKilled_def
      handleUid_def handleReleaseAllTangents_def handleAddRadioTowers_def handleDelRadioTowers_def
      handleDataFrame_def queueLocalMessage_def setRemoteTx_def setVoiceConnected_def
      setLocalTransmitting_def takeTransmitOverride_def Let_def split: option.split)

lemma config_kept_snapshot: "computeAudibleUnits m now s = Some (us, s') \<Longrightarrow> config_status s' = config_status s"
  by (auto simp: computeAudibleUnits_eq snapshot_state_def)

lemma config_setcfg: "config_status (handleSetCfg ts s) \<in> {config_status s, (True, m_configRequestedAt s)}"
  by (simp add: handleSetCfg_def Let_def)

lemma processAsync_config:
  assumes "command \<noteq> ''MISSIONEND''"
  shows "config_status (p_state (processAsync m now command pl p)) \<in>
    {config_status (p_state p), (True, m_configRequestedAt (p_state p))}"
  using assms config_setcfg[of "splitLimit pl tab 4" "p_state p"] config_kept[unfolded prod.inject]
  by (simp add: processAsync_def Let_def)


definition mission_end :: "sys_event \<Rightarrow> bool" where
  "mission_end e \<longleftrightarrow> (\<exists>i r. e = Call i r \<and> command_of i = ''MISSIONEND'')"

lemma command_of_async [simp]: "command_of (s @ ''~'') = firstToken s"
  by (simp add: command_of_def)

lemma process_cases:
  "(\<exists>s. input = s @ ''~'' \<and> command_of input = firstToken s) \<or>
   command_of input = [] \<and> snd (process m ov now input p) = p"
proof (cases "input \<noteq> [] \<and> last input = CHR ''~''")
  case True
  then have "input = butlast input @ ''~''" by (metis append_butlast_last_id)
  with True show ?thesis by (auto simp: command_of_def)
qed (auto simp: command_of_def process_def)

lemma process_config:
  assumes "command_of input \<noteq> ''MISSIONEND''"
  shows "m_haveConfig (p_state p) \<longrightarrow> m_haveConfig (p_state (snd (process m ov now input p)))"
    "m_configRequestedAt (p_state (snd (process m ov now input p))) \<in> {m_configRequestedAt (p_state p), now}"
proof -
  have "(m_haveConfig (p_state p) \<longrightarrow> m_haveConfig (p_state (snd (process m ov now input p)))) \<and>
    m_configRequestedAt (p_state (snd (process m ov now input p))) \<in> {m_configRequestedAt (p_state p), now}"
    using process_cases[of input m ov now p]
  proof
    assume "\<exists>s. input = s @ ''~'' \<and> command_of input = firstToken s"
    then obtain s where s: "input = s @ ''~''" "command_of input = firstToken s" by blast
    from processAsync_config[of "firstToken s" m now s p] assms s(2)
    show ?thesis
      by (auto simp: s(1) process_async Let_def needsConfig_def)
  qed auto
  then show "m_haveConfig (p_state p) \<longrightarrow> m_haveConfig (p_state (snd (process m ov now input p)))"
    "m_configRequestedAt (p_state (snd (process m ov now input p))) \<in> {m_configRequestedAt (p_state p), now}"
    by blast+
qed

lemma sys_step_config:
  assumes "sys_step m ov t e p q" "\<not> mission_end e"
  shows "m_haveConfig (p_state p) \<longrightarrow> m_haveConfig (p_state q)"
    "m_configRequestedAt (p_state q) \<in> {m_configRequestedAt (p_state p), t}"
proof -
  have "(m_haveConfig (p_state p) \<longrightarrow> m_haveConfig (p_state q)) \<and>
    m_configRequestedAt (p_state q) \<in> {m_configRequestedAt (p_state p), t}"
    using assms
  proof (induction rule: sys_step.induct)
    case (call input p reply p')
    then show ?case using process_config[where input = input and p = p and m = m and ov = ov and now = t] by (auto simp: mission_end_def)
  next
    case (override p ovr s')
    then show ?case using config_kept(14)[of "p_state p"] by auto
  next
    case (snapshot p us s')
    then show ?case using config_kept_snapshot[OF snapshot(1)] by auto
  qed (use config_kept in auto)
  then show "m_haveConfig (p_state p) \<longrightarrow> m_haveConfig (p_state q)"
    "m_configRequestedAt (p_state q) \<in> {m_configRequestedAt (p_state p), t}" by blast+
qed

lemma sys_run_config:
  assumes "sys_run m ov es p q" "\<forall>(t, e) \<in> set es. \<not> mission_end e"
  shows "m_haveConfig (p_state p) \<longrightarrow> m_haveConfig (p_state q)"
    "\<forall>(t, e) \<in> set es. t0 \<le> t \<Longrightarrow> t0 \<le> m_configRequestedAt (p_state p) \<Longrightarrow> t0 \<le> m_configRequestedAt (p_state q)"
  using assms
proof (induction rule: sys_run.induct)
  case (more t e p q es r)
  {
    case 1
    with more sys_step_config[OF more(1)] show ?case by auto
  next
    case 2
    with more sys_step_config[OF more(1)] show ?case by (auto split: prod.splits)
  }
qed auto

lemma process_dframe:
  assumes "command_of input = ''DFRAME''"
  shows "process m ov now input p =
    (if fst (needsConfig now (p_state p)) then ''NEEDCFG'' else ''OK'', p\<lparr>p_state := snd (needsConfig now (p_state p))\<rparr>)"
proof -
  obtain s where "input = s @ ''~''" "firstToken s = ''DFRAME''"
    using process_cases[of input] assms by (metis list.distinct(1))
  then show ?thesis
    by (simp add: process_async processAsync_def handleDataFrame_def Let_def case_prod_unfold)
qed

text \<open>C11. The configuration is asked for at most every three seconds: under every interleaving, two
  \<open>NEEDCFG\<close> replies to DFRAME calls with no MISSIONEND between them are at least three seconds
  apart.\<close>

theorem needcfg_throttled:
  assumes "sys_run m ov (a @ (t1, Call i1 ''NEEDCFG'') # b @ (t2, Call i2 ''NEEDCFG'') # c) p r"
    and "command_of i1 = ''DFRAME''" "command_of i2 = ''DFRAME''"
    and "\<forall>(t, e) \<in> set b. \<not> mission_end e" "0 < t1"
  shows "ms 3000 \<le> t2 - t1"
proof -
  from sys_run_append[OF assms(1)] obtain q1 where
    q1: "sys_run m ov ((t1, Call i1 ''NEEDCFG'') # b @ (t2, Call i2 ''NEEDCFG'') # c) q1 r" by blast
  then obtain q2 where q2: "process m ov t1 i1 q1 = (''NEEDCFG'', q2)"
    "sys_run m ov (b @ (t2, Call i2 ''NEEDCFG'') # c) q2 r"
    "\<forall>(t, e) \<in> set (b @ (t2, Call i2 ''NEEDCFG'') # c). t1 \<le> t"
    by (auto simp: sys_run_simps sys_step_simps)
  from sys_run_append[OF q2(2)] obtain q3 q4 where q3: "sys_run m ov b q2 q3"
    "process m ov t2 i2 q3 = (''NEEDCFG'', q4)"
    by (auto simp: sys_run_simps sys_step_simps)
  have "m_configRequestedAt (p_state q2) = t1"
    using q2(1) by (auto simp: process_dframe[OF assms(2)] needsConfig_def split: if_splits)
  then have "t1 \<le> m_configRequestedAt (p_state q3)"
    using sys_run_config(2)[OF q3(1) assms(4), of t1] q2(3) by auto
  with q3(2) assms(5) show ?thesis
    by (auto simp: process_dframe[OF assms(3)] needsConfig_def split: if_splits)
qed

theorem needcfg_throttled_witness:
  "\<exists>p r. sys_run axis_libm [] [(ms 5, Call ''DFRAME~'' ''NEEDCFG''), (ms 6, Call ''DFRAME~'' ''OK''),
      (ms 3005, Call ''DFRAME~'' ''NEEDCFG'')] p r \<and> ms 3000 \<le> ms 3005 - ms (5 :: int)"
proof -
  have d: "command_of ''DFRAME~'' = ''DFRAME''" by (simp add: command_of_def firstToken_def tab_char)
  let ?p = "start idle_flags"
  let ?s = "init_state\<lparr>m_configRequestedAt := ms 5\<rparr>"
  have r: "sys_run axis_libm [] ([] @ (ms 5, Call ''DFRAME~'' ''NEEDCFG'') # [(ms 6, Call ''DFRAME~'' ''OK'')] @
      (ms 3005, Call ''DFRAME~'' ''NEEDCFG'') # []) ?p (?p\<lparr>p_state := ?s\<lparr>m_configRequestedAt := ms 3005\<rparr>\<rparr>)"
    by (simp add: sys_run_simps sys_step_simps process_dframe[OF d] needsConfig_def start_def init_state_def)
  from needcfg_throttled[OF r d d] have "ms 3000 \<le> ms 3005 - ms (5 :: int)"
    by (simp add: mission_end_def d)
  with r show ?thesis by auto
qed

text \<open>Once a setting was accepted the extension stops asking: with \<open>m_haveConfig\<close> set, no DFRAME
  call is answered \<open>NEEDCFG\<close> until a MISSIONEND, whatever happens in between.\<close>

theorem no_needcfg_after_config:
  assumes "sys_run m ov (b @ [(t, Call i reply)]) p r" "m_haveConfig (p_state p)"
    and "\<forall>(t, e) \<in> set b. \<not> mission_end e" "command_of i = ''DFRAME''"
  shows "reply = ''OK''"
proof -
  from sys_run_append[OF assms(1)] obtain q where q: "sys_run m ov b p q" "process m ov t i q = (reply, r)"
    by (auto simp: sys_run_simps sys_step_simps)
  from sys_run_config(1)[OF q(1) assms(3)] assms(2) q(2) show ?thesis
    by (auto simp: process_dframe[OF assms(4)] needsConfig_def)
qed

definition configured :: processor where
  "configured = snd (process axis_libm [] 1 (join tab [''SETCFG'', ''full_duplex'', ''false'', ''BOOL''] @ ''~'')
     (start idle_flags))"

theorem no_needcfg_after_config_witness:
  "m_haveConfig (p_state configured) \<and> fst (process axis_libm [] 2 ''DFRAME~'' configured) = ''OK''"
proof -
  have d: "command_of ''DFRAME~'' = ''DFRAME''" by (simp add: command_of_def firstToken_def tab_char)
  have h: "m_haveConfig (p_state configured)" by code_simp
  have "sys_run axis_libm [] ([] @ [(2, Call ''DFRAME~'' (fst (process axis_libm [] 2 ''DFRAME~'' configured)))])
      configured (snd (process axis_libm [] 2 ''DFRAME~'' configured))"
    by (simp add: sys_run_simps sys_step_simps)
  from no_needcfg_after_config[OF this h _ d] h show ?thesis by simp
qed


section \<open>The not-connected reply\<close>

definition pos_call :: "sys_event \<Rightarrow> bool" where
  "pos_call e \<longleftrightarrow> (\<exists>i r. e = Call i r \<and> command_of i = ''POS'')"

lemma processAsync_since: "p_disconnectedSince (processAsync m now command pl p) = p_disconnectedSince p"
  by (simp add: processAsync_def Let_def)

text \<open>Only POS calls move the start of an outage.\<close>

lemma sys_step_since:
  assumes "sys_step m ov t e p q"
  shows "p_disconnectedSince q =
    (if \<not> pos_call e then p_disconnectedSince p
     else if v_connected (p_voice p) then 0
     else if p_disconnectedSince p = 0 then t else p_disconnectedSince p)"
  using assms
proof (induction rule: sys_step.induct)
  case (call input p reply p')
  show ?case using process_cases[of input m ov t p]
  proof
    assume "\<exists>s. input = s @ ''~'' \<and> command_of input = firstToken s"
    then obtain s where s: "input = s @ ''~''" "command_of input = firstToken s" by blast
    have v: "v_connected (p_voice (processAsync m t ''POS'' s p)) = v_connected (p_voice p)"
      by (simp add: processAsync_def)
    from call show ?thesis
      by (auto simp: s process_async Let_def processAsync_since pos_call_def pos_reply_def v
          split: if_splits prod.splits)
  qed (use call in \<open>auto simp: pos_call_def\<close>)
qed (auto simp: pos_call_def)

definition disconnected_throughout ::
    "libm \<Rightarrow> string \<Rightarrow> processor \<Rightarrow> (time \<times> sys_event) list \<Rightarrow> bool" where
  "disconnected_throughout m ov p es \<longleftrightarrow>
     (\<forall>a t e b q. es = a @ (t, e) # b \<and> pos_call e \<and> sys_run m ov a p q \<longrightarrow> \<not> v_connected (p_voice q))"

lemma sys_step_det: "sys_step m ov t e p q \<Longrightarrow> sys_step m ov t e p r \<Longrightarrow> r = q"
  by (induction rule: sys_step.induct) (auto simp: sys_step_simps)

lemma sys_run_det: "sys_run m ov es p q \<Longrightarrow> sys_run m ov es p r \<Longrightarrow> r = q"
proof (induction arbitrary: r rule: sys_run.induct)
  case (more t e p q es s)
  from more.prems obtain q' where "sys_step m ov t e p q'" "sys_run m ov es q' r"
    by (auto simp: sys_run_simps)
  with more.IH sys_step_det[OF more.hyps(1)] show ?case by blast
qed (simp add: sys_run_simps)

lemma disconnected_throughout_snoc:
  assumes "disconnected_throughout m ov p es" "sys_run m ov es p q" "pos_call e \<Longrightarrow> \<not> v_connected (p_voice q)"
  shows "disconnected_throughout m ov p (es @ [(t, e)])"
  unfolding disconnected_throughout_def
proof (intro allI impI)
  fix a' t' e' b' q'
  assume as: "es @ [(t, e)] = a' @ (t', e') # b' \<and> pos_call e' \<and> sys_run m ov a' p q'"
  show "\<not> v_connected (p_voice q')"
  proof (cases b' rule: rev_cases)
    case Nil
    with as have "a' = es" "e' = e" by auto
    with as assms(3) sys_run_det[OF assms(2)] show ?thesis by blast
  next
    case (snoc b'' y)
    with as have "es = a' @ (t', e') # b''" by (metis Cons_eq_appendI append_assoc butlast_snoc)
    with as assms(1) show ?thesis unfolding disconnected_throughout_def by blast
  qed
qed

lemma sys_run_since:
  assumes "sys_run m ov es p q" "p_disconnectedSince p = 0" "p_disconnectedSince q \<noteq> 0"
  shows "\<exists>a e b p1. es = a @ (p_disconnectedSince q, e) # b \<and> pos_call e \<and> sys_run m ov a p p1 \<and>
    disconnected_throughout m ov p1 ((p_disconnectedSince q, e) # b)"
  using assms
proof (induction es arbitrary: q rule: rev_induct)
  case Nil
  then show ?case by (simp add: sys_run_simps)
next
  case (snoc te es)
  obtain t e where te: "te = (t, e)" by force
  from sys_run_append[OF snoc.prems(1)] obtain q0 where q0: "sys_run m ov es p q0" "sys_step m ov t e q0 q"
    by (auto simp: te sys_run_simps)
  note st = sys_step_since[OF q0(2)]
  show ?case
  proof (cases "p_disconnectedSince q0 = 0")
    case True
    with st snoc.prems(3) have pe: "pos_call e" "\<not> v_connected (p_voice q0)" "p_disconnectedSince q = t"
      by (auto split: if_splits)
    then have "disconnected_throughout m ov q0 [(t, e)]"
      by (auto simp: disconnected_throughout_def sys_run_simps append_eq_Cons_conv Cons_eq_append_conv)
    with pe q0(1) te show ?thesis by blast
  next
    case False
    from snoc.IH[OF q0(1) snoc.prems(2) False] obtain a e0 b p1 where h:
      "es = a @ (p_disconnectedSince q0, e0) # b" "pos_call e0" "sys_run m ov a p p1"
      "disconnected_throughout m ov p1 ((p_disconnectedSince q0, e0) # b)" by blast
    have eq: "p_disconnectedSince q = p_disconnectedSince q0" and nc: "pos_call e \<Longrightarrow> \<not> v_connected (p_voice q0)"
      using st snoc.prems(3) False by (auto split: if_splits)
    from sys_run_append[OF q0(1)[unfolded h(1)]] obtain p2 where
      p2: "sys_run m ov a p p2" "sys_run m ov ((p_disconnectedSince q0, e0) # b) p2 q0" by blast
    have r: "sys_run m ov ((p_disconnectedSince q0, e0) # b) p1 q0"
      using p2 sys_run_det[OF h(3) p2(1)] by simp
    have "disconnected_throughout m ov p1 (((p_disconnectedSince q0, e0) # b) @ [(t, e)])"
      by (rule disconnected_throughout_snoc[OF h(4) r nc])
    with h eq te show ?thesis by (intro exI[of _ a] exI[of _ e0] exI[of _ "b @ [te]"] exI[of _ p1]) simp
  qed
qed

text \<open>C12. The game is told that voice is not connected only after a real outage: when a POS call is
  answered so, at least ten seconds earlier a POS call was made, and the voice connection was down
  at that call, at this one, and at every POS call in between.\<close>

theorem not_connected_reply_after_grace:
  assumes "sys_run m ov (es @ [(t, Call i kNotConnected)]) p r" "p_disconnectedSince p = 0"
    and "command_of i = ''POS''"
  shows "\<exists>a t0 e0 b p1. es = a @ (t0, e0) # b \<and> pos_call e0 \<and> sys_run m ov a p p1 \<and> ms 10000 \<le> t - t0 \<and>
    disconnected_throughout m ov p1 ((t0, e0) # b @ [(t, Call i kNotConnected)])"
proof -
  from sys_run_append[OF assms(1)] obtain q where q: "sys_run m ov es p q" "process m ov t i q = (kNotConnected, r)"
    by (auto simp: sys_run_simps sys_step_simps)
  obtain s where s: "i = s @ ''~''" "firstToken s = ''POS''"
    using process_cases[of i] assms(3) by (metis list.distinct(1))
  have d: "p_disconnectedSince q \<noteq> 0" "ms 10000 \<le> t - p_disconnectedSince q" "r = processAsync m t ''POS'' s q"
    using q(2) by (auto simp: s process_async Let_def pos_reply_def kNotConnected_def processAsync_since
        kNotConnectedGrace_def split: if_splits)
  then have "p_disconnectedSince r = p_disconnectedSince q" by (simp add: processAsync_since)
  with sys_run_since[OF assms(1,2)] d(1) obtain a e0 b p1 where h:
    "es @ [(t, Call i kNotConnected)] = a @ (p_disconnectedSince q, e0) # b" "pos_call e0" "sys_run m ov a p p1"
    "disconnected_throughout m ov p1 ((p_disconnectedSince q, e0) # b)" by auto
  have "t \<noteq> p_disconnectedSince q" using d(2) by auto
  then obtain b' where b: "b = b' @ [(t, Call i kNotConnected)]" "es = a @ (p_disconnectedSince q, e0) # b'"
    using h(1) by (cases b rule: rev_cases) auto
  with h d(2) show ?thesis by blast
qed

theorem not_connected_reply_after_grace_witness:
  "\<exists>r. sys_run axis_libm [] [(ms 5, Call ''POS~'' ''OK''), (ms 10005, Call ''POS~'' kNotConnected)] (start idle_flags) r \<and>
     disconnected_throughout axis_libm [] (start idle_flags)
       [(ms 5, Call ''POS~'' ''OK''), (ms 10005, Call ''POS~'' kNotConnected)]"
proof -
  have d: "command_of ''POS~'' = ''POS''" by (simp add: command_of_def firstToken_def tab_char)
  have s: "split ''POS'' tab = [''POS'']" by (simp add: split_pieces tab_char)
  have p: "process axis_libm [] now ''POS~'' p = pos_reply now p" for now p
    using process_async[of axis_libm "[]" now "''POS''" p]
    by (simp add: firstToken_def tab_char[symmetric] processAsync_def s handlePos_def) (simp add: tab_char processAsync_def s handlePos_def)
  let ?r = "(start idle_flags)\<lparr>p_disconnectedSince := ms 5\<rparr>"
  have r: "sys_run axis_libm [] ([(ms 5, Call ''POS~'' ''OK'')] @ [(ms 10005, Call ''POS~'' kNotConnected)])
      (start idle_flags) ?r"
    by (simp add: sys_run_simps sys_step_simps p pos_reply_def start_def idle_flags_def kNotConnectedGrace_def)
  from not_connected_reply_after_grace[OF r _ d]
  show ?thesis using r by (auto simp: start_def sys_run_simps Cons_eq_append_conv)
qed


section \<open>Radio towers\<close>

text \<open>The lookup the towers of a RadioTwrAdd payload amount to; later entries win.\<close>

definition parsed_towers :: "string \<Rightarrow> (string \<times> vec3 \<times> fp) list" where
  "parsed_towers payload = map (\<lambda>a. (an_netId a, an_pos a, an_range a))
     (if payload = [] then [] else List.map_filter parse_antenna (split payload (char_of (10 :: int))))"

lemma fold_put_antenna:
  "fold put_antenna es as = fold (\<lambda>(k, v). antenna_put k v) (map (\<lambda>a. (an_netId a, an_pos a, an_range a)) es) as"
proof (induction es arbitrary: as)
  case (Cons e es)
  have e: "\<lparr>an_netId = an_netId e, an_pos = an_pos e, an_range = an_range e\<rparr> = e" by (cases e) simp
  show ?case using Cons by (simp add: antenna_put_def e)
qed simp

lemma antenna_get_fold_del:
  "antenna_wf as \<Longrightarrow> antenna_get (fold (\<lambda>e as. if e = [] then as else del_antenna e as) ds as) k =
     (if k \<in> set ds - {[]} then None else antenna_get as k)"
  by (induction ds arbitrary: as) (auto simp: antenna_get_del del_antenna_wf)

text \<open>C13. The tower list refines a finite map from net ids to position and range: RadioTwrAdd
  overrides it with the entries of its payload, the last of equal ids winning, and RadioTwrDel
  removes the ids of its payload, whatever the order of the list.\<close>

theorem towers_refine_map:
  assumes "ext_inv s"
  shows "antenna_get (m_antennas (handleAddRadioTowers payload s)) =
      antenna_get (m_antennas s) ++ map_of (rev (parsed_towers payload)) \<and>
    antenna_get (m_antennas (handleDelRadioTowers dead s)) =
      antenna_get (m_antennas s) |` (- (set (split dead (char_of (10 :: int))) - {[]}))"
proof -
  have w: "antenna_wf (m_antennas s)" using assms by (simp add: inv_defs)
  have "antenna_get (m_antennas (handleDelRadioTowers dead s)) =
      antenna_get (m_antennas s) |` (- (set (split dead (char_of (10 :: int))) - {[]}))"
    by (rule ext) (auto simp: handleDelRadioTowers_def antenna_get_fold_del[OF w] restrict_map_def split_pieces)
  moreover have "antenna_get (m_antennas (handleAddRadioTowers payload s)) =
      antenna_get (m_antennas s) ++ map_of (rev (parsed_towers payload))"
    using antennas.fold_put[OF w, of "parsed_towers payload"]
    by (cases "payload = []") (simp_all add: handleAddRadioTowers_def parsed_towers_def fold_put_antenna)
  ultimately show ?thesis by blast
qed

theorem towers_refine_map_witness:
  "antenna_get (m_antennas (handleAddRadioTowers ''t1;500;[1,2,3]'' init_state)) ''t1'' =
     Some (vec (Fin 1) (Fin 2) (Fin 3), Fin 500)"
proof -
  have "parsed_towers ''t1;500;[1,2,3]'' = [(''t1'', vec (Fin 1) (Fin 2) (Fin 3), Fin 500)]" by code_simp
  with towers_refine_map[OF ext_inv_init, of "''t1;500;[1,2,3]''"] show ?thesis by simp
qed

section \<open>Transmissions of other players\<close>

text \<open>A transmission reported for a uid is heard from exactly one player and for 1.5 seconds: a
  report with a frequency makes that player's transmission fresh until then with the reported
  parameters, a report of its end removes it at once, and no other player's entry changes.\<close>

theorem remote_transmission:
  assumes "ext_inv s" "(n, uid) \<in> set (m_nameToUid s)" "uid \<noteq> []"
    and "\<forall>(n', u) \<in> set (m_nameToUid s). u = uid \<longrightarrow> n' = n"
  shows "fresh_tx (setRemoteTx now uid active freq r st s) t n' =
    (if n' \<noteq> n then fresh_tx s t n'
     else if active \<and> freq \<noteq> [] \<and> t - now < ms 1500 then
       Some \<lparr>tx_nickname = n, tx_frequency = freq, tx_range = r, tx_subtype = st, tx_received = now\<rparr>
     else None)"
proof -
  have f: "ufind_value (\<lambda>u. u = uid) (m_nameToUid s) = Some n"
    using assms(2,4) by (intro ufind_value_unique) auto
  have "n \<noteq> []" "uwf (m_remoteTx s)"
    using assms(1,2) by (auto simp: inv_defs uid_ok_def list_all_iff)
  then show ?thesis using assms(3)
    by (auto simp: setRemoteTx_def f Let_def fresh_tx_def umap_simps kTxExpiry_def)
qed

theorem remote_transmission_witness:
  "fresh_tx (setRemoteTx 7 ''u1'' True ''51'' (Fin 5000) ''digital'' (handleUid ''B'' ''u1'' init_state)) (ms 1000) ''B'' =
     Some \<lparr>tx_nickname = ''B'', tx_frequency = ''51'', tx_range = Fin 5000, tx_subtype = ''digital'', tx_received = 7\<rparr>"
proof -
  have u: "m_nameToUid (handleUid ''B'' ''u1'' init_state) = [(''B'', ''u1'')]"
    by (simp add: handleUid_def init_state_def convertNickname_def)
  have "ext_inv (handleUid ''B'' ''u1'' init_state)" by (rule handleUid_inv[OF ext_inv_init])
  from remote_transmission[OF this, of "''B''" "''u1''"] show ?thesis by (simp add: u)
qed

section \<open>The end of a mission\<close>

lemma local_client_mission_end [simp]: "local_client (handleMissionEnd s) now = None"
  by (simp add: local_client_def handleMissionEnd_def queueLocalMessage_def)

text \<open>MISSIONEND leaves nothing behind that could be heard or sent: until the next POS no
  snapshot has a unit, nobody is reported as speaking or received, no radio transmission is
  announced, the transmit override is cleared, and the next DFRAME asks for the configuration.\<close>

theorem mission_end_silences:
  "map_option fst (computeAudibleUnits m now (handleMissionEnd s)) = Some [] \<and>
   speakingPair (handleMissionEnd s) n = ''00'' \<and>
   \<not> lt_active (get_localTxState (handleMissionEnd s)) \<and>
   fst (takeTransmitOverride (handleMissionEnd s)) = Some None \<and>
   fst (needsConfig now (handleMissionEnd s))"
  by (simp add: computeAudibleUnits_eq client_results_def units_of_def)
    (simp add: speakingPair_def handleMissionEnd_def queueLocalMessage_def Let_def get_localTxState_def
      takeTransmitOverride_def needsConfig_def)

section \<open>The local transmitter\<close>

text \<open>A press followed by its release puts the transmitter back to silence, and a repeated press
  on the same frequency changes nothing; in between the announced state is the pressed frequency,
  subtype and clamped range, and the voice side is told to transmit exactly once.\<close>

theorem tangent_press_release:
  assumes "5 \<le> length ts" "ts ! 1 = ''PRESSED''" "5 \<le> length us" "us ! 1 \<noteq> ''PRESSED''" "\<not> m_tangentPressed s"
  shows "get_localTxState (handleTangent ts s) =
      \<lparr>lt_active = True, lt_freq = ts ! 2, lt_range = clamp_tx_range (parseArmaNumber (ts ! 3)), lt_subtype = ts ! 4\<rparr> \<and>
    m_pendingTransmitOverride (handleTangent ts s) = Some (Some True) \<and>
    (\<forall>ts'. ts' ! 1 = ''PRESSED'' \<and> ts' ! 2 = ts ! 2 \<longrightarrow>
       handleTangent ts' (snd (takeTransmitOverride (handleTangent ts s))) = snd (takeTransmitOverride (handleTangent ts s))) \<and>
    get_localTxState (handleTangent us (handleTangent ts s)) =
      \<lparr>lt_active = False, lt_freq = [], lt_range = Fin 0, lt_subtype = []\<rparr> \<and>
    m_pendingTransmitOverride (handleTangent us (handleTangent ts s)) = Some None"
proof -
  have p: "m_tangentPressed (handleTangent ts s)" "m_txFrequency (handleTangent ts s) = ts ! 2"
    "m_txRange (handleTangent ts s) = clamp_tx_range (parseArmaNumber (ts ! 3))"
    "m_txSubtype (handleTangent ts s) = ts ! 4" "m_pendingTransmitOverride (handleTangent ts s) = Some (Some True)"
    using assms by (simp_all add: handleTangent_def queueLocalMessage_def Let_def)
  have r: "handleTangent ts' t = t" if "m_tangentPressed t" "m_txFrequency t = ts' ! 2" "ts' ! 1 = ''PRESSED''" for ts' t
    using that by (simp add: handleTangent_def)
  have q: "\<not> m_tangentPressed (handleTangent us t)" "m_pendingTransmitOverride (handleTangent us t) = Some None"
    if "m_tangentPressed t" for t
    using assms(3,4) that by (simp_all add: handleTangent_def queueLocalMessage_def Let_def)
  show ?thesis using p q[OF p(1)] by (auto simp: get_localTxState_def takeTransmitOverride_def r)
qed

definition press_tokens :: "string list" where
  "press_tokens = [''TANGENT'', ''PRESSED'', ''51'', ''5000'', ''digital'']"

definition release_tokens :: "string list" where
  "release_tokens = [''TANGENT'', ''RELEASED'', ''51'', ''5000'', ''digital'']"

theorem tangent_press_release_witness:
  "lt_range (get_localTxState (handleTangent press_tokens init_state)) = Fin 5000 \<and>
   \<not> lt_active (get_localTxState (handleTangent release_tokens (handleTangent press_tokens init_state)))"
proof -
  have r: "clamp_tx_range (parseArmaNumber ''5000'') = Fin 5000" by code_simp
  from tangent_press_release[of press_tokens release_tokens init_state]
  show ?thesis by (simp add: press_tokens_def release_tokens_def init_state_def r)
qed

section \<open>The local identity\<close>

text \<open>The local player has an identity as soon as the nickname is known, the UID command or not:
  \<open>myUid\<close> is empty only without a nickname, is the uid once one was announced, and until then is the
  nickname, the very name \<open>uidFor\<close> gives the same player.\<close>

theorem my_uid:
  "(myUid s = [] \<longleftrightarrow> m_myNickname s = []) \<and>
   (m_myNickname s \<noteq> [] \<and> ext_inv s \<longrightarrow> myUid s = uidFor s (m_myNickname s))"
proof -
  have "uget (m_nameToUid s) (m_myNickname s) = Some u \<Longrightarrow> ext_inv s \<Longrightarrow> u \<noteq> []" for u
    using list_all_uget[of uid_ok "m_nameToUid s" "m_myNickname s" u] by (simp add: inv_defs uid_ok_def)
  then show ?thesis by (auto simp: myUid_def uidFor_def split: option.splits)
qed

theorem my_uid_witness: "myUid world = ''A'' \<and> uidFor world ''A'' = ''A''"
proof -
  have "m_myNickname world = ''A''" "uidFor world ''A'' = ''A''"
    by (simp_all add: world_def init_state_def uidFor_def)
  with my_uid[of world] world_inv show ?thesis by simp
qed

end
