(* ===== verification/UtilProps.thy ===== *)
theory UtilProps
  imports CommandProps
begin

text \<open>
  The properties of the helpers in \<open>src/Util.cpp\<close>: splitting against its specification, the
  nickname conversion, and the ranges of the audio and direction computations over every binary32
  input, NaN and infinities included.
\<close>

text \<open>Splitting is the inverse of joining: the tokens \<open>split\<close> returns are the only non-empty
  list of delimiter-free strings that joins back to the input, and \<open>splitLimit\<close> is its prefix.\<close>

theorem split_characterised:
  "(split s d = ts \<longleftrightarrow> ts \<noteq> [] \<and> d \<notin> (\<Union>t \<in> set ts. set t) \<and> join d ts = s) \<and>
   splitLimit s d n = take n (split s d)"
proof -
  have "split s d = ts \<longleftrightarrow> ts \<noteq> [] \<and> d \<notin> (\<Union>t \<in> set ts. set t) \<and> join d ts = s"
    using pieces_join[of ts d] join_pieces[of d s] pieces_no_delim[of _ d s]
    by (auto simp: split_pieces)
  then show ?thesis by (simp add: splitLimit_take)
qed

theorem split_characterised_witness: "split ''a,,b'' (CHR '','') = [''a'', '''', ''b''] \<and>
    splitLimit ''a,,b'' (CHR '','') 2 = [''a'', '''']"
  using split_characterised[of "''a,,b''" "CHR '',''" "[''a'', '''', ''b'']" 2] by simp

lemma fill_front_nth: "i < length s \<Longrightarrow>
    fill_front s ! i = (if \<forall>j \<le> i. s ! j = CHR '' '' then CHR ''_'' else s ! i)"
proof (induction s arbitrary: i rule: fill_front.induct)
  case (2 c cs)
  show ?case
  proof (cases i)
    case (Suc k)
    have "(\<forall>j \<le> Suc k. (c # cs) ! j = CHR '' '') \<longleftrightarrow> c = CHR '' '' \<and> (\<forall>j \<le> k. cs ! j = CHR '' '')"
      by (auto simp: nth_Cons split: nat.split)
    with 2 Suc show ?thesis by auto
  qed simp
qed simp

text \<open>A converted nickname has the length of the original, no space at either end, and differs
  from it only where it had a leading or trailing space; converting again changes nothing.\<close>

theorem nickname_conversion:
  "length (convertNickname s) = length s \<and> convertNickname (convertNickname s) = convertNickname s \<and>
   (s \<noteq> [] \<longrightarrow> hd (convertNickname s) \<noteq> CHR '' '' \<and> last (convertNickname s) \<noteq> CHR '' '') \<and>
   (\<forall>i < length s. convertNickname s ! i = s ! i \<or> s ! i = CHR '' '' \<and> convertNickname s ! i = CHR ''_'')"
proof -
  have ff: "fill_front t ! i = t ! i \<or> t ! i = CHR '' '' \<and> fill_front t ! i = CHR ''_''" if "i < length t" for t i
    using fill_front_nth[OF that] by auto
  have "rev (fill_front (rev (fill_front s))) ! i = s ! i \<or>
      s ! i = CHR '' '' \<and> rev (fill_front (rev (fill_front s))) ! i = CHR ''_''" if "i < length s" for i
    using ff[of i s] ff[of "length s - Suc i" "rev (fill_front s)"] that by (auto simp: rev_nth)
  then have "convertNickname s ! i = s ! i \<or> s ! i = CHR '' '' \<and> convertNickname s ! i = CHR ''_''"
    if "i < length s" for i using that by (simp add: convertNickname_def)
  moreover have "length (convertNickname s) = length s" by (simp add: convertNickname_def)
  ultimately show ?thesis using convertNickname_ends[of s] by (simp add: convertNickname_idem)
qed

theorem nickname_conversion_witness: "length (convertNickname '' a b '') = 5 \<and> hd (convertNickname '' a b '') \<noteq> CHR '' ''"
  using nickname_conversion[of "'' a b ''"] by simp

text \<open>The distance attenuation is never NaN, negative or amplifying: for all inputs it is 0 or
  between 0.001 (as binary32) and 1.\<close>

theorem attenuation_range:
  "\<exists>g. volumeAttenuation m distance hear maxAudible multiplier = Fin g \<and>
     (g = 0 \<or> 8589935 / 8589934592 \<le> g \<and> g \<le> 1)"
  by (rule volumeAttenuation_range)

text \<open>The azimuth is total and in range: with the documented \<open>atan2f\<close> the wrapping loops of
  \<open>wrapPi\<close> end for every listener, view direction and target, with an angle of at most half a turn
  (or NaN where a coordinate is not a number).\<close>

theorem azimuth_total_in_range:
  assumes "atan2_doc m"
  shows "\<exists>a. azimuthTo m listener view target = Some a \<and>
    (is_nan a \<or> is_fin a \<and> - val kPi \<le> val a \<and> val a \<le> val kPi)"
proof -
  from azimuthTo_total[OF assms] obtain a where a: "azimuthTo m listener view target = Some a"
    "is_nan a \<or> is_fin a \<and> \<bar>val a\<bar> \<le> val kPi" by blast
  then show ?thesis unfolding abs_le_iff by (intro exI[of _ a]) auto
qed

theorem azimuth_total_in_range_witness:
  "\<exists>a. azimuthTo axis_libm vzero (vec (Fin 0) (Fin (- 1)) (Fin 0)) (vec (Fin (- 5)) (Fin 0) (Fin 0)) = Some a"
  using azimuth_total_in_range[OF axis_libm_doc] by blast

end
