(* ===== verification/Protocol.thy ===== *)
theory Protocol
  imports CStrings
begin

text \<open>
  The wire format of \<open>src/Voice/Protocol.h\<close> and \<open>src/Voice/Protocol.cpp\<close>: truncation at UTF-8
  boundaries, the packet writer over a fixed buffer and the reader over one datagram, both with
  their exceptions as values. An access outside a buffer, undefined in C++, is the value
  \<open>Undefined\<close> of the model, so that its absence is a theorem.
\<close>

unbundle bit_operations_syntax

section \<open>Bytes\<close>

type_synonym byte = "8 word"

definition byte_of :: "char \<Rightarrow> byte" where "byte_of c = word_of_int (of_char c)"
definition chr_of :: "byte \<Rightarrow> char" where "chr_of b = char_of (uint b)"

lemma chr_of_byte_of [simp]: "chr_of (byte_of c) = c"
proof -
  have "(of_char c :: int) mod 2 ^ 8 = of_char c"
    using of_char_mod_256[of c, where 'a = int] by simp
  then show ?thesis by (simp add: chr_of_def byte_of_def uint_word_of_int)
qed

lemma byte_of_chr_of [simp]: "byte_of (chr_of b) = b"
proof -
  have "uint b mod 256 = uint b" using uint_lt2p[of b] by (simp add: mod_pos_pos_trivial)
  then show ?thesis by (simp add: chr_of_def byte_of_def)
qed

lemma map_chr_of_byte_of [simp]: "map (chr_of \<circ> byte_of) s = s" "map chr_of (map byte_of s) = s"
  by (induction s) auto

section \<open>Constants\<close>

datatype packetType =
    ConnectRequest | ConnectAccept | ConnectReject | Disconnect | Ping | Pong | VoiceUp | VoiceDown
  | ClientJoined | ClientLeft | RosterRequest | RadioTxUpdate | RadioTxBroadcast

fun packet_code :: "packetType \<Rightarrow> byte" where
  "packet_code ConnectRequest = 1" | "packet_code ConnectAccept = 2" | "packet_code ConnectReject = 3"
| "packet_code Disconnect = 4" | "packet_code Ping = 5" | "packet_code Pong = 6"
| "packet_code VoiceUp = 7" | "packet_code VoiceDown = 8" | "packet_code ClientJoined = 9"
| "packet_code ClientLeft = 10" | "packet_code RosterRequest = 11"
| "packet_code RadioTxUpdate = 12" | "packet_code RadioTxBroadcast = 13"

definition kVoiceFlagsNone :: byte where "kVoiceFlagsNone = 0"
definition kVoiceFlagsLastFrame :: byte where "kVoiceFlagsLastFrame = 1"
definition kVersionMajor :: byte where "kVersionMajor = 1"
definition kMaxNameLength :: nat where "kMaxNameLength = 32"
definition kMaxUidLength :: nat where "kMaxUidLength = 40"
definition kMaxOpusFrameLength :: nat where "kMaxOpusFrameLength = 500"
definition kMaxFreqLength :: nat where "kMaxFreqLength = 16"
definition kMaxSubtypeLength :: nat where "kMaxSubtypeLength = 16"
definition kMaxVersionLength :: nat where "kMaxVersionLength = 16"

lemmas max_lengths = kMaxNameLength_def kMaxUidLength_def kMaxOpusFrameLength_def kMaxFreqLength_def
  kMaxSubtypeLength_def kMaxVersionLength_def

section \<open>Truncation\<close>

text \<open>A UTF-8 continuation byte has its two high bits set to 10.\<close>

definition continuation :: "char \<Rightarrow> bool" where
  "continuation c \<longleftrightarrow> byte_of c AND 0xC0 = 0x80"

text \<open>The inner loop: from an index back to the start of its sequence.\<close>

fun seq_start :: "string \<Rightarrow> nat \<Rightarrow> nat" where
  "seq_start s 0 = 0"
| "seq_start s (Suc i) = (if continuation (s ! Suc i) then seq_start s i else Suc i)"

lemma seq_start_le: "seq_start s n \<le> n"
  by (induction s n rule: seq_start.induct) auto

function truncateUtf8 :: "string \<Rightarrow> nat \<Rightarrow> string" where
  "truncateUtf8 result maxUtf8Bytes =
     (if maxUtf8Bytes < length result
      then truncateUtf8 (take (seq_start result (length result - 1)) result) maxUtf8Bytes
      else result)"
  by pat_completeness auto
termination
proof (relation "measure (\<lambda>(r, n). length r)")
  fix r :: string and n :: nat
  assume "n < length r"
  then show "((take (seq_start r (length r - 1)) r, n), r, n) \<in> measure (\<lambda>(r, n). length r)"
    using seq_start_le[of r "length r - 1"] by simp
qed simp

declare truncateUtf8.simps [simp del]

section \<open>Writer\<close>

datatype packet_error = BufferTooSmall | ValueTooLong | Truncated | FieldTooLong | Undefined

type_synonym 'a result = "packet_error + 'a"

fun rbind :: "'e + 'a \<Rightarrow> ('a \<Rightarrow> 'e + 'b) \<Rightarrow> 'e + 'b" where
  "rbind (Inl e) f = Inl e"
| "rbind (Inr x) f = f x"

lemma rbind_Inr_iff: "rbind x f = Inr y \<longleftrightarrow> (\<exists>z. x = Inr z \<and> f z = Inr y)"
  by (cases x) auto

lemma rbind_Inl_iff: "rbind x f = Inl e \<longleftrightarrow> x = Inl e \<or> (\<exists>z. x = Inr z \<and> f z = Inl e)"
  by (cases x) auto

record writer =
  pw_capacity :: nat
  pw_bytes :: "byte list"

abbreviation pw_pos :: "writer \<Rightarrow> nat" where "pw_pos w \<equiv> length (pw_bytes w)"

definition new_writer :: "nat \<Rightarrow> writer" where
  "new_writer capacity = \<lparr>pw_capacity = capacity, pw_bytes = []\<rparr>"

definition ensure :: "nat \<Rightarrow> writer \<Rightarrow> unit result" where
  "ensure n w = (if pw_capacity w < pw_pos w + n then Inl BufferTooSmall else Inr ())"

text \<open>\<open>m_buffer[m_pos++] = value\<close>, and a copy of several bytes to the position.\<close>

definition store :: "byte \<Rightarrow> writer \<Rightarrow> writer result" where
  "store b w = (if pw_pos w < pw_capacity w then Inr (w\<lparr>pw_bytes := pw_bytes w @ [b]\<rparr>) else Inl Undefined)"

fun stores :: "byte list \<Rightarrow> writer \<Rightarrow> writer result" where
  "stores [] w = Inr w"
| "stores (b # bs) w = rbind (store b w) (stores bs)"

definition writeByte :: "byte \<Rightarrow> writer \<Rightarrow> writer result" where
  "writeByte value w = rbind (ensure 1 w) (\<lambda>_. store value w)"

definition writeUInt16 :: "16 word \<Rightarrow> writer \<Rightarrow> writer result" where
  "writeUInt16 value w = rbind (ensure 2 w) (\<lambda>_.
     stores [ucast (value AND 0xFF), ucast (drop_bit 8 value AND 0xFF)] w)"

definition writeUInt32 :: "32 word \<Rightarrow> writer \<Rightarrow> writer result" where
  "writeUInt32 value w = rbind (ensure 4 w) (\<lambda>_.
     stores [ucast (value AND 0xFF), ucast (drop_bit 8 value AND 0xFF),
             ucast (drop_bit 16 value AND 0xFF), ucast (drop_bit 24 value AND 0xFF)] w)"

definition writeString8 :: "string \<Rightarrow> writer \<Rightarrow> writer result" where
  "writeString8 value w =
     (if 255 < length value then Inl ValueTooLong
      else rbind (ensure (1 + length value) w) (\<lambda>_.
        stores (of_nat (length value) # map byte_of value) w))"

definition writeBytes :: "byte list \<Rightarrow> writer \<Rightarrow> writer result" where
  "writeBytes data w = rbind (ensure (length data) w) (\<lambda>_. stores data w)"

section \<open>Reader\<close>

record reader =
  pr_buffer :: "byte list"
  pr_pos :: nat

definition new_reader :: "byte list \<Rightarrow> reader" where
  "new_reader buffer = \<lparr>pr_buffer = buffer, pr_pos = 0\<rparr>"

definition remaining :: "reader \<Rightarrow> nat" where
  "remaining r = length (pr_buffer r) - pr_pos r"

definition need :: "nat \<Rightarrow> reader \<Rightarrow> unit result" where
  "need n r = (if remaining r < n then Inl Truncated else Inr ())"

definition fetch :: "nat \<Rightarrow> reader \<Rightarrow> byte result" where
  "fetch i r = (if pr_pos r + i < length (pr_buffer r) then Inr (pr_buffer r ! (pr_pos r + i)) else Inl Undefined)"

definition advance :: "nat \<Rightarrow> reader \<Rightarrow> reader" where
  "advance n r = r\<lparr>pr_pos := pr_pos r + n\<rparr>"

definition readByte :: "reader \<Rightarrow> (byte \<times> reader) result" where
  "readByte r = rbind (need 1 r) (\<lambda>_. rbind (fetch 0 r) (\<lambda>b. Inr (b, advance 1 r)))"

definition readUInt16 :: "reader \<Rightarrow> (16 word \<times> reader) result" where
  "readUInt16 r = rbind (need 2 r) (\<lambda>_. rbind (fetch 0 r) (\<lambda>b0. rbind (fetch 1 r) (\<lambda>b1.
     Inr (ucast b0 OR push_bit 8 (ucast b1), advance 2 r))))"

definition readUInt32 :: "reader \<Rightarrow> (32 word \<times> reader) result" where
  "readUInt32 r = rbind (need 4 r) (\<lambda>_.
     rbind (fetch 0 r) (\<lambda>b0. rbind (fetch 1 r) (\<lambda>b1. rbind (fetch 2 r) (\<lambda>b2. rbind (fetch 3 r) (\<lambda>b3.
       Inr (ucast b0 OR push_bit 8 (ucast b1) OR push_bit 16 (ucast b2) OR push_bit 24 (ucast b3),
            advance 4 r))))))"

fun fetches :: "nat \<Rightarrow> reader \<Rightarrow> (byte list \<times> reader) result" where
  "fetches 0 r = Inr ([], r)"
| "fetches (Suc n) r = rbind (fetch 0 r) (\<lambda>b. rbind (fetches n (advance 1 r)) (\<lambda>(bs, r'). Inr (b # bs, r')))"

definition readString8 :: "nat \<Rightarrow> reader \<Rightarrow> (string \<times> reader) result" where
  "readString8 maxLength r = rbind (readByte r) (\<lambda>(len, r).
     if maxLength < unat len then Inl FieldTooLong
     else rbind (need (unat len) r) (\<lambda>_.
       rbind (fetches (unat len) r) (\<lambda>(bs, r). Inr (map chr_of bs, r))))"

definition readRemaining :: "reader \<Rightarrow> byte list \<times> reader" where
  "readRemaining r = (drop (pr_pos r) (pr_buffer r), r\<lparr>pr_pos := length (pr_buffer r)\<rparr>)"

end
