(* ===== verification/ProtocolFacts.thy ===== *)
theory ProtocolFacts
  imports Protocol
begin

text \<open>
  The laws of the wire format: what truncation keeps, the contract of one field (written it is
  appended or refused, read back it is the same value, and no read leaves the datagram), and its
  interpretation by the four field types of the protocol.
\<close>

unbundle bit_operations_syntax

section \<open>Truncation\<close>

lemma seq_start_boundary:
  "seq_start s n = 0 \<or> \<not> continuation (s ! seq_start s n)"
  by (induction s n rule: seq_start.induct) auto

lemma seq_start_between: "seq_start s n < i \<Longrightarrow> i \<le> n \<Longrightarrow> continuation (s ! i)"
  by (induction s n rule: seq_start.induct) (auto simp: le_Suc_eq split: if_splits)

text \<open>A cut position: the end of the string, its start, or the start of a sequence.\<close>

definition boundary :: "string \<Rightarrow> nat \<Rightarrow> bool" where
  "boundary s k \<longleftrightarrow> k = 0 \<or> k = length s \<or> k < length s \<and> \<not> continuation (s ! k)"

lemma boundary_take:
  assumes "k \<le> c" "c \<le> length s" "boundary s c"
  shows "boundary (take c s) k \<longleftrightarrow> boundary s k"
  using assms by (auto simp: boundary_def)

lemma truncateUtf8_prefix:
  "\<exists>k. truncateUtf8 s n = take k s \<and> k \<le> length s \<and> (n < length s \<longrightarrow> k \<le> n) \<and> (length s \<le> n \<longrightarrow> k = length s) \<and>
     boundary s k \<and> (\<forall>j \<le> n. boundary s j \<longrightarrow> j \<le> k)"
proof (induction s n rule: truncateUtf8.induct)
  case (1 s n)
  show ?case
  proof (cases "n < length s")
    case False
    then show ?thesis by (intro exI[of _ "length s"]) (auto simp: truncateUtf8.simps[of s n] boundary_def)
  next
    case True
    let ?c = "seq_start s (length s - 1)"
    have c: "?c < length s" using seq_start_le[of s "length s - 1"] True by linarith
    have bc: "boundary s ?c" using seq_start_boundary[of s "length s - 1"] c by (auto simp: boundary_def)
    have last: "j \<le> ?c" if "j < length s" "boundary s j" for j
      using seq_start_between[of s "length s - 1" j] that by (force simp: boundary_def)
    from 1(1)[OF True] obtain k where k: "truncateUtf8 (take ?c s) n = take k (take ?c s)"
      "k \<le> length (take ?c s)" "n < length (take ?c s) \<longrightarrow> k \<le> n"
      "length (take ?c s) \<le> n \<longrightarrow> k = length (take ?c s)"
      "boundary (take ?c s) k" "\<forall>j \<le> n. boundary (take ?c s) j \<longrightarrow> j \<le> k" by blast
    from k(2) c have kc: "k \<le> ?c" by simp
    have "boundary s k" using k(5) boundary_take[OF kc _ bc] c by simp
    moreover have "j \<le> k" if "j \<le> n" "boundary s j" for j
      using k(6) that last[of j] True boundary_take[OF _ _ bc, of j] c by auto
    moreover have "k \<le> n" using k(3,4) by linarith
    ultimately show ?thesis using True k(1) kc c
      by (intro exI[of _ k]) (simp add: truncateUtf8.simps[of s n] min_def)
  qed
qed

lemma length_truncateUtf8: "length (truncateUtf8 s n) \<le> n"
  using truncateUtf8_prefix[of s n] by (cases "n < length s") auto

section \<open>Writing\<close>

lemma stores_append:
  "pw_pos w + length bs \<le> pw_capacity w \<Longrightarrow> stores bs w = Inr (w\<lparr>pw_bytes := pw_bytes w @ bs\<rparr>)"
  by (induction bs arbitrary: w) (auto simp: store_def)

section \<open>One field\<close>

text \<open>The reader in front of \<open>post\<close>, with \<open>pre\<close> already read.\<close>

definition rdr :: "byte list \<Rightarrow> byte list \<Rightarrow> reader" where
  "rdr pre post = \<lparr>pr_buffer = pre @ post, pr_pos = length pre\<rparr>"

lemma new_reader_rdr: "new_reader b = rdr [] b"
  by (simp add: new_reader_def rdr_def)

definition reader_ok :: "reader \<Rightarrow> bool" where
  "reader_ok r \<longleftrightarrow> pr_pos r \<le> length (pr_buffer r)"

lemma reader_ok_rdr [simp]: "reader_ok (rdr pre post)"
  by (simp add: reader_ok_def rdr_def)

lemma reader_okE: assumes "reader_ok r" obtains pre post where "r = rdr pre post"
proof
  show "r = rdr (take (pr_pos r) (pr_buffer r)) (drop (pr_pos r) (pr_buffer r))"
    using assms by (cases r) (simp add: rdr_def reader_ok_def min_def)
qed

definition defined :: "'a result \<Rightarrow> bool" where
  "defined x \<longleftrightarrow> x \<noteq> Inl Undefined"

lemma defined_Inr [simp]: "defined (Inr x)"
  by (simp add: defined_def)

text \<open>
  The contract of a field type: \<open>enc\<close> is its encoding, \<open>ok\<close> the values that fit.
\<close>

locale field_codec =
  fixes wr :: "'a \<Rightarrow> writer \<Rightarrow> writer result"
    and rd :: "reader \<Rightarrow> ('a \<times> reader) result"
    and enc :: "'a \<Rightarrow> byte list"
    and ok :: "'a \<Rightarrow> bool"
  assumes wr_spec: "ok a \<Longrightarrow> wr a w =
      (if pw_capacity w < pw_pos w + length (enc a) then Inl BufferTooSmall
       else Inr (w\<lparr>pw_bytes := pw_bytes w @ enc a\<rparr>))"
    and rd_enc: "ok a \<Longrightarrow> rd (rdr pre (enc a @ post)) = Inr (a, rdr (pre @ enc a) post)"
    and rd_safe: "rd (rdr pre post) \<noteq> Inl Undefined"
    and rd_ok: "rd (rdr pre post) = Inr (a, r) \<Longrightarrow> \<exists>mid post'. r = rdr (pre @ mid) post' \<and> post = mid @ post'"
begin

lemma wr_fits: "ok a \<Longrightarrow> pw_pos w + length (enc a) \<le> pw_capacity w \<Longrightarrow>
    wr a w = Inr (w\<lparr>pw_bytes := pw_bytes w @ enc a\<rparr>)"
  by (simp add: wr_spec)

lemma wr_defined: "ok a \<Longrightarrow> wr a w \<noteq> Inl Undefined"
  by (simp add: wr_spec)

text \<open>What was written is read back, whatever follows it.\<close>

lemma roundtrip:
  assumes "ok a" "wr a w = Inr w'"
  shows "rd (rdr (pw_bytes w) (drop (pw_pos w) (pw_bytes w') @ post)) = Inr (a, rdr (pw_bytes w') post)"
  using assms rd_enc[OF assms(1), of "pw_bytes w" post] by (auto simp: wr_spec split: if_splits)

lemma rd_keeps_ok: "reader_ok r \<Longrightarrow> rd r = Inr (a, r') \<Longrightarrow> reader_ok r'"
  by (metis reader_okE reader_ok_rdr rd_ok)

lemma rd_enc_end: "ok a \<Longrightarrow> rd (rdr pre (enc a)) = Inr (a, rdr (pre @ enc a) [])"
  using rd_enc[of a pre "[]"] by simp

lemma rd_then_defined:
  assumes "reader_ok r" "\<And>a r'. reader_ok r' \<Longrightarrow> defined (f (a, r'))"
  shows "defined (rbind (rd r) f)"
  using assms rd_keeps_ok[OF assms(1)] rd_safe
  by (auto simp: defined_def rbind_Inl_iff elim!: reader_okE)

lemma rd_defined: "reader_ok r \<Longrightarrow> rd r \<noteq> Inl Undefined"
  by (metis reader_okE rd_safe)

end

definition enc_byte :: "byte \<Rightarrow> byte list" where "enc_byte b = [b]"

definition enc16 :: "16 word \<Rightarrow> byte list" where
  "enc16 v = [ucast v, ucast (drop_bit 8 v)]"

definition enc32 :: "32 word \<Rightarrow> byte list" where
  "enc32 v = [ucast v, ucast (drop_bit 8 v), ucast (drop_bit 16 v), ucast (drop_bit 24 v)]"

definition enc_string8 :: "string \<Rightarrow> byte list" where
  "enc_string8 s = of_nat (length s) # map byte_of s"

lemma ucast_and_mask [simp]:
  "(ucast (v AND 0xFF :: 16 word) :: byte) = ucast v" "(ucast (u AND 0xFF :: 32 word) :: byte) = ucast u"
proof -
  have m: "(0xFF :: 'a::len word) = mask 8" by (simp add: mask_eq_exp_minus_1)
  show "(ucast (v AND 0xFF :: 16 word) :: byte) = ucast v" "(ucast (u AND 0xFF :: 32 word) :: byte) = ucast u"
    unfolding m by (rule bit_word_eqI, simp add: bit_simps)+
qed

lemma join16: "(ucast (ucast v :: byte) :: 16 word) OR push_bit 8 (ucast (ucast (drop_bit 8 v) :: byte)) = v"
  by (rule bit_word_eqI) (auto simp: bit_simps not_le)

lemma join32: "(ucast (ucast v :: byte) :: 32 word) OR push_bit 8 (ucast (ucast (drop_bit 8 v) :: byte)) OR
    push_bit 16 (ucast (ucast (drop_bit 16 v) :: byte)) OR push_bit 24 (ucast (ucast (drop_bit 24 v) :: byte)) = v"
proof (rule bit_word_eqI)
  fix n :: nat
  assume "n < LENGTH(32)"
  then consider "n < 8" | "8 \<le> n" "n < 16" | "16 \<le> n" "n < 24" | "24 \<le> n" "n < 32" by fastforce
  then show "bit ((ucast (ucast v :: byte) :: 32 word) OR push_bit 8 (ucast (ucast (drop_bit 8 v) :: byte)) OR
    push_bit 16 (ucast (ucast (drop_bit 16 v) :: byte)) OR push_bit 24 (ucast (ucast (drop_bit 24 v) :: byte))) n = bit v n"
    by cases (simp_all add: bit_simps, auto)
qed

lemma fetch_rdr [simp]: "i < length post \<Longrightarrow> fetch i (rdr pre post) = Inr (post ! i)"
  by (simp add: fetch_def rdr_def nth_append)

lemma remaining_rdr [simp]: "remaining (rdr pre post) = length post"
  by (simp add: remaining_def rdr_def)

lemma advance_rdr: "n \<le> length post \<Longrightarrow> advance n (rdr pre post) = rdr (pre @ take n post) (drop n post)"
  by (simp add: advance_def rdr_def)

lemma fetches_rdr: "n \<le> length post \<Longrightarrow>
    fetches n (rdr pre post) = Inr (take n post, rdr (pre @ take n post) (drop n post))"
proof (induction n arbitrary: pre post)
  case (Suc n)
  then obtain b bs where "post = b # bs" by (cases post) auto
  with Suc show ?case by (simp add: advance_rdr)
qed simp

lemma readByte_rdr:
  "readByte (rdr pre post) = (case post of [] \<Rightarrow> Inl Truncated | b # bs \<Rightarrow> Inr (b, rdr (pre @ [b]) bs))"
  by (cases post) (simp_all add: readByte_def need_def advance_rdr)

lemma readString8_rdr:
  "readString8 mx (rdr pre post) =
     (case post of [] \<Rightarrow> Inl Truncated
      | l # bs \<Rightarrow> if mx < unat l then Inl FieldTooLong
          else if length bs < unat l then Inl Truncated
          else Inr (map chr_of (take (unat l) bs), rdr (pre @ l # take (unat l) bs) (drop (unat l) bs)))"
  by (cases post) (simp_all add: readString8_def readByte_rdr need_def fetches_rdr)

lemma split16: "length post \<ge> 2 \<Longrightarrow> \<exists>a b t. post = a # b # t"
  by (cases post; cases "tl post") auto

lemma split32: "length post \<ge> 4 \<Longrightarrow> \<exists>a b c d t. post = a # b # c # d # t"
  by (cases post; cases "tl post"; cases "tl (tl post)"; cases "tl (tl (tl post))") auto

lemma readUInt16_rdr:
  "readUInt16 (rdr pre post) = (if length post < 2 then Inl Truncated else
     Inr (ucast (post ! 0) OR push_bit 8 (ucast (post ! 1)), rdr (pre @ take 2 post) (drop 2 post)))"
proof (cases "length post < 2")
  case False
  then obtain a b t where "post = a # b # t" using split16[of post] by auto
  then show ?thesis by (simp add: readUInt16_def need_def advance_rdr)
qed (simp add: readUInt16_def need_def)

lemma readUInt32_rdr:
  "readUInt32 (rdr pre post) = (if length post < 4 then Inl Truncated else
     Inr (ucast (post ! 0) OR push_bit 8 (ucast (post ! 1)) OR push_bit 16 (ucast (post ! 2)) OR
          push_bit 24 (ucast (post ! 3)), rdr (pre @ take 4 post) (drop 4 post)))"
proof (cases "length post < 4")
  case False
  then obtain a b c d t where "post = a # b # c # d # t" using split32[of post] by auto
  then show ?thesis by (simp add: readUInt32_def need_def advance_rdr eval_nat_numeral)
qed (simp add: readUInt32_def need_def)

interpretation byte_field: field_codec writeByte readByte enc_byte "\<lambda>_. True"
proof unfold_locales
  show "\<exists>mid post'. r = rdr (pre @ mid) post' \<and> post = mid @ post'"
    if "readByte (rdr pre post) = Inr (a, r)" for pre post a r
    using that by (intro exI[of _ "take 1 post"] exI[of _ "drop 1 post"]) (auto simp: readByte_rdr split: list.splits)
qed (auto simp: writeByte_def ensure_def store_def enc_byte_def readByte_rdr split: list.splits)

interpretation u16_field: field_codec writeUInt16 readUInt16 enc16 "\<lambda>_. True"
proof unfold_locales
  show "\<exists>mid post'. r = rdr (pre @ mid) post' \<and> post = mid @ post'"
    if "readUInt16 (rdr pre post) = Inr (a, r)" for pre post a r
    using that by (intro exI[of _ "take 2 post"] exI[of _ "drop 2 post"]) (auto simp: readUInt16_rdr split: if_splits)
qed (auto simp: writeUInt16_def ensure_def stores_append enc16_def readUInt16_rdr join16 simp del: stores.simps)

interpretation u32_field: field_codec writeUInt32 readUInt32 enc32 "\<lambda>_. True"
proof unfold_locales
  show "\<exists>mid post'. r = rdr (pre @ mid) post' \<and> post = mid @ post'"
    if "readUInt32 (rdr pre post) = Inr (a, r)" for pre post a r
    using that by (intro exI[of _ "take 4 post"] exI[of _ "drop 4 post"]) (auto simp: readUInt32_rdr split: if_splits)
qed (auto simp: writeUInt32_def ensure_def stores_append enc32_def readUInt32_rdr join32 simp del: stores.simps)

lemma unat_len: "length s \<le> 255 \<Longrightarrow> unat (of_nat (length s) :: byte) = length s"
  by (simp add: unat_of_nat)

interpretation string_field: field_codec writeString8 "readString8 mx" enc_string8 "\<lambda>s. length s \<le> mx \<and> length s \<le> 255"
  for mx :: nat
proof unfold_locales
  show "\<exists>mid post'. r = rdr (pre @ mid) post' \<and> post = mid @ post'"
    if "readString8 mx (rdr pre post) = Inr (a, r)" for pre post a r
    using that by (auto simp: readString8_rdr split: list.splits if_splits)
      (metis Cons_eq_appendI append_take_drop_id)
  show "readString8 mx (rdr pre (enc_string8 s @ post)) = Inr (s, rdr (pre @ enc_string8 s) post)"
    if "length s \<le> mx \<and> length s \<le> 255" for s pre post
    using that unat_len[of s] by (simp add: readString8_rdr enc_string8_def)
qed (auto simp: writeString8_def ensure_def stores_append enc_string8_def readString8_rdr simp del: stores.simps split: list.splits)

lemma writeBytes_spec: "writeBytes data w =
    (if pw_capacity w < pw_pos w + length data then Inl BufferTooSmall
     else Inr (w\<lparr>pw_bytes := pw_bytes w @ data\<rparr>))"
  by (simp add: writeBytes_def ensure_def stores_append)

lemma readRemaining_rdr [simp]: "readRemaining (rdr pre post) = (post, rdr (pre @ post) [])"
  by (simp add: readRemaining_def rdr_def)

lemmas field_lengths = enc_byte_def enc16_def enc32_def enc_string8_def

end
