(* ===== verification/NetClient.thy ===== *)
theory NetClient
  imports ProtocolFacts ExtState
begin

text \<open>
  The UDP client of \<open>src/Voice/VoiceNetworkClient.cpp\<close>: packet handling, the handshake, the sends
  and one iteration of the worker thread. What the operating system answers (name resolution,
  \<open>send\<close>, \<open>recv\<close>, the clock) is an argument; what the code does to the outside is a list of outputs.
  The SHA-256 of the system library is a parameter.
\<close>

section \<open>State\<close>

record serverConfig =
  sc_host :: string
  sc_port :: "16 word"
  sc_password :: string

record ident =
  id_uid :: string
  id_name :: string

text \<open>The socket is null or one of the process's open sockets; only which of the two matters.\<close>

record net =
  n_running :: bool
  n_connected :: bool
  n_sessionId :: "32 word"
  n_debugForceAudible :: bool
  n_config :: serverConfig
  n_identity :: ident
  n_activeConfig :: serverConfig
  n_activeUid :: string
  n_socket :: bool
  n_voiceSequence :: "16 word"
  n_serverVersion :: string
  n_lastPingTime :: time
  n_lastRecvTime :: time
  n_resolveFailCount :: "32 word"
  n_notConfiguredLogCount :: "32 word"
  n_handshakeSilentFailCount :: "32 word"

definition no_server :: serverConfig where
  "no_server = \<lparr>sc_host = [], sc_port = 0, sc_password = []\<rparr>"

definition init_net :: net where
  "init_net = \<lparr>n_running = True, n_connected = False, n_sessionId = 0, n_debugForceAudible = False,
     n_config = no_server, n_identity = \<lparr>id_uid = [], id_name = []\<rparr>, n_activeConfig = no_server,
     n_activeUid = [], n_socket = False, n_voiceSequence = 0, n_serverVersion = [],
     n_lastPingTime = 0, n_lastRecvTime = 0, n_resolveFailCount = 0, n_notConfiguredLogCount = 0,
     n_handshakeSilentFailCount = 0\<rparr>"

text \<open>The callbacks the client raises, and everything else that leaves it.\<close>

datatype net_event =
    VoiceFrame "32 word" "16 word" bool "byte list"
  | RemoteJoined "32 word" string string
  | RemoteLeft "32 word"
  | RadioTx "32 word" bool string "16 word" string

datatype net_out =
    Sent "byte list"
  | Raised net_event
  | StateChanged bool
  | Slept time

definition kHandshakeRetries :: nat where "kHandshakeRetries = 5"
definition kHandshakeTimeout :: time where "kHandshakeTimeout = ms 1500"
definition kPingInterval :: time where "kPingInterval = ms 5000"
definition kServerTimeout :: time where "kServerTimeout = ms 15000"
definition kReconnectInterval :: time where "kReconnectInterval = ms 2000"
definition kMaxPacketsPerPump :: nat where "kMaxPacketsPerPump = 256"

section \<open>Setters\<close>

definition setServer :: "string \<Rightarrow> 16 word \<Rightarrow> string \<Rightarrow> net \<Rightarrow> net" where
  "setServer host port password n = n\<lparr>n_config := \<lparr>sc_host = host, sc_port = port, sc_password = password\<rparr>\<rparr>"

definition setIdentity :: "string \<Rightarrow> string \<Rightarrow> net \<Rightarrow> net" where
  "setIdentity uid name n = n\<lparr>n_identity := \<lparr>id_uid = uid, id_name = name\<rparr>\<rparr>"

definition configChanged :: "net \<Rightarrow> bool" where
  "configChanged n \<longleftrightarrow> sc_host (n_config n) \<noteq> sc_host (n_activeConfig n) \<or>
     sc_port (n_config n) \<noteq> sc_port (n_activeConfig n) \<or>
     sc_password (n_config n) \<noteq> sc_password (n_activeConfig n) \<or>
     (id_uid (n_identity n) \<noteq> [] \<and> id_uid (n_identity n) \<noteq> n_activeUid n)"

definition setConnected :: "bool \<Rightarrow> net \<Rightarrow> net_out list \<times> net" where
  "setConnected up n =
     ([StateChanged up],
      if up then n\<lparr>n_connected := True\<rparr>
      else n\<lparr>n_connected := False, n_sessionId := 0, n_debugForceAudible := False\<rparr>)"

definition closeSocket :: "net \<Rightarrow> net" where
  "closeSocket n = n\<lparr>n_socket := False\<rparr>"

section \<open>Incoming packets\<close>

definition handlePacket :: "byte list \<Rightarrow> net_event option result" where
  "handlePacket data =
     (if length data < 1 then Inr None
      else rbind (readByte (new_reader data)) (\<lambda>(type, r).
        if type = packet_code VoiceDown then
          rbind (readUInt32 r) (\<lambda>(senderSessionId, r).
          rbind (readUInt16 r) (\<lambda>(sequence, r).
          rbind (readByte r) (\<lambda>(flags, r).
            Inr (Some (VoiceFrame senderSessionId sequence ((flags AND kVoiceFlagsLastFrame) \<noteq> 0)
              (fst (readRemaining r)))))))
        else if type = packet_code ClientJoined then
          rbind (readUInt32 r) (\<lambda>(sid, r).
          rbind (readString8 kMaxUidLength r) (\<lambda>(uid, r).
          rbind (readString8 kMaxNameLength r) (\<lambda>(name, r).
            Inr (Some (RemoteJoined sid uid name)))))
        else if type = packet_code ClientLeft then
          rbind (readUInt32 r) (\<lambda>(sid, r). Inr (Some (RemoteLeft sid)))
        else if type = packet_code RadioTxBroadcast then
          rbind (readUInt32 r) (\<lambda>(sid, r).
          rbind (readByte r) (\<lambda>(active, r).
          rbind (readString8 kMaxFreqLength r) (\<lambda>(freq, r).
          rbind (readUInt16 r) (\<lambda>(rng, r).
          rbind (readString8 kMaxSubtypeLength r) (\<lambda>(sub, r).
            Inr (Some (RadioTx sid (active \<noteq> 0) freq rng sub)))))))
        else Inr None))"

text \<open>
  The body of a ConnectAccept: session id, debug flag and version; the trailing fields are read
  defensively. An exception while reading the mandatory part is \<open>Inl\<close>: the packet is ignored.
\<close>

definition parse_accept :: "byte list \<Rightarrow> (32 word \<times> bool \<times> string) result" where
  "parse_accept data =
     rbind (readByte (new_reader data)) (\<lambda>(_, r).
     rbind (readUInt32 r) (\<lambda>(sid, r).
     rbind (if 2 \<le> remaining r then rbind (readUInt16 r) (\<lambda>(_, r). Inr r) else Inr r) (\<lambda>r.
     rbind (if 1 \<le> remaining r then rbind (readByte r) (\<lambda>(b, r). Inr (b \<noteq> 0, r)) else Inr (False, r)) (\<lambda>(debug, r).
       Inr (sid, debug,
         if 1 \<le> remaining r then (case readString8 kMaxVersionLength r of Inl _ \<Rightarrow> [] | Inr (v, _) \<Rightarrow> v) else [])))))"

section \<open>Outgoing packets\<close>

definition connect_packet :: "byte list \<Rightarrow> ident \<Rightarrow> byte list result" where
  "connect_packet passwordHash idt =
     (let uid = truncateUtf8 (id_uid idt) kMaxUidLength;
          name = truncateUtf8 (id_name idt) kMaxNameLength
      in rbind (writeByte (packet_code ConnectRequest)
                 (new_writer (1 + 1 + 32 + 1 + kMaxUidLength + 1 + kMaxNameLength))) (\<lambda>w.
         rbind (writeByte kVersionMajor w) (\<lambda>w.
         rbind (writeBytes passwordHash w) (\<lambda>w.
         rbind (writeString8 uid w) (\<lambda>w.
         rbind (writeString8 name w) (\<lambda>w. Inr (pw_bytes w)))))))"

definition voice_packet :: "16 word \<Rightarrow> bool \<Rightarrow> byte list \<Rightarrow> byte list result" where
  "voice_packet sequence isLast opus =
     rbind (writeByte (packet_code VoiceUp) (new_writer (1 + 2 + 1 + kMaxOpusFrameLength))) (\<lambda>w.
     rbind (writeUInt16 sequence w) (\<lambda>w.
     rbind (writeByte (if isLast then kVoiceFlagsLastFrame else kVoiceFlagsNone) w) (\<lambda>w.
     rbind (writeBytes opus w) (\<lambda>w. Inr (pw_bytes w)))))"

definition radio_tx_packet :: "bool \<Rightarrow> string \<Rightarrow> 16 word \<Rightarrow> string \<Rightarrow> byte list result" where
  "radio_tx_packet active freq rng sub =
     rbind (writeByte (packet_code RadioTxUpdate)
             (new_writer (1 + 1 + 1 + kMaxFreqLength + 2 + 1 + kMaxSubtypeLength))) (\<lambda>w.
     rbind (writeByte (if active then 1 else 0) w) (\<lambda>w.
     rbind (writeString8 (truncateUtf8 freq kMaxFreqLength) w) (\<lambda>w.
     rbind (writeUInt16 rng w) (\<lambda>w.
     rbind (writeString8 (truncateUtf8 sub kMaxSubtypeLength) w) (\<lambda>w. Inr (pw_bytes w))))))"

definition ping_packet :: "time \<Rightarrow> byte list result" where
  "ping_packet now =
     rbind (writeByte (packet_code Ping) (new_writer (1 + 4))) (\<lambda>w.
     rbind (writeUInt32 (word_of_int (now div 1000000)) w) (\<lambda>w. Inr (pw_bytes w)))"

definition sendRaw :: "byte list \<Rightarrow> net \<Rightarrow> net_out list" where
  "sendRaw data n = (if \<not> n_socket n \<or> \<not> n_connected n then [] else [Sent data])"

text \<open>An exception of the writer leaves the caller; \<open>Inl\<close> is that case.\<close>

definition sendVoiceFrame :: "byte list \<Rightarrow> bool \<Rightarrow> net \<Rightarrow> (net_out list \<times> net) result" where
  "sendVoiceFrame opus isLast n =
     (if opus = [] \<or> kMaxOpusFrameLength < length opus \<or> \<not> n_connected n then Inr ([], n)
      else
        let n' = n\<lparr>n_voiceSequence := n_voiceSequence n + 1\<rparr>
        in if \<not> n_socket n then Inr ([], n')
           else rbind (voice_packet (n_voiceSequence n) isLast opus) (\<lambda>p. Inr ([Sent p], n')))"

definition sendRadioTx :: "bool \<Rightarrow> string \<Rightarrow> 16 word \<Rightarrow> string \<Rightarrow> net \<Rightarrow> net_out list result" where
  "sendRadioTx active freq rng sub n = rbind (radio_tx_packet active freq rng sub) (\<lambda>p. Inr (sendRaw p n))"

definition requestRoster :: "net \<Rightarrow> net_out list" where
  "requestRoster n = sendRaw [packet_code RosterRequest] n"

section \<open>Handshake\<close>

text \<open>What one call of \<open>recv\<close> returns: nothing usable (a timeout or an error), or a datagram.\<close>

datatype recv = NoData | Datagram "byte list"

text \<open>
  One attempt, as the outside world answers it: whether the name was resolved, whether the socket
  could be opened and connected, whether the send worked, and what \<open>recv\<close> returned until the deadline.
\<close>

record attempt =
  at_resolved :: bool
  at_opened :: bool
  at_sent :: bool
  at_recvs :: "recv list"

datatype reply = Accepted "32 word" bool string | Rejected

fun await_reply :: "recv list \<Rightarrow> reply option" where
  "await_reply [] = None"
| "await_reply (NoData # rs) = await_reply rs"
| "await_reply (Datagram d # rs) =
     (if d = [] then await_reply rs
      else if hd d = packet_code ConnectAccept then
        (case parse_accept d of
           Inl _ \<Rightarrow> await_reply rs
         | Inr (sid, debug, version) \<Rightarrow> Some (Accepted sid debug version))
      else if hd d = packet_code ConnectReject then Some Rejected
      else await_reply rs)"

definition resolveAndOpenSocket :: "attempt \<Rightarrow> net \<Rightarrow> bool \<times> net" where
  "resolveAndOpenSocket a n =
     (let n = closeSocket n
      in if \<not> at_resolved a then (False, n\<lparr>n_resolveFailCount := n_resolveFailCount n + 1\<rparr>)
         else if \<not> at_opened a then (False, n\<lparr>n_resolveFailCount := 0\<rparr>)
         else (True, n\<lparr>n_resolveFailCount := 0, n_socket := True\<rparr>))"

text \<open>The attempts from number \<open>i\<close> on, with \<open>k\<close> left; \<open>None\<close> when none of them got an answer.\<close>

fun attempts :: "byte list \<Rightarrow> (nat \<Rightarrow> attempt) \<Rightarrow> nat \<Rightarrow> nat \<Rightarrow> net \<Rightarrow> net_out list \<times> bool option \<times> net" where
  "attempts packet env i 0 n = ([], None, n)"
| "attempts packet env i (Suc k) n =
     (case resolveAndOpenSocket (env i) n of
        (False, n) \<Rightarrow> (case attempts packet env (Suc i) k n of (os, r) \<Rightarrow> (Slept (ms 200) # os, r))
      | (True, n) \<Rightarrow>
          if \<not> at_sent (env i) then attempts packet env (Suc i) k n
          else (case await_reply (at_recvs (env i)) of
                  None \<Rightarrow> (case attempts packet env (Suc i) k n of (os, r) \<Rightarrow> (Sent packet # os, r))
                | Some Rejected \<Rightarrow> ([Sent packet], Some False, n)
                | Some (Accepted sid debug version) \<Rightarrow>
                    ([Sent packet], Some True,
                     n\<lparr>n_sessionId := sid, n_debugForceAudible := debug, n_serverVersion := version,
                       n_handshakeSilentFailCount := 0\<rparr>)))"

definition tryHandshake ::
    "(string \<Rightarrow> byte list option) \<Rightarrow> (nat \<Rightarrow> attempt) \<Rightarrow> serverConfig \<Rightarrow> ident \<Rightarrow> net \<Rightarrow>
      (net_out list \<times> bool \<times> net) result" where
  "tryHandshake sha256 env config idt n =
     (case sha256 (sc_password config) of
        None \<Rightarrow> Inr ([], False, n)
      | Some passwordHash \<Rightarrow>
          rbind (connect_packet passwordHash idt) (\<lambda>packet.
            case attempts packet env 0 kHandshakeRetries n of
              (os, Some ok, n) \<Rightarrow> Inr (os, ok, n)
            | (os, None, n) \<Rightarrow>
                Inr (os, False, n\<lparr>n_handshakeSilentFailCount := n_handshakeSilentFailCount n + 1\<rparr>)))"

section \<open>The worker thread\<close>

text \<open>
  \<open>pumpReceive\<close>: what \<open>recv\<close> returns, with the clock after it; an empty rest is a timeout. At most
  \<open>budget\<close> datagrams are drained, a malformed one is dropped.
\<close>

fun pump :: "nat \<Rightarrow> (time \<times> recv) list \<Rightarrow> net \<Rightarrow> net_out list \<times> net" where
  "pump 0 rs n = ([], n)"
| "pump (Suc budget) [] n = ([], n)"
| "pump (Suc budget) ((t, NoData) # rs) n = ([], n)"
| "pump (Suc budget) ((t, Datagram d) # rs) n =
     (if d = [] then ([], n)
      else
        let n' = n\<lparr>n_lastRecvTime := t\<rparr>;
            raised = (case handlePacket d of Inr (Some ev) \<Rightarrow> [Raised ev] | _ \<Rightarrow> [])
        in case pump budget rs n' of (os, n'') \<Rightarrow> (raised @ os, n''))"

definition pumpReceive :: "(time \<times> recv) list \<Rightarrow> net \<Rightarrow> net_out list \<times> net" where
  "pumpReceive rs n = pump kMaxPacketsPerPump rs n"

text \<open>What the outside answers in one iteration: the attempts, the clock at the connect, the datagrams,
  whether \<open>m_running\<close> still holds after them, and the clock at the housekeeping.\<close>

record thread_env =
  te_attempts :: "nat \<Rightarrow> attempt"
  te_connectTime :: time
  te_recvs :: "(time \<times> recv) list"
  te_running :: bool
  te_now :: time

definition ping_step :: "time \<Rightarrow> net \<Rightarrow> (net_out list \<times> net) result" where
  "ping_step now n =
     (if kPingInterval \<le> now - n_lastPingTime n then
        rbind (ping_packet now) (\<lambda>p. Inr (sendRaw p n @ requestRoster n, n\<lparr>n_lastPingTime := now\<rparr>))
      else Inr ([], n))"

definition watchdog_step :: "time \<Rightarrow> net \<Rightarrow> net_out list \<times> net" where
  "watchdog_step now n =
     (if kServerTimeout < now - n_lastRecvTime n then setConnected False (closeSocket n) else ([], n))"

definition connect_step ::
    "(string \<Rightarrow> byte list option) \<Rightarrow> thread_env \<Rightarrow> serverConfig \<Rightarrow> ident \<Rightarrow> net \<Rightarrow> (net_out list \<times> net) result" where
  "connect_step sha256 env config idt n =
     rbind (tryHandshake sha256 (te_attempts env) config idt n) (\<lambda>(os, ok, n).
       if ok then
         let n' = n\<lparr>n_activeConfig := config, n_activeUid := id_uid idt, n_voiceSequence := 0,
               n_lastPingTime := te_connectTime env, n_lastRecvTime := te_connectTime env\<rparr>
         in case setConnected True n' of (os', n'') \<Rightarrow> Inr (os @ os', n'')
       else Inr (os @ [Slept kReconnectInterval], closeSocket n))"

text \<open>One pass through the body of \<open>threadMain\<close>'s loop.\<close>

definition thread_step ::
    "(string \<Rightarrow> byte list option) \<Rightarrow> thread_env \<Rightarrow> net \<Rightarrow> (net_out list \<times> net) result" where
  "thread_step sha256 env n =
     (let config = n_config n; idt = n_identity n;
          shouldReconnect = (n_connected n \<and> configChanged n)
      in if sc_host config = [] \<or> sc_port config = 0 then
           Inr ([Slept kReconnectInterval], n\<lparr>n_notConfiguredLogCount := n_notConfiguredLogCount n + 1\<rparr>)
         else
           let n0 = n\<lparr>n_notConfiguredLogCount := 0\<rparr>
           in case (if shouldReconnect then setConnected False (closeSocket n0) else ([], n0)) of
                (os1, n1) \<Rightarrow>
                  rbind (if \<not> n_connected n1 then connect_step sha256 env config idt n1 else Inr ([], n1)) (\<lambda>(os2, n2).
                    if \<not> n_connected n2 then Inr (os1 @ os2, n2)
                    else case pumpReceive (te_recvs env) n2 of
                      (os3, n3) \<Rightarrow>
                        if \<not> te_running env then Inr (os1 @ os2 @ os3, closeSocket (n3\<lparr>n_running := False\<rparr>))
                        else rbind (ping_step (te_now env) n3) (\<lambda>(os4, n4).
                          case watchdog_step (te_now env) n4 of
                            (os5, n5) \<Rightarrow> Inr (os1 @ os2 @ os3 @ os4 @ os5, n5))))"

end
