(* ===== verification/NetProps.thy ===== *)
theory NetProps
  imports NetClient
begin

text \<open>
  The properties of the wire format and of the network client: round trips with the packet layouts
  of \<open>docs/protocol-network.md\<close>, memory safety of the parsers, buffers that always fit, the bounded
  receive pump, the keepalive and watchdog, reconnection, and the sequence numbers.
\<close>

section \<open>Packets from the server\<close>

text \<open>The layouts the server sends, from the protocol document.\<close>

fun event_bytes :: "net_event \<Rightarrow> byte list" where
  "event_bytes (VoiceFrame sid sequence isLast opus) =
     packet_code VoiceDown # enc32 sid @ enc16 sequence @ (if isLast then 1 else 0) # opus"
| "event_bytes (RemoteJoined sid uid name) =
     packet_code ClientJoined # enc32 sid @ enc_string8 uid @ enc_string8 name"
| "event_bytes (RemoteLeft sid) = packet_code ClientLeft # enc32 sid"
| "event_bytes (RadioTx sid active freq rng sub) =
     packet_code RadioTxBroadcast # enc32 sid @ (if active then 1 else 0) # enc_string8 freq @ enc16 rng @ enc_string8 sub"

fun event_fits :: "net_event \<Rightarrow> bool" where
  "event_fits (RemoteJoined sid uid name) \<longleftrightarrow> length uid \<le> kMaxUidLength \<and> length name \<le> kMaxNameLength"
| "event_fits (RadioTx sid active freq rng sub) \<longleftrightarrow> length freq \<le> kMaxFreqLength \<and> length sub \<le> kMaxSubtypeLength"
| "event_fits _ \<longleftrightarrow> True"

text \<open>Every packet of the server is understood: the callback raised for a VoiceDown, ClientJoined,
  ClientLeft or RadioTxBroadcast packet carries exactly the fields that were encoded.\<close>

theorem server_packet_roundtrip:
  assumes "event_fits ev"
  shows "handlePacket (event_bytes ev) = Inr (Some ev)"
  using assms
  by (cases ev)
    (simp_all add: handlePacket_def new_reader_rdr readByte_rdr u32_field.rd_enc u32_field.rd_enc_end
      u16_field.rd_enc string_field.rd_enc string_field.rd_enc_end max_lengths kVoiceFlagsLastFrame_def)

theorem server_packet_roundtrip_witness:
  "handlePacket (event_bytes (RadioTx 7 True ''51'' 5000 ''digital'')) = Inr (Some (RadioTx 7 True ''51'' 5000 ''digital''))"
  by (rule server_packet_roundtrip) (simp add: max_lengths)

text \<open>C14. No datagram, however malformed, makes the parsers read outside it: handling a packet and
  parsing a handshake reply either succeed or throw the reader's exceptions.\<close>

theorem parsers_memory_safe: "handlePacket data \<noteq> Inl Undefined \<and> parse_accept data \<noteq> Inl Undefined"
proof -
  have ok: "reader_ok (new_reader data)" by (simp add: new_reader_rdr)
  note step = byte_field.rd_then_defined u16_field.rd_then_defined u32_field.rd_then_defined string_field.rd_then_defined
  have opt16: "defined (rbind (if b then rbind (readUInt16 r) (\<lambda>(_, r). Inr r) else Inr r) f)"
    if "reader_ok r" "\<And>r. reader_ok r \<Longrightarrow> defined (f r)" for b r and f :: "reader \<Rightarrow> 'x result"
    using that u16_field.rd_defined[of r] u16_field.rd_keeps_ok[of r]
    by (cases "readUInt16 r") (auto simp: defined_def)
  have opt8: "defined (rbind (if b then rbind (readByte r) (\<lambda>(v, r). Inr (v \<noteq> 0, r)) else Inr (False, r)) f)"
    if "reader_ok r" "\<And>v r. reader_ok r \<Longrightarrow> defined (f (v, r))" for b r and f :: "bool \<times> reader \<Rightarrow> 'x result"
    using that byte_field.rd_defined[of r] byte_field.rd_keeps_ok[of r]
    by (cases "readByte r") (auto simp: defined_def)
  have "defined (handlePacket data)"
    unfolding handlePacket_def by (auto intro!: step ok)
  moreover have "defined (parse_accept data)"
    unfolding parse_accept_def by (auto intro!: step ok opt16 opt8)
  ultimately show ?thesis by (simp add: defined_def)
qed

section \<open>Packets to the server\<close>

lemma byte_write: "writeByte b w = (if pw_capacity w < pw_pos w + 1 then Inl BufferTooSmall
    else Inr (w\<lparr>pw_bytes := pw_bytes w @ [b]\<rparr>))"
  using byte_field.wr_spec[of b w] by (simp add: enc_byte_def)

lemma field_sizes [simp]:
  "length (enc16 v) = 2" "length (enc32 u) = 4" "length (enc_string8 s) = 1 + length s"
  by (simp_all add: field_lengths)

lemma truncated_fits: "n \<le> 255 \<Longrightarrow> length (truncateUtf8 s n) \<le> n \<and> length (truncateUtf8 s n) \<le> 255"
  using length_truncateUtf8[of s n] by simp

lemma radio_tx_packet_eq:
  "radio_tx_packet active freq rng sub =
     Inr (packet_code RadioTxUpdate # (if active then 1 else 0) #
       enc_string8 (truncateUtf8 freq kMaxFreqLength) @ enc16 rng @ enc_string8 (truncateUtf8 sub kMaxSubtypeLength))"
  using truncated_fits[of 16 freq] truncated_fits[of 16 sub]
  by (simp add: radio_tx_packet_def byte_write new_writer_def string_field.wr_spec[of _ 16]
      u16_field.wr_spec max_lengths)

lemma connect_packet_eq:
  assumes "length hash = 32"
  shows "connect_packet hash idt =
     Inr (packet_code ConnectRequest # kVersionMajor # hash @
       enc_string8 (truncateUtf8 (id_uid idt) kMaxUidLength) @ enc_string8 (truncateUtf8 (id_name idt) kMaxNameLength))"
  using truncated_fits[of 40 "id_uid idt"] truncated_fits[of 32 "id_name idt"] assms
  by (simp add: connect_packet_def byte_write new_writer_def string_field.wr_spec[of _ 40] string_field.wr_spec[of _ 32]
      writeBytes_spec max_lengths Let_def)

lemma voice_packet_eq:
  assumes "length opus \<le> kMaxOpusFrameLength"
  shows "voice_packet sequence isLast opus =
     Inr (packet_code VoiceUp # enc16 sequence @ (if isLast then kVoiceFlagsLastFrame else kVoiceFlagsNone) # opus)"
  using assms
  by (simp add: voice_packet_def byte_write new_writer_def u16_field.wr_spec writeBytes_spec max_lengths)

lemma ping_packet_eq: "ping_packet now = Inr (packet_code Ping # enc32 (word_of_int (now div 1000000)))"
  by (simp add: ping_packet_def byte_write new_writer_def u32_field.wr_spec)

text \<open>What a reader of the same format finds in the packets to the server: the fields in the order of the
  protocol, behind the byte that names the packet.\<close>

definition read_fixed :: "nat \<Rightarrow> reader \<Rightarrow> (byte list \<times> reader) result" where
  "read_fixed n r = rbind (need n r) (\<lambda>_. fetches n r)"

definition read_connect :: "byte list \<Rightarrow> (byte \<times> byte \<times> byte list \<times> string \<times> string) result" where
  "read_connect data =
     rbind (readByte (new_reader data)) (\<lambda>(code, r).
     rbind (readByte r) (\<lambda>(version, r).
     rbind (read_fixed 32 r) (\<lambda>(hash, r).
     rbind (readString8 kMaxUidLength r) (\<lambda>(uid, r).
     rbind (readString8 kMaxNameLength r) (\<lambda>(name, r). Inr (code, version, hash, uid, name))))))"

definition read_voice :: "byte list \<Rightarrow> (byte \<times> 16 word \<times> bool \<times> byte list) result" where
  "read_voice data =
     rbind (readByte (new_reader data)) (\<lambda>(code, r).
     rbind (readUInt16 r) (\<lambda>(sequence, r).
     rbind (readByte r) (\<lambda>(flags, r). Inr (code, sequence, flags AND kVoiceFlagsLastFrame \<noteq> 0, fst (readRemaining r)))))"

definition read_ping :: "byte list \<Rightarrow> (byte \<times> 32 word) result" where
  "read_ping data =
     rbind (readByte (new_reader data)) (\<lambda>(code, r).
     rbind (readUInt32 r) (\<lambda>(timestamp, r). Inr (code, timestamp)))"

definition read_radio_tx :: "byte list \<Rightarrow> (byte \<times> bool \<times> string \<times> 16 word \<times> string) result" where
  "read_radio_tx data =
     rbind (readByte (new_reader data)) (\<lambda>(code, r).
     rbind (readByte r) (\<lambda>(active, r).
     rbind (readString8 kMaxFreqLength r) (\<lambda>(freq, r).
     rbind (readUInt16 r) (\<lambda>(rng, r).
     rbind (readString8 kMaxSubtypeLength r) (\<lambda>(sub, r). Inr (code, active \<noteq> 0, freq, rng, sub))))))"

lemmas read_simps = new_reader_rdr readByte_rdr string_field.rd_enc string_field.rd_enc_end u16_field.rd_enc
  u32_field.rd_enc_end max_lengths

lemma read_fixed_rdr:
  "length bs = n \<Longrightarrow> read_fixed n (rdr pre (bs @ post)) = Inr (bs, rdr (pre @ bs) post)"
  by (simp add: read_fixed_def need_def fetches_rdr)

text \<open>C15. Every packet the client sends fits its buffer, so no writer throws, and a reader of the format
  finds in it what was put in, field by field: in a connect request the version, the password hash and
  the uid and name, cut to 40 and 32 bytes; in a voice packet the sequence number, the end marker and the
  Opus bytes; in a ping the clock; in a radio update the flag, the range and the frequency and subtype, cut
  to 16 bytes.\<close>

theorem client_packets_fit:
  assumes "length hash = 32" "length opus \<le> kMaxOpusFrameLength"
  shows "(\<exists>p. connect_packet hash idt = Inr p \<and>
      read_connect p = Inr (packet_code ConnectRequest, kVersionMajor, hash,
        truncateUtf8 (id_uid idt) kMaxUidLength, truncateUtf8 (id_name idt) kMaxNameLength)) \<and>
   (\<exists>p. voice_packet sequence isLast opus = Inr p \<and>
      read_voice p = Inr (packet_code VoiceUp, sequence, isLast, opus)) \<and>
   (\<exists>p. ping_packet now = Inr p \<and> read_ping p = Inr (packet_code Ping, word_of_int (now div 1000000))) \<and>
   (\<exists>p. radio_tx_packet active freq rng sub = Inr p \<and>
      read_radio_tx p = Inr (packet_code RadioTxUpdate, active, truncateUtf8 freq kMaxFreqLength, rng,
        truncateUtf8 sub kMaxSubtypeLength))"
proof (intro conjI)
  show "\<exists>p. connect_packet hash idt = Inr p \<and>
      read_connect p = Inr (packet_code ConnectRequest, kVersionMajor, hash,
        truncateUtf8 (id_uid idt) kMaxUidLength, truncateUtf8 (id_name idt) kMaxNameLength)"
    using truncated_fits[of 40 "id_uid idt"] truncated_fits[of 32 "id_name idt"] assms(1)
    by (simp add: connect_packet_eq read_connect_def read_simps read_fixed_rdr)
  show "\<exists>p. voice_packet sequence isLast opus = Inr p \<and>
      read_voice p = Inr (packet_code VoiceUp, sequence, isLast, opus)"
    using assms(2)
    by (simp add: voice_packet_eq read_voice_def read_simps kVoiceFlagsLastFrame_def kVoiceFlagsNone_def)
  show "\<exists>p. ping_packet now = Inr p \<and> read_ping p = Inr (packet_code Ping, word_of_int (now div 1000000))"
    by (simp add: ping_packet_eq read_ping_def read_simps)
  show "\<exists>p. radio_tx_packet active freq rng sub = Inr p \<and>
      read_radio_tx p = Inr (packet_code RadioTxUpdate, active, truncateUtf8 freq kMaxFreqLength, rng,
        truncateUtf8 sub kMaxSubtypeLength)"
    using truncated_fits[of 16 freq] truncated_fits[of 16 sub]
    by (simp add: radio_tx_packet_eq read_radio_tx_def read_simps)
qed

theorem client_packets_fit_witness:
  "(\<exists>p. voice_packet 3 False [1, 2, 3] = Inr p \<and> read_voice p = Inr (packet_code VoiceUp, 3, False, [1, 2, 3])) \<and>
   (\<exists>p. connect_packet (replicate 32 0) \<lparr>id_uid = ''u'', id_name = ''n''\<rparr> = Inr p \<and>
      read_connect p = Inr (packet_code ConnectRequest, kVersionMajor, replicate 32 0, ''u'', ''n''))"
proof -
  have "length (replicate 32 (0 :: byte)) = 32" "length [1, 2, 3 :: byte] \<le> kMaxOpusFrameLength"
    by (simp_all add: max_lengths)
  from client_packets_fit[OF this, of "\<lparr>id_uid = ''u'', id_name = ''n''\<rparr>" 3 False 0 False "[]" 0 "[]"]
  moreover have "truncateUtf8 ''u'' 40 = ''u''" "truncateUtf8 ''n'' 32 = ''n''"
    by (simp_all add: truncateUtf8.simps)
  ultimately show ?thesis by (simp add: max_lengths)
qed

text \<open>C16. Truncation for the wire cuts only between UTF-8 sequences and no more than it must: the
  result is the longest prefix within the limit that ends at a sequence boundary.\<close>

theorem truncation_longest_prefix:
  "\<exists>k. truncateUtf8 s n = take k s \<and> k \<le> length s \<and> length (truncateUtf8 s n) \<le> n \<and>
     (length s \<le> n \<longrightarrow> truncateUtf8 s n = s) \<and>
     boundary s k \<and> (\<forall>j \<le> n. boundary s j \<longrightarrow> j \<le> k)"
proof -
  from truncateUtf8_prefix[of s n] obtain k where "truncateUtf8 s n = take k s" "k \<le> length s"
    "length s \<le> n \<longrightarrow> k = length s" "boundary s k" "\<forall>j \<le> n. boundary s j \<longrightarrow> j \<le> k" by blast
  then show ?thesis using length_truncateUtf8[of s n] by (intro exI[of _ k]) auto
qed

text \<open>Two-byte characters: at most three bytes keep one of them.\<close>

theorem truncation_longest_prefix_witness:
  "length (truncateUtf8 [chr_of 0xC3, chr_of 0xA4, chr_of 0xC3, chr_of 0xB6] 3) = 2"
proof -
  let ?s = "[chr_of 0xC3, chr_of 0xA4, chr_of 0xC3, chr_of 0xB6]"
  from truncation_longest_prefix[of ?s 3] obtain k where k: "truncateUtf8 ?s 3 = take k ?s" "k \<le> 4"
    "length (truncateUtf8 ?s 3) \<le> 3" "boundary ?s k" "\<forall>j \<le> 3. boundary ?s j \<longrightarrow> j \<le> k" by auto
  have "boundary ?s 2" "\<not> boundary ?s 3" by (simp_all add: boundary_def continuation_def)
  with k have "2 \<le> k" "k \<noteq> 3" by auto
  with k show ?thesis by (auto simp: min_def split: if_splits)
qed


section \<open>The receive pump\<close>

definition raised_by :: "time \<times> recv \<Rightarrow> net_out list" where
  "raised_by tr = (case snd tr of Datagram d \<Rightarrow>
     (case handlePacket d of Inr (Some ev) \<Rightarrow> [Raised ev] | _ \<Rightarrow> []) | NoData \<Rightarrow> [])"

definition has_data :: "time \<times> recv \<Rightarrow> bool" where
  "has_data tr \<longleftrightarrow> (case snd tr of Datagram d \<Rightarrow> d \<noteq> [] | NoData \<Rightarrow> False)"

lemma pump_eq:
  "pump k rs n =
     (concat (map raised_by (take k (takeWhile has_data rs))),
      fold (\<lambda>tr n. n\<lparr>n_lastRecvTime := fst tr\<rparr>) (take k (takeWhile has_data rs)) n)"
proof (induction k rs n rule: pump.induct)
  case (4 k t d rs n)
  show ?case
  proof (cases "d = []")
    case False
    from 4[OF False refl refl] False show ?thesis
      by (simp add: has_data_def raised_by_def[of "(t, Datagram d)"])
  qed (simp add: has_data_def)
qed (simp_all add: has_data_def)

lemma fold_last_recv:
  "fold (\<lambda>tr n. n\<lparr>n_lastRecvTime := fst tr\<rparr>) trs n =
     (if trs = [] then n else n\<lparr>n_lastRecvTime := fst (last trs)\<rparr>)"
  by (induction trs rule: rev_induct) auto

text \<open>One pump of the receive loop handles the datagrams that are there in order, at most 256 of
  them so that the housekeeping after it always gets its turn, raises exactly the callbacks of the
  well-formed ones, drops the malformed ones without losing the connection, and counts every one of
  them as a sign of life.\<close>

theorem pump_receive:
  "pumpReceive rs n =
     (let handled = take 256 (takeWhile has_data rs)
      in (concat (map raised_by handled),
          if handled = [] then n else n\<lparr>n_lastRecvTime := fst (last handled)\<rparr>)) \<and>
   length (take 256 (takeWhile has_data rs)) \<le> 256"
  by (simp add: pumpReceive_def pump_eq fold_last_recv kMaxPacketsPerPump_def Let_def)

section \<open>The worker thread\<close>

definition net_inv :: "net \<Rightarrow> bool" where
  "net_inv n \<longleftrightarrow> (n_connected n \<longrightarrow> n_socket n) \<and>
     (\<not> n_connected n \<longrightarrow> n_sessionId n = 0 \<and> \<not> n_debugForceAudible n)"

definition configured :: "net \<Rightarrow> bool" where
  "configured n \<longleftrightarrow> sc_host (n_config n) \<noteq> [] \<and> sc_port (n_config n) \<noteq> 0"

definition sha_doc :: "(string \<Rightarrow> byte list option) \<Rightarrow> bool" where
  "sha_doc sha256 \<longleftrightarrow> (\<forall>s h. sha256 s = Some h \<longrightarrow> length h = 32)"

text \<open>What the handshake leaves alone, and what it leaves open.\<close>

definition same_config :: "net \<Rightarrow> net \<Rightarrow> bool" where
  "same_config n n' \<longleftrightarrow> n_connected n' = n_connected n \<and> n_config n' = n_config n \<and>
     n_identity n' = n_identity n \<and> n_activeConfig n' = n_activeConfig n \<and>
     n_activeUid n' = n_activeUid n \<and> n_running n' = n_running n"

definition same_session :: "net \<Rightarrow> net \<Rightarrow> bool" where
  "same_session n n' \<longleftrightarrow> n_sessionId n' = n_sessionId n \<and> n_debugForceAudible n' = n_debugForceAudible n"

lemma same_trans:
  "same_config n n' \<Longrightarrow> same_config n' n'' \<Longrightarrow> same_config n n''"
  "same_session n n' \<Longrightarrow> same_session n' n'' \<Longrightarrow> same_session n n''"
  by (auto simp: same_config_def same_session_def)

lemma resolve_frame:
  assumes "resolveAndOpenSocket a n = (ok, n')"
  shows "same_config n n'" "same_session n n'" "ok \<longrightarrow> n_socket n'"
  using assms
  by (auto simp: resolveAndOpenSocket_def closeSocket_def Let_def same_config_def same_session_def split: if_splits)

lemma attempts_frame:
  assumes "attempts packet env i k n = (os, r, n')"
  shows "same_config n n' \<and> (r = Some True \<longrightarrow> n_socket n') \<and> (r \<noteq> Some True \<longrightarrow> same_session n n') \<and>
    set os \<subseteq> {Sent packet, Slept (ms 200)} \<and> length os \<le> k"
  using assms
proof (induction k arbitrary: i n os)
  case 0
  then show ?case by (simp add: same_config_def same_session_def)
next
  case (Suc k)
  obtain ok m where m: "resolveAndOpenSocket (env i) n = (ok, m)" by force
  obtain os' r' n'' where rest: "attempts packet env (Suc i) k m = (os', r', n'')" by (cases "attempts packet env (Suc i) k m")
  note fr = resolve_frame[OF m]
  show ?case
  proof (cases "ok \<and> at_sent (env i) \<and> await_reply (at_recvs (env i)) \<noteq> None")
    case True
    then obtain rep where "await_reply (at_recvs (env i)) = Some rep" by auto
    with True Suc.prems m fr show ?thesis
      by (cases rep) (auto simp: same_config_def same_session_def)
  next
    case False
    then have eq: "r = r'" "n' = n''" "set os \<subseteq> set os' \<union> {Sent packet, Slept (ms 200)}" "length os \<le> Suc (length os')"
      using Suc.prems m rest by (auto split: bool.splits if_splits option.splits)
    have ih: "same_config m n''" "r' = Some True \<longrightarrow> n_socket n''" "r' \<noteq> Some True \<longrightarrow> same_session m n''"
      "set os' \<subseteq> {Sent packet, Slept (ms 200)}" "length os' \<le> k"
      using Suc.IH[of "Suc i" m os'] rest eq by simp_all
    have "same_config n n''" using same_trans(1)[OF fr(1) ih(1)] .
    moreover have "r' \<noteq> Some True \<longrightarrow> same_session n n''" using same_trans(2)[OF fr(2)] ih(3) by blast
    moreover have "set os \<subseteq> {Sent packet, Slept (ms 200)}" using eq(3) ih(4) by blast
    moreover have "length os \<le> Suc k" using eq(4) ih(5) by linarith
    ultimately show ?thesis using eq(1,2) ih(2) by simp
  qed
qed

lemma tryHandshake_cases:
  assumes "tryHandshake sha256 env config idt n = Inr (os, ok, n')"
  obtains "os = []" "\<not> ok" "n' = n"
  | packet r m where "attempts packet env 0 kHandshakeRetries n = (os, r, m)" "ok = (r = Some True)"
      "n' = (if r = None then m\<lparr>n_handshakeSilentFailCount := n_handshakeSilentFailCount m + 1\<rparr> else m)"
proof (cases "sha256 (sc_password config)")
  case None
  with assms that(1) show thesis by (simp add: tryHandshake_def)
next
  case (Some h)
  with assms obtain packet where "connect_packet h idt = Inr packet"
    "(case attempts packet env 0 kHandshakeRetries n of
        (os, Some ok, n) \<Rightarrow> Inr (os, ok, n)
      | (os, None, n) \<Rightarrow> Inr (os, False, n\<lparr>n_handshakeSilentFailCount := n_handshakeSilentFailCount n + 1\<rparr>)) =
      (Inr (os, ok, n') :: (net_out list \<times> bool \<times> net) result)"
    by (auto simp: tryHandshake_def rbind_Inr_iff)
  then show thesis using that(2)[of packet]
    by (cases "attempts packet env 0 kHandshakeRetries n") (auto split: option.splits)
qed

lemma tryHandshake_frame:
  assumes "tryHandshake sha256 env config idt n = Inr (os, ok, n')"
  shows "same_config n n' \<and> (ok \<longrightarrow> n_socket n') \<and> (\<not> ok \<longrightarrow> same_session n n') \<and>
    (\<forall>b. StateChanged b \<notin> set os) \<and> length os \<le> kHandshakeRetries"
  using assms
proof (cases rule: tryHandshake_cases)
  case 1
  then show ?thesis by (simp add: same_config_def same_session_def)
next
  case (2 packet r m)
  from attempts_frame[OF 2(1)] 2(2,3) show ?thesis
    by (auto simp: same_config_def same_session_def split: if_splits)
qed

lemma connect_step_frame:
  assumes "connect_step sha256 env config idt n = Inr (os, n')" "\<not> n_connected n" "net_inv n"
  shows "net_inv n' \<and> n_config n' = n_config n \<and> n_identity n' = n_identity n \<and> n_running n' = n_running n \<and>
    (n_connected n' \<longrightarrow> n_activeConfig n' = config \<and> n_activeUid n' = id_uid idt \<and> n_voiceSequence n' = 0 \<and>
       n_lastRecvTime n' = te_connectTime env \<and> n_lastPingTime n' = te_connectTime env \<and> StateChanged True \<in> set os) \<and>
    StateChanged False \<notin> set os"
proof -
  obtain os' ok m where t: "tryHandshake sha256 (te_attempts env) config idt n = Inr (os', ok, m)"
    using assms(1) by (auto simp: connect_step_def rbind_Inr_iff)
  from tryHandshake_frame[OF t] t assms show ?thesis
    by (auto simp: connect_step_def setConnected_def closeSocket_def net_inv_def same_config_def same_session_def
        split: if_splits)
qed

lemma pumpReceive_frame:
  assumes "pumpReceive rs n = (os, n')"
  shows "n' = n\<lparr>n_lastRecvTime := n_lastRecvTime n'\<rparr>" "\<forall>b. StateChanged b \<notin> set os"
  using assms pump_receive[of rs n]
  by (auto simp: Let_def raised_by_def split: if_splits recv.splits sum.splits option.splits)


text \<open>One iteration with a configured server, taken apart: the disconnect on a changed configuration,
  the handshake, the pump, the ping and the watchdog.\<close>

definition drop_step :: "net \<Rightarrow> net_out list \<times> net" where
  "drop_step n = (if n_connected n \<and> configChanged n
     then setConnected False (closeSocket (n\<lparr>n_notConfiguredLogCount := 0\<rparr>))
     else ([], n\<lparr>n_notConfiguredLogCount := 0\<rparr>))"

definition rest_step :: "thread_env \<Rightarrow> net \<Rightarrow> (net_out list \<times> net) result" where
  "rest_step env n =
     (case pumpReceive (te_recvs env) n of
        (os3, n3) \<Rightarrow>
          if \<not> te_running env then Inr (os3, closeSocket (n3\<lparr>n_running := False\<rparr>))
          else rbind (ping_step (te_now env) n3) (\<lambda>(os4, n4).
            case watchdog_step (te_now env) n4 of (os5, n5) \<Rightarrow> Inr (os3 @ os4 @ os5, n5)))"

lemma rbind_assoc: "rbind (rbind x f) g = rbind x (\<lambda>y. rbind (f y) g)"
  by (cases x) auto

lemma thread_step_alt:
  assumes "configured n"
  shows "thread_step sha256 env n =
    (case drop_step n of (os1, n1) \<Rightarrow>
       rbind (if \<not> n_connected n1 then connect_step sha256 env (n_config n) (n_identity n) n1 else Inr ([], n1))
         (\<lambda>(os2, n2). if \<not> n_connected n2 then Inr (os1 @ os2, n2)
            else rbind (rest_step env n2) (\<lambda>(os3, n3). Inr (os1 @ os2 @ os3, n3))))"
proof -
  have r: "(case pumpReceive (te_recvs env) n2 of
        (os3, n3) \<Rightarrow>
          if \<not> te_running env then Inr (os1 @ os2 @ os3, closeSocket (n3\<lparr>n_running := False\<rparr>))
          else rbind (ping_step (te_now env) n3) (\<lambda>(os4, n4).
            case watchdog_step (te_now env) n4 of
              (os5, n5) \<Rightarrow> Inr (os1 @ os2 @ os3 @ os4 @ os5, n5))) =
      rbind (rest_step env n2) (\<lambda>(os3, n3). Inr (os1 @ os2 @ os3, n3))" for os1 os2 n2
    by (auto simp: rest_step_def rbind_assoc split: prod.splits intro!: arg_cong2[where f = rbind])
  show ?thesis
    using assms by (simp add: thread_step_def configured_def Let_def drop_step_def r cong: if_cong)
qed

lemma ping_step_eq:
  "ping_step now n = Inr
     (if kPingInterval \<le> now - n_lastPingTime n
      then (sendRaw (packet_code Ping # enc32 (word_of_int (now div 1000000))) n @ requestRoster n, n\<lparr>n_lastPingTime := now\<rparr>)
      else ([], n))"
  by (simp add: ping_step_def ping_packet_eq)

lemma rest_step_running:
  assumes "te_running env" "pumpReceive (te_recvs env) n = (os3, n3)"
  shows "rest_step env n =
    (let (os4, n4) = (if kPingInterval \<le> te_now env - n_lastPingTime n3
           then (sendRaw (packet_code Ping # enc32 (word_of_int (te_now env div 1000000))) n3 @ requestRoster n3,
                 n3\<lparr>n_lastPingTime := te_now env\<rparr>) else ([], n3));
         (os5, n5) = watchdog_step (te_now env) n4
     in Inr (os3 @ os4 @ os5, n5))"
  using assms by (simp add: rest_step_def ping_step_eq Let_def split: prod.split)

lemma drop_step_frame:
  assumes "drop_step n = (os1, n1)" "net_inv n"
  shows "net_inv n1" "n_config n1 = n_config n" "n_identity n1 = n_identity n" "n_running n1 = n_running n"
    "n_connected n1 = (n_connected n \<and> \<not> configChanged n)"
    "os1 = (if n_connected n \<and> configChanged n then [StateChanged False] else [])"
    "n_connected n1 \<Longrightarrow> n1 = n\<lparr>n_notConfiguredLogCount := 0\<rparr>"
  using assms
  by (auto simp: drop_step_def setConnected_def closeSocket_def net_inv_def split: if_splits)

lemma rest_step_frame:
  assumes "rest_step env n = Inr (os, n')" "net_inv n" "n_connected n"
  shows "n_config n' = n_config n" "n_identity n' = n_identity n"
    "n_activeConfig n' = n_activeConfig n" "n_activeUid n' = n_activeUid n"
    "te_running env \<Longrightarrow> net_inv n'"
proof -
  obtain os3 n3 where p: "pumpReceive (te_recvs env) n = (os3, n3)" by force
  note fr = pumpReceive_frame(1)[OF p]
  have c: "n_connected n3" "n_socket n3" "n_config n3 = n_config n" "n_identity n3 = n_identity n"
    "n_activeConfig n3 = n_activeConfig n" "n_activeUid n3 = n_activeUid n"
    using assms(2,3) by (subst fr, simp add: net_inv_def)+
  show "n_config n' = n_config n" "n_identity n' = n_identity n"
    "n_activeConfig n' = n_activeConfig n" "n_activeUid n' = n_activeUid n" "te_running env \<Longrightarrow> net_inv n'"
    using assms(1) c rest_step_running[OF _ p]
    by (cases "te_running env";
        auto simp: rest_step_def p watchdog_step_def setConnected_def closeSocket_def net_inv_def Let_def
          split: if_splits)+
qed

lemma thread_step_inv:
  assumes "thread_step sha256 env n = Inr (os, n')" "net_inv n" "te_running env"
  shows "net_inv n'"
proof (cases "configured n")
  case False
  then show ?thesis using assms by (auto simp: thread_step_def configured_def net_inv_def Let_def)
next
  case True
  obtain os1 n1 where d: "drop_step n = (os1, n1)" by force
  note dr = drop_step_frame[OF d assms(2)]
  from assms(1) obtain os2 n2 where c:
    "(if \<not> n_connected n1 then connect_step sha256 env (n_config n) (n_identity n) n1 else Inr ([], n1)) = Inr (os2, n2)"
    "(if \<not> n_connected n2 then Inr (os1 @ os2, n2)
      else rbind (rest_step env n2) (\<lambda>(os3, n3). Inr (os1 @ os2 @ os3, n3))) = Inr (os, n')"
    by (auto simp: thread_step_alt[OF True] d rbind_Inr_iff)
  have n2: "net_inv n2" using c(1) dr(1) connect_step_frame[of sha256 env "n_config n" "n_identity n" n1 os2 n2]
    by (auto split: if_splits)
  show ?thesis
  proof (cases "n_connected n2")
    case False
    with c(2) n2 show ?thesis by simp
  next
    case True
    with c(2) obtain os3 where "rest_step env n2 = Inr (os3, n')" by (auto simp: rbind_Inr_iff)
    from rest_step_frame(5)[OF this n2 True assms(3)] show ?thesis .
  qed
qed

text \<open>C17. Whatever the network does, an iteration of the worker thread that ends connected is
  connected to the configured server under the current uid; a changed address, password or uid is
  answered by a disconnect in the same iteration.\<close>

theorem connection_matches_configuration:
  assumes "thread_step sha256 env n = Inr (os, n')" "net_inv n" "configured n"
  shows "(n_connected n' \<longrightarrow> \<not> configChanged n') \<and>
    (n_connected n \<and> configChanged n \<longrightarrow> StateChanged False \<in> set os)"
proof -
  obtain os1 n1 where d: "drop_step n = (os1, n1)" by force
  note dr = drop_step_frame[OF d assms(2)]
  from assms(1) obtain os2 n2 where c:
    "(if \<not> n_connected n1 then connect_step sha256 env (n_config n) (n_identity n) n1 else Inr ([], n1)) = Inr (os2, n2)"
    "(if \<not> n_connected n2 then Inr (os1 @ os2, n2)
      else rbind (rest_step env n2) (\<lambda>(os3, n3). Inr (os1 @ os2 @ os3, n3))) = Inr (os, n')"
    by (auto simp: thread_step_alt[OF assms(3)] d rbind_Inr_iff)
  have n2: "net_inv n2" "n_connected n2 \<longrightarrow> \<not> configChanged n2"
    using c(1) dr connect_step_frame[of sha256 env "n_config n" "n_identity n" n1 os2 n2]
    by (auto simp: configChanged_def split: if_splits)
  have "n_connected n' \<longrightarrow> \<not> configChanged n'"
  proof (cases "n_connected n2")
    case False
    with c(2) show ?thesis by auto
  next
    case True
    with c(2) obtain os3 where "rest_step env n2 = Inr (os3, n')" by (auto simp: rbind_Inr_iff)
    from rest_step_frame(1-4)[OF this n2(1) True] n2(2) True show ?thesis by (simp add: configChanged_def)
  qed
  moreover have "n_connected n \<and> configChanged n \<longrightarrow> StateChanged False \<in> set os"
    using c(2) dr(6) by (auto simp: rbind_Inr_iff split: if_splits)
  ultimately show ?thesis by blast
qed


text \<open>A server that answers the first attempt with a ConnectAccept for session 9, and one voice packet.\<close>

definition zero_sha :: "string \<Rightarrow> byte list option" where
  "zero_sha s = Some (replicate 32 0)"

lemma zero_sha_doc: "sha_doc zero_sha"
  by (simp add: sha_doc_def zero_sha_def)

definition server_env :: thread_env where
  "server_env = \<lparr>te_attempts = (\<lambda>i. \<lparr>at_resolved = True, at_opened = True, at_sent = True,
       at_recvs = [NoData, Datagram (packet_code ConnectAccept # enc32 9)]\<rparr>),
     te_connectTime = ms 100, te_recvs = [(ms 120, Datagram (event_bytes (RemoteLeft 4)))],
     te_running = True, te_now = ms 130\<rparr>"

definition client :: net where
  "client = setIdentity ''u1'' ''Ann'' (setServer ''relay'' 9987 [] init_net)"

definition client_on :: net where
  "client_on = client\<lparr>n_connected := True, n_socket := True, n_sessionId := 9, n_activeConfig := n_config client,
     n_activeUid := ''u1'', n_lastPingTime := ms 100, n_lastRecvTime := ms 120\<rparr>"

lemma client_inv: "net_inv client" "net_inv client_on" "configured client" "configured client_on"
  by (simp_all add: net_inv_def configured_def client_def client_on_def init_net_def setIdentity_def setServer_def)

lemma accept_9: "parse_accept (packet_code ConnectAccept # enc32 9) = Inr (9, False, [])"
  by (simp add: parse_accept_def new_reader_rdr readByte_rdr u32_field.rd_enc_end)

lemma client_connects:
  "map_sum id snd (thread_step zero_sha server_env client) = Inr client_on"
  by code_simp

theorem connection_matches_configuration_witness:
  "n_connected client_on \<and> \<not> configChanged client_on"
proof -
  obtain os where "thread_step zero_sha server_env client = Inr (os, client_on)"
    using client_connects by (cases "thread_step zero_sha server_env client") auto
  from connection_matches_configuration[OF this client_inv(1,3)] show ?thesis
    by (simp add: client_on_def)
qed

lemma thread_step_total:
  assumes "sha_doc sha256"
  shows "\<exists>os n'. thread_step sha256 env n = Inr (os, n')"
proof (cases "configured n")
  case False
  then show ?thesis by (auto simp: thread_step_def configured_def Let_def)
next
  case True
  have h: "\<exists>r. tryHandshake sha256 e config idt m = Inr r" for e config idt m
  proof (cases "sha256 (sc_password config)")
    case (Some h)
    then obtain packet where "connect_packet h idt = Inr packet"
      using connect_packet_eq[of h idt] assms by (auto simp: sha_doc_def)
    with Some show ?thesis by (auto simp: tryHandshake_def split: prod.split option.split)
  qed (auto simp: tryHandshake_def)
  have c: "\<exists>r. connect_step sha256 e config idt m = Inr r" for e config idt m
    using h[of "te_attempts e" config idt m] by (auto simp: connect_step_def Let_def split: prod.splits if_splits)
  have r: "\<exists>r. rest_step e m = Inr r" for e m
    by (auto simp: rest_step_def ping_step_eq split: prod.split)
  obtain os1 n1 where d: "drop_step n = (os1, n1)" by force
  obtain os2 n2 where c2: "(if \<not> n_connected n1 then connect_step sha256 env (n_config n) (n_identity n) n1 else Inr ([], n1)) = Inr (os2, n2)"
    using c[of env "n_config n" "n_identity n" n1] by (cases "n_connected n1") auto
  obtain os3 n3 where "rest_step env n2 = Inr (os3, n3)" using r[of env n2] by auto
  with d c2 show ?thesis by (simp add: thread_step_alt[OF True])
qed

text \<open>C18. While the configuration stays the same, an iteration of a connected client sends a ping and
  a roster request exactly when the last ping is five seconds old, and gives the connection up
  exactly when nothing at all was received for more than fifteen seconds.\<close>

theorem keepalive_and_watchdog:
  assumes "thread_step sha256 env n = Inr (os, n')" "net_inv n" "configured n" "n_connected n"
    and "\<not> configChanged n" "te_running env"
  shows "(Sent (packet_code Ping # enc32 (word_of_int (te_now env div 1000000))) \<in> set os \<longleftrightarrow>
      ms 5000 \<le> te_now env - n_lastPingTime n) \<and>
    (Sent [packet_code RosterRequest] \<in> set os \<longleftrightarrow> ms 5000 \<le> te_now env - n_lastPingTime n) \<and>
    te_now env - n_lastPingTime n' < ms 5000 \<and>
    (n_connected n' \<longleftrightarrow> te_now env - n_lastRecvTime (snd (pumpReceive (te_recvs env) n)) \<le> ms 15000) \<and>
    (StateChanged False \<in> set os \<longleftrightarrow> \<not> n_connected n')"
proof -
  have d: "drop_step n = ([], n\<lparr>n_notConfiguredLogCount := 0\<rparr>)" using assms(5) by (simp add: drop_step_def)
  let ?n = "n\<lparr>n_notConfiguredLogCount := 0\<rparr>"
  obtain os3 n3 where p: "pumpReceive (te_recvs env) ?n = (os3, n3)" by force
  have lr: "n_lastRecvTime (snd (pumpReceive (te_recvs env) n)) = n_lastRecvTime n3"
    using p pump_receive[of "te_recvs env" n] pump_receive[of "te_recvs env" ?n] by (auto simp: Let_def)
  note fr = pumpReceive_frame(1)[OF p]
  have c: "n_connected n3" "n_socket n3" "n_lastPingTime n3 = n_lastPingTime n"
    using assms(2,4) by (subst fr, simp add: net_inv_def)+
  have s: "Sent x \<notin> set os3" "StateChanged b \<notin> set os3" for x b
    using p pump_receive[of "te_recvs env" ?n] pumpReceive_frame(2)[OF p]
    by (auto simp: Let_def raised_by_def split: recv.splits sum.splits option.splits)
  have "rest_step env ?n = Inr (os, n')"
    using assms(1,4) by (auto simp: thread_step_alt[OF assms(3)] d rbind_Inr_iff)
  then show ?thesis
    unfolding rest_step_running[OF assms(6) p] using c s
    by (auto simp: lr watchdog_step_def setConnected_def closeSocket_def sendRaw_def requestRoster_def
        kPingInterval_def kServerTimeout_def Let_def split: if_splits)
qed

definition quiet_env :: thread_env where
  "quiet_env = server_env\<lparr>te_recvs := [], te_now := ms 16000\<rparr>"

theorem keepalive_and_watchdog_witness:
  "\<exists>os n'. thread_step zero_sha quiet_env client_on = Inr (os, n') \<and>
     Sent [packet_code RosterRequest] \<in> set os \<and> \<not> n_connected n'"
proof -
  have "\<exists>os n'. thread_step zero_sha quiet_env client_on = Inr (os, n')"
    by (rule thread_step_total[OF zero_sha_doc])
  then obtain os n' where t: "thread_step zero_sha quiet_env client_on = Inr (os, n')" by blast
  have "\<not> configChanged client_on" "n_connected client_on" "te_running quiet_env"
    by (simp_all add: configChanged_def client_on_def client_def setIdentity_def setServer_def init_net_def
        quiet_env_def server_env_def)
  from keepalive_and_watchdog[OF t client_inv(2,4) this(2,1,3)]
  have "Sent [packet_code RosterRequest] \<in> set os \<and> \<not> n_connected n'"
    by (simp add: quiet_env_def server_env_def client_on_def client_def setIdentity_def setServer_def init_net_def
        pumpReceive_def kMaxPacketsPerPump_def pump_eq)
  with t show ?thesis by blast
qed

text \<open>An attempt that gets no answer: not resolved, not opened, not sent, or only silence and noise.\<close>

definition silent :: "attempt \<Rightarrow> bool" where
  "silent a \<longleftrightarrow> \<not> at_resolved a \<or> \<not> at_opened a \<or> \<not> at_sent a \<or> await_reply (at_recvs a) = None"

definition accepts :: "attempt \<Rightarrow> 32 word \<Rightarrow> bool \<Rightarrow> string \<Rightarrow> bool" where
  "accepts a sid debug version \<longleftrightarrow> at_resolved a \<and> at_opened a \<and> at_sent a \<and>
     await_reply (at_recvs a) = Some (Accepted sid debug version)"

lemma attempts_accept:
  assumes "accepts (env (i + j)) sid debug version" "\<forall>l < j. silent (env (i + l))" "j < k"
  shows "\<exists>os n'. attempts packet env i k n = (os, Some True, n') \<and> n_sessionId n' = sid \<and>
    n_debugForceAudible n' = debug \<and> n_serverVersion n' = version"
  using assms
proof (induction k arbitrary: i j n)
  case (Suc k)
  obtain ok m where m: "resolveAndOpenSocket (env i) n = (ok, m)" by force
  show ?case
  proof (cases j)
    case 0
    with Suc.prems m show ?thesis
      by (auto simp: accepts_def resolveAndOpenSocket_def Let_def)
  next
    case (Suc j')
    have "silent (env i)" using Suc.prems(2)[rule_format, of 0] Suc by simp
    moreover have "\<exists>os n'. attempts packet env (Suc i) k m = (os, Some True, n') \<and> n_sessionId n' = sid \<and>
        n_debugForceAudible n' = debug \<and> n_serverVersion n' = version"
    proof (rule Suc.IH)
      show "accepts (env (Suc i + j')) sid debug version" "j' < k" using Suc.prems(1,3) Suc by auto
      show "\<forall>l < j'. silent (env (Suc i + l))"
        using Suc.prems(2) Suc by (metis Suc_less_eq add_Suc_shift)
    qed
    ultimately show ?thesis using m
      by (auto simp: silent_def resolveAndOpenSocket_def Let_def split: if_splits)
  qed
qed simp

lemma connect_accepted:
  assumes "sha256 (sc_password config) = Some h" "length h = 32"
    and "j < 5" "accepts (te_attempts env j) sid debug version" "\<forall>l < j. silent (te_attempts env l)"
  shows "\<exists>os n'. connect_step sha256 env config idt n = Inr (os, n') \<and> StateChanged True \<in> set os \<and>
    n_connected n' \<and> n_sessionId n' = sid \<and> n_debugForceAudible n' = debug \<and> n_serverVersion n' = version \<and>
    n_voiceSequence n' = 0 \<and> n_activeConfig n' = config \<and> n_activeUid n' = id_uid idt \<and>
    n_lastRecvTime n' = te_connectTime env"
proof -
  obtain packet where pk: "connect_packet h idt = Inr packet"
    using connect_packet_eq[OF assms(2)] by blast
  obtain os m where "attempts packet (te_attempts env) 0 kHandshakeRetries n = (os, Some True, m)"
    "n_sessionId m = sid" "n_debugForceAudible m = debug" "n_serverVersion m = version"
    using attempts_accept[of "te_attempts env" 0 j sid debug version kHandshakeRetries packet n] assms(3-5)
    by (auto simp: kHandshakeRetries_def)
  then show ?thesis
    by (simp add: connect_step_def tryHandshake_def assms(1) pk setConnected_def Let_def)
qed

lemma rest_step_keeps:
  assumes "n_connected n" "n_lastRecvTime n = t0" "\<forall>(t, r) \<in> set (te_recvs env). t0 \<le> t" "te_now env - t0 \<le> ms 15000"
  shows "\<exists>os n'. rest_step env n = Inr (os, n') \<and> n' = n\<lparr>n_lastRecvTime := n_lastRecvTime n',
    n_lastPingTime := n_lastPingTime n', n_running := n_running n', n_socket := n_socket n'\<rparr>"
proof -
  obtain os3 n3 where p: "pumpReceive (te_recvs env) n = (os3, n3)" by force
  have n3: "n3 = n\<lparr>n_lastRecvTime := n_lastRecvTime n3\<rparr>" by (rule pumpReceive_frame(1)[OF p])
  have "t0 \<le> n_lastRecvTime n3"
  proof -
    let ?handled = "take 256 (takeWhile has_data (te_recvs env))"
    have "last ?handled \<in> set (te_recvs env)" if "?handled \<noteq> []"
      using last_in_set[OF that] by (meson in_set_takeD set_takeWhileD)
    then show ?thesis using p pump_receive[of "te_recvs env" n] assms(2,3)
      by (force simp: Let_def split: if_splits)
  qed
  then have "\<not> kServerTimeout < te_now env - n_lastRecvTime n3"
    using assms(4) by (simp add: kServerTimeout_def)
  moreover obtain lr where "n3 = n\<lparr>n_lastRecvTime := lr\<rparr>" using n3 by metis
  ultimately show ?thesis
    by (cases "te_running env") (auto simp: rest_step_def p ping_step_eq watchdog_step_def closeSocket_def)
qed

text \<open>C19. A client that should be connected connects: when the worker thread begins an iteration with a
  server configured, and is not connected or was connected under other settings, and any of the five
  attempts of the iteration is accepted after nothing but silence, then the iteration reports the
  connection, under the session id, debug flag and version the server gave, with voice frames numbered
  from zero, and the client is still connected when the iteration ends within fifteen seconds.\<close>

theorem handshake_liveness:
  assumes "configured n" "\<not> n_connected n \<or> configChanged n"
    and "sha256 (sc_password (n_config n)) = Some h" "length h = 32"
    and "j < 5" "accepts (te_attempts env j) sid debug version" "\<forall>l < j. silent (te_attempts env l)"
    and "\<forall>(t, r) \<in> set (te_recvs env). te_connectTime env \<le> t" "te_now env - te_connectTime env \<le> ms 15000"
  shows "\<exists>os n'. thread_step sha256 env n = Inr (os, n') \<and> StateChanged True \<in> set os \<and>
    n_connected n' \<and> n_sessionId n' = sid \<and> n_debugForceAudible n' = debug \<and> n_serverVersion n' = version \<and>
    n_voiceSequence n' = 0 \<and> n_activeConfig n' = n_config n \<and> n_activeUid n' = id_uid (n_identity n)"
proof -
  obtain os1 n1 where d: "drop_step n = (os1, n1)" by force
  have off: "\<not> n_connected n1"
    using d assms(2) by (auto simp: drop_step_def setConnected_def split: if_splits)
  from connect_accepted[of sha256 "n_config n" h j env sid debug version "n_identity n" n1, OF assms(3-7)] obtain os2 n2 where c:
    "connect_step sha256 env (n_config n) (n_identity n) n1 = Inr (os2, n2)" "StateChanged True \<in> set os2"
    "n_connected n2" "n_sessionId n2 = sid" "n_debugForceAudible n2 = debug" "n_serverVersion n2 = version"
    "n_voiceSequence n2 = 0" "n_activeConfig n2 = n_config n" "n_activeUid n2 = id_uid (n_identity n)"
    "n_lastRecvTime n2 = te_connectTime env" by blast
  from rest_step_keeps[OF c(3,10) assms(8,9)] obtain os3 n3 where r: "rest_step env n2 = Inr (os3, n3)"
    "n3 = n2\<lparr>n_lastRecvTime := n_lastRecvTime n3, n_lastPingTime := n_lastPingTime n3, n_running := n_running n3,
      n_socket := n_socket n3\<rparr>" by blast
  have "n_connected n3 \<and> n_sessionId n3 = sid \<and> n_debugForceAudible n3 = debug \<and> n_serverVersion n3 = version \<and>
      n_voiceSequence n3 = 0 \<and> n_activeConfig n3 = n_config n \<and> n_activeUid n3 = id_uid (n_identity n)"
    by (subst (1 2 3 4 5 6 7) r(2)) (simp add: c)
  then show ?thesis using c(1-3) off r(1) by (simp add: thread_step_alt[OF assms(1)] d)
qed

theorem handshake_liveness_witness:
  "\<exists>os n'. thread_step zero_sha server_env client = Inr (os, n') \<and> n_connected n' \<and> n_sessionId n' = 9"
proof -
  have "accepts (te_attempts server_env 0) 9 False []"
    using accept_9 by (simp add: accepts_def server_env_def)
  from handshake_liveness[OF client_inv(3) _ _ _ _ this, of zero_sha "replicate 32 0"]
  show ?thesis by (auto simp: client_def setIdentity_def setServer_def init_net_def zero_sha_def server_env_def)
qed

text \<open>The worker thread never dies of an exception: with a hash of the documented length no writer
  throws in an iteration, and what it throws while parsing is caught.\<close>

theorem thread_step_never_throws:
  assumes "sha_doc sha256"
  shows "\<exists>os n'. thread_step sha256 env n = Inr (os, n')"
  by (rule thread_step_total[OF assms])

theorem thread_step_never_throws_witness: "\<exists>os n'. thread_step zero_sha server_env client = Inr (os, n')"
  by (rule thread_step_never_throws[OF zero_sha_doc])

section \<open>Sequence numbers\<close>

fun send_frames :: "(byte list \<times> bool) list \<Rightarrow> net \<Rightarrow> (net_out list \<times> net) result" where
  "send_frames [] n = Inr ([], n)"
| "send_frames ((opus, isLast) # fs) n =
     rbind (sendVoiceFrame opus isLast n) (\<lambda>(os, n). rbind (send_frames fs n) (\<lambda>(os', n). Inr (os @ os', n)))"

text \<open>While connected, voice frames go out one packet each, in order, and numbered consecutively
  modulo 65536, so a fresh connection numbers them from 0.\<close>

theorem voice_sequence:
  assumes "n_connected n" "n_socket n" "\<forall>(opus, isLast) \<in> set fs. opus \<noteq> [] \<and> length opus \<le> 500"
  shows "\<exists>n'. send_frames fs n = Inr
      (map (\<lambda>i. Sent (packet_code VoiceUp # enc16 (n_voiceSequence n + of_nat i) @
          (if snd (fs ! i) then kVoiceFlagsLastFrame else kVoiceFlagsNone) # fst (fs ! i))) [0..<length fs], n') \<and>
    n_voiceSequence n' = n_voiceSequence n + of_nat (length fs)"
  using assms
proof (induction fs arbitrary: n)
  case (Cons f fs)
  obtain opus isLast where f: "f = (opus, isLast)" by force
  let ?n = "n\<lparr>n_voiceSequence := n_voiceSequence n + 1\<rparr>"
  have s: "sendVoiceFrame opus isLast n = Inr ([Sent (packet_code VoiceUp # enc16 (n_voiceSequence n) @
      (if isLast then kVoiceFlagsLastFrame else kVoiceFlagsNone) # opus)], ?n)"
    using Cons.prems by (simp add: f sendVoiceFrame_def voice_packet_eq kMaxOpusFrameLength_def)
  from Cons.IH[of ?n] Cons.prems obtain n' where "send_frames fs ?n = Inr
      (map (\<lambda>i. Sent (packet_code VoiceUp # enc16 (n_voiceSequence ?n + of_nat i) @
          (if snd (fs ! i) then kVoiceFlagsLastFrame else kVoiceFlagsNone) # fst (fs ! i))) [0..<length fs], n')"
    "n_voiceSequence n' = n_voiceSequence ?n + of_nat (length fs)" by auto
  then show ?case
    by (auto simp: f s upt_conv_Cons map_Suc_upt[symmetric] ac_simps simp del: upt_Suc)
qed simp

theorem voice_sequence_witness:
  "\<exists>n'. send_frames [([1], False), ([2], True)] client_on =
     Inr ([Sent [7, 0, 0, 0, 1], Sent [7, 1, 0, 1, 2]], n')"
  using voice_sequence[of client_on "[([1], False), ([2], True)]"]
  by (auto simp: client_on_def client_def setIdentity_def setServer_def init_net_def enc16_def
      kVoiceFlagsLastFrame_def kVoiceFlagsNone_def upt_rec)

end
