(* ===== verification/Cursor.thy ===== *)
theory Cursor
  imports Strtof
begin

text \<open>
  The fractional read position both resamplers keep in a \<open>double\<close>: conversion to an index, advance by a
  step, and the removal of what was consumed, with the facts that keep it exact.
\<close>

abbreviation add64 :: "fp \<Rightarrow> fp \<Rightarrow> fp" where "add64 \<equiv> fadd f64"
abbreviation sub64 :: "fp \<Rightarrow> fp \<Rightarrow> fp" where "sub64 \<equiv> fsub f64"
abbreviation mul64 :: "fp \<Rightarrow> fp \<Rightarrow> fp" where "mul64 \<equiv> fmul f64"
abbreviation div64 :: "fp \<Rightarrow> fp \<Rightarrow> fp" where "div64 \<equiv> fdiv f64"
abbreviation to64 :: "fp \<Rightarrow> fp" where "to64 \<equiv> fcvt f64"
abbreviation to32 :: "fp \<Rightarrow> fp" where "to32 \<equiv> fcvt f32"

text \<open>\<open>static_cast<size_t>\<close> of a cursor, \<open>static_cast<double>\<close> of an index, and \<open>std::floor\<close>.\<close>

definition size_cast :: "libm \<Rightarrow> fp \<Rightarrow> nat" where
  "size_cast m x = (case cast_int 0 (2 ^ 64 - 1) x of Some n \<Rightarrow> nat n | None \<Rightarrow> unat (cast_oob m x))"

definition index_fp :: "nat \<Rightarrow> fp" where
  "index_fp n = of_int_fp f64 (int n)"

definition floor64 :: "fp \<Rightarrow> fp" where
  "floor64 x = (if is_fin x then fin_of f64 (signbit x) (of_int \<lfloor>val x\<rfloor>) else x)"

text \<open>Linear interpolation in \<open>double\<close>, stored as \<open>float\<close>.\<close>

definition interpolate :: "fp \<Rightarrow> fp \<Rightarrow> fp \<Rightarrow> fp" where
  "interpolate a b fraction = to32 (add64 (mul64 (to64 a) (sub64 (Fin 1) fraction)) (mul64 (to64 b) fraction))"

text \<open>A cursor value: finite, not negative, and below the range in which its integer part is exact.\<close>

definition cursor_ok :: "fp \<Rightarrow> bool" where
  "cursor_ok c \<longleftrightarrow> is_fin c \<and> fp_wf f64 c \<and> 0 \<le> val c \<and> val c < 2 ^ 50"

abbreviation ipart :: "fp \<Rightarrow> int" where "ipart c \<equiv> \<lfloor>val c\<rfloor>"

lemma f64_pos [simp]: "0 < prec f64" by (simp add: f64_def)
lemma f32_pos [simp]: "0 < prec f32" by (simp add: f32_def)

lemma wf_rep: "is_fin c \<Longrightarrow> fp_wf f c \<Longrightarrow> representable f (val c)"
  by (cases c) auto

lemma rep64_int: "\<bar>n\<bar> < 2 ^ 53 \<Longrightarrow> representable f64 (of_int n)"
  by (rule representable_int) (simp_all add: f64_def)

lemma rep64_half: "\<bar>n\<bar> < 2 ^ 53 \<Longrightarrow> representable f64 (of_int n / 2)"
  by (rule representableI[of _ n "- 1"]) (simp_all add: f64_def pow2_def)

lemma pow2_1024: "pow2 1024 = 2 ^ 1024" by (simp add: pow2_def)

lemma big64: "x < 2 ^ 60 \<Longrightarrow> - (2 ^ 60) < x \<Longrightarrow> \<bar>x\<bar> < pow2 (exp_max f64 + 1)" for x :: rat
proof -
  assume "x < 2 ^ 60" "- (2 ^ 60) < x"
  then have "\<bar>x\<bar> < 2 ^ 60" by linarith
  also have "(2::rat) ^ 60 \<le> 2 ^ 1024" by (rule power_increasing) simp_all
  finally show ?thesis by (simp add: f64_def pow2_1024)
qed

lemma big64_50: "0 \<le> x \<Longrightarrow> x < 2 ^ 50 \<Longrightarrow> \<bar>x\<bar> < pow2 (exp_max f64 + 1)" for x :: rat
  by (rule big64) simp_all

lemma size_cast_cursor: "cursor_ok c \<Longrightarrow> size_cast m c = nat (ipart c)"
proof -
  assume c: "cursor_ok c"
  then have "0 \<le> ipart c" "ipart c \<le> 2 ^ 64 - 1"
    by (auto simp: cursor_ok_def)
  with c show ?thesis by (simp add: size_cast_def cast_int_def cursor_ok_def rtrunc_def)
qed

text \<open>The integer part and the fraction of a cursor are exact.\<close>

lemma rep64_fraction:
  assumes "representable f64 x" "0 \<le> x" "x < 2 ^ 53"
  shows "representable f64 (x - of_int \<lfloor>x\<rfloor>)"
proof (cases "x < 1")
  case True
  with assms(2) have "\<lfloor>x\<rfloor> = 0" by linarith
  then show ?thesis using assms(1) by simp
next
  case False
  let ?e = "max (lsb_min f64) (lg2 x - int (prec f64) + 1)"
  define k where "k = nat (- ?e)"
  have x: "0 < x" "1 \<le> x" using False by auto
  have "lg2 1 \<le> lg2 x" using x by (intro lg2_mono) auto
  moreover have "lg2 1 = 0" using lg2_unique[of 0 1] by (simp add: pow2_def)
  moreover have "lg2 x \<le> 52"
  proof (rule ccontr)
    assume "\<not> lg2 x \<le> 52"
    then have "pow2 53 \<le> pow2 (lg2 x)" by (intro pow2_mono) auto
    then show False using lg2_bounds(1)[OF x(1)] assms(3) by (simp add: pow2_def)
  qed
  ultimately have e: "- 52 \<le> ?e" "?e \<le> 0" by (simp_all add: f64_def)
  have r: "x = of_int (rne (x / ulp f64 x)) * pow2 ?e"
    using assms(1) x by (simp add: representable_def rndq_def ulp_def)
  let ?n = "rne (x / ulp f64 x)"
  have one: "of_int (2 ^ k) * pow2 ?e = 1" using e pow2_plus_nat[of ?e k] by (simp add: k_def pow2_def)
  have "x - of_int \<lfloor>x\<rfloor> = of_int (?n - \<lfloor>x\<rfloor> * 2 ^ k) * pow2 ?e"
    by (subst r) (simp add: left_diff_distrib mult.assoc one[simplified])
  moreover have "\<bar>?n - \<lfloor>x\<rfloor> * 2 ^ k\<bar> < 2 ^ prec f64"
  proof -
    have "0 \<le> x - of_int \<lfloor>x\<rfloor>" "x - of_int \<lfloor>x\<rfloor> < 1" by linarith+
    then have "0 \<le> of_int (?n - \<lfloor>x\<rfloor> * 2 ^ k) * pow2 ?e" "of_int (?n - \<lfloor>x\<rfloor> * 2 ^ k) * pow2 ?e < of_int (2 ^ k) * pow2 ?e"
      unfolding calculation one by auto
    then have "0 \<le> ?n - \<lfloor>x\<rfloor> * 2 ^ k" "?n - \<lfloor>x\<rfloor> * 2 ^ k < 2 ^ k"
      using pow2_pos[of ?e] pow2_pos[THEN less_imp_le, of ?e]
      by (auto simp: zero_le_mult_iff mult_less_cancel_right simp del: of_int_diff of_int_mult of_int_power)
    moreover have "(2::int) ^ k \<le> 2 ^ 52" using e by (intro power_increasing) (auto simp: k_def)
    ultimately show ?thesis by (simp add: f64_def)
  qed
  ultimately show ?thesis using e by (intro representableI) (auto simp: f64_def)
qed

lemma index_fp_cursor:
  assumes "int n < 2 ^ 53"
  shows "is_fin (index_fp n)" "val (index_fp n) = of_nat n" "fp_wf f64 (index_fp n)"
proof -
  have "representable f64 (of_int (int n))" using assms by (intro rep64_int) simp
  moreover have "(of_int (int n) :: rat) < of_int (2 ^ 53)" using assms by (simp only: of_int_less_iff)
  then have "\<bar>of_int (int n)\<bar> < pow2 (exp_max f64 + 1)" by (intro big64) simp_all
  ultimately show "is_fin (index_fp n)" "val (index_fp n) = of_nat n"
    using fin_of_exact[of f64 "of_int (int n)" False] by (simp_all add: index_fp_def of_int_fp_def)
  show "fp_wf f64 (index_fp n)" by (simp add: index_fp_def of_int_fp_wf)
qed


text \<open>Advancing by a step of at most 3/2 moves the integer part by at most two, and never back.\<close>

definition step_ok :: "fp \<Rightarrow> bool" where
  "step_ok s \<longleftrightarrow> is_fin s \<and> 0 \<le> val s \<and> val s \<le> 3 / 2"

lemma cursor_advance:
  assumes "cursor_ok c" "step_ok s" "val c < 2 ^ 49"
  shows "cursor_ok (add64 c s)" "val c \<le> val (add64 c s)" "val (add64 c s) \<le> of_int (ipart c) + 5 / 2"
    "ipart c \<le> ipart (add64 c s)" "ipart (add64 c s) \<le> ipart c + 2"
proof -
  let ?hi = "of_int (2 * ipart c + 5) / 2 :: rat"
  have c: "is_fin c" "fp_wf f64 c" "0 \<le> val c" using assms(1) by (auto simp: cursor_ok_def)
  have s: "is_fin s" "0 \<le> val s" "val s \<le> 3 / 2" using assms(2) by (auto simp: step_ok_def)
  have i: "0 \<le> ipart c" using c(3) by simp
  have i2: "ipart c \<le> 2 ^ 49" using assms(3) by (simp add: floor_le_iff)
  have e: "add64 c s = fin_of f64 (signbit c \<and> signbit s) (val c + val s)" using c(1) s(1) by (rule op_fin(1))
  have lo: "val c \<le> val c + val s" and hi: "val c + val s \<le> ?hi" using s by simp_all linarith
  have "?hi = of_int (ipart c) + 5 / 2" by simp
  moreover have "(2::rat) ^ 49 = 562949953421312" "(2::rat) ^ 50 = 1125899906842624" by simp_all
  ultimately have hi_lt: "?hi < 2 ^ 50" using of_int_floor_le[of "val c"] assms(3) by linarith
  have hi0: "0 \<le> ?hi" using i by simp
  have "\<bar>val c\<bar> < pow2 (exp_max f64 + 1)" using c(3) assms(3) by (intro big64_50) simp_all
  moreover have "\<bar>?hi\<bar> < pow2 (exp_max f64 + 1)" using hi0 hi_lt by (rule big64_50)
  moreover have "0 \<le> j \<Longrightarrow> j \<le> 2 ^ 49 \<Longrightarrow> \<bar>2 * j + 5\<bar> < 2 ^ 53" for j :: int by simp
  from this[OF i i2] have "representable f64 ?hi" by (rule rep64_half)
  ultimately have "is_fin (add64 c s) \<and> val c \<le> val (add64 c s) \<and> val (add64 c s) \<le> ?hi"
    unfolding e using fin_of_between[OF lo hi wf_rep[OF c(1,2)] _ f64_pos] by blast
  then have r: "is_fin (add64 c s)" "val c \<le> val (add64 c s)" "val (add64 c s) \<le> ?hi" by auto
  show "val c \<le> val (add64 c s)" by (rule r(2))
  show "val (add64 c s) \<le> of_int (ipart c) + 5 / 2" using r(3) by simp
  show "cursor_ok (add64 c s)"
    using r c hi_lt unfolding e by (auto simp: cursor_ok_def fin_of_wf)
  show "ipart c \<le> ipart (add64 c s)" using r(2) by (rule floor_mono)
  show "ipart (add64 c s) \<le> ipart c + 2" using r(3) by (simp add: floor_le_iff)
qed

text \<open>Removing the consumed integer part leaves exactly the fraction.\<close>

lemma cursor_consume:
  assumes "cursor_ok c"
  shows "cursor_ok (sub64 c (index_fp (nat (ipart c))))"
    "val (sub64 c (index_fp (nat (ipart c)))) = val c - of_int (ipart c)"
    "ipart (sub64 c (index_fp (nat (ipart c)))) = 0"
proof -
  have c: "is_fin c" "fp_wf f64 c" "0 \<le> val c" "val c < 2 ^ 50" using assms by (auto simp: cursor_ok_def)
  then have n: "int (nat (ipart c)) < 2 ^ 53" by (simp add: floor_less_iff)
  note ix = index_fp_cursor[OF n]
  have v: "val (index_fp (nat (ipart c))) = of_int (ipart c)" using ix(2) c(3) by simp
  have fr: "0 \<le> val c - of_int (ipart c)" "val c - of_int (ipart c) < 1" by linarith+
  have e: "sub64 c (index_fp (nat (ipart c))) =
      fin_of f64 (signbit c \<and> signbit (fneg (index_fp (nat (ipart c))))) (val c - of_int (ipart c))"
    using op_fin(2)[OF c(1) ix(1), of f64] v by simp
  have "representable f64 (val c - of_int (ipart c))"
    using c by (intro rep64_fraction wf_rep) auto
  from fin_of_exact[OF this big64] fr
  have r: "is_fin (sub64 c (index_fp (nat (ipart c))))"
    "val (sub64 c (index_fp (nat (ipart c)))) = val c - of_int (ipart c)" unfolding e by auto
  show "val (sub64 c (index_fp (nat (ipart c)))) = val c - of_int (ipart c)" by (rule r(2))
  show "cursor_ok (sub64 c (index_fp (nat (ipart c))))"
    using r fr unfolding cursor_ok_def by (simp add: e fin_of_wf)
  show "ipart (sub64 c (index_fp (nat (ipart c)))) = 0" unfolding r(2) by simp
qed

lemma cursor_zero [simp]: "cursor_ok (Fin 0)"
  by (simp add: cursor_ok_def f64_def pow2_def)

text \<open>The steps of both resamplers: 48000 over the device rate, and the other way round.\<close>

lemma rate_step:
  assumes "0 < a" "a < 2 ^ 53" "0 < b" "b < 2 ^ 53" "2 * a \<le> 3 * b"
  shows "step_ok (div64 (of_int_fp f64 a) (of_int_fp f64 b))"
proof -
  have ex: "is_fin (of_int_fp f64 n) \<and> val (of_int_fp f64 n) = of_int n" if "0 < n" "n < 2 ^ 53" for n
  proof -
    have "(of_int n :: rat) < of_int (2 ^ 53)" using that by (simp only: of_int_less_iff)
    then have "\<bar>of_int n\<bar> < pow2 (exp_max f64 + 1)" using that by (intro big64) simp_all
    from fin_of_exact[OF rep64_int this] that show ?thesis by (auto simp: of_int_fp_def)
  qed
  have ab: "is_fin (of_int_fp f64 a)" "is_fin (of_int_fp f64 b)" "val (of_int_fp f64 a) = of_int a"
    "val (of_int_fp f64 b) = of_int b" using ex assms by auto
  have "(of_int (2 * a) :: rat) \<le> of_int (3 * b)" using assms(5) by (simp only: of_int_le_iff)
  then have q: "0 \<le> (of_int a / of_int b :: rat)" "(of_int a / of_int b :: rat) \<le> of_int 3 / 2"
    using assms(1,3) by (simp_all add: field_simps)
  have e: "div64 (of_int_fp f64 a) (of_int_fp f64 b) =
      fin_of f64 (signbit (of_int_fp f64 a) \<noteq> signbit (of_int_fp f64 b)) (of_int a / of_int b)"
    using op_fin(4)[OF ab(1,2), of f64] ab assms(3) by simp
  have big: "\<bar>0::rat\<bar> < pow2 (exp_max f64 + 1)" "\<bar>of_int 3 / 2::rat\<bar> < pow2 (exp_max f64 + 1)"
    by (rule big64; simp)+
  note b = fin_of_between[OF q representable_0 rep64_half f64_pos big]
  show ?thesis unfolding step_ok_def e using b by simp
qed

end
