(* ===== verification/Dsp.thy ===== *)
theory Dsp
  imports Cursor VecMath
begin

text \<open>
  The signal processing of \<open>src/Voice/Dsp\<close>: biquad filters in binary64, the radio effect chain with
  its state, and stereo panning. One call of the code on a buffer is one function on the list of its
  samples; expressions are evaluated in the order and precision of the source.
\<close>

text \<open>\<open>static_cast<int>\<close> of a \<open>float\<close>.\<close>

definition cast32 :: "libm \<Rightarrow> fp \<Rightarrow> int" where
  "cast32 m x = (case cast_int (- (2 ^ 31)) (2 ^ 31 - 1) x of Some n \<Rightarrow> n | None \<Rightarrow> sint (cast_oob m x))"

text \<open>A math library for concrete runs: the transcendental functions are constant.\<close>

definition flat_libm :: libm where
  "flat_libm = \<lparr>powf = \<lambda>_ _. Fin 1, atan2f = \<lambda>_ _. Fin 0, sinf = \<lambda>_. Fin 0, sind = \<lambda>_. Fin 0,
     cosd = \<lambda>_. Fin 1, lround_oob = \<lambda>_. 0, cast_oob = \<lambda>_. 0\<rparr>"

section \<open>Biquad filters\<close>

definition kPi64 :: fp where "kPi64 = lit f64 (314159265358979323846 / 100000000000000000000)"

record biquad =
  bq_b0 :: fp
  bq_b1 :: fp
  bq_b2 :: fp
  bq_a1 :: fp
  bq_a2 :: fp
  bq_x1 :: fp
  bq_x2 :: fp
  bq_y1 :: fp
  bq_y2 :: fp

definition mk_biquad :: "fp \<Rightarrow> fp \<Rightarrow> fp \<Rightarrow> fp \<Rightarrow> fp \<Rightarrow> fp \<Rightarrow> biquad" where
  "mk_biquad b0 b1 b2 a0 a1 a2 = \<lparr>bq_b0 = div64 b0 a0, bq_b1 = div64 b1 a0, bq_b2 = div64 b2 a0,
     bq_a1 = div64 a1 a0, bq_a2 = div64 a2 a0, bq_x1 = Fin 0, bq_x2 = Fin 0, bq_y1 = Fin 0, bq_y2 = Fin 0\<rparr>"

definition rbj_w0 :: "fp \<Rightarrow> fp \<Rightarrow> fp" where
  "rbj_w0 sampleRate hz = div64 (mul64 (mul64 (Fin 2) kPi64) hz) sampleRate"

definition rbjLowPass :: "libm \<Rightarrow> fp \<Rightarrow> fp \<Rightarrow> fp \<Rightarrow> biquad" where
  "rbjLowPass m sampleRate cutoffHz q =
     (let w0 = rbj_w0 sampleRate cutoffHz;
          cs = cosd m w0;
          sn = sind m w0;
          al = div64 sn (mul64 (Fin 2) q);
          b0 = div64 (sub64 (Fin 1) cs) (Fin 2);
          b1 = sub64 (Fin 1) cs;
          b2 = div64 (sub64 (Fin 1) cs) (Fin 2)
      in mk_biquad b0 b1 b2 (add64 (Fin 1) al) (mul64 (Fin (- 2)) cs) (sub64 (Fin 1) al))"

definition rbjHighPass :: "libm \<Rightarrow> fp \<Rightarrow> fp \<Rightarrow> fp \<Rightarrow> biquad" where
  "rbjHighPass m sampleRate cutoffHz q =
     (let w0 = rbj_w0 sampleRate cutoffHz;
          cs = cosd m w0;
          sn = sind m w0;
          al = div64 sn (mul64 (Fin 2) q);
          b0 = div64 (add64 (Fin 1) cs) (Fin 2);
          b1 = fneg (add64 (Fin 1) cs);
          b2 = div64 (add64 (Fin 1) cs) (Fin 2)
      in mk_biquad b0 b1 b2 (add64 (Fin 1) al) (mul64 (Fin (- 2)) cs) (sub64 (Fin 1) al))"

definition rbjBandPass :: "libm \<Rightarrow> fp \<Rightarrow> fp \<Rightarrow> fp \<Rightarrow> biquad" where
  "rbjBandPass m sampleRate centerHz q =
     (let w0 = rbj_w0 sampleRate centerHz;
          cs = cosd m w0;
          sn = sind m w0;
          al = div64 sn (mul64 (Fin 2) q);
          b0 = div64 sn (Fin 2);
          b2 = div64 (fneg sn) (Fin 2)
      in mk_biquad b0 (Fin 0) b2 (add64 (Fin 1) al) (mul64 (Fin (- 2)) cs) (sub64 (Fin 1) al))"

definition biquad_reset :: "biquad \<Rightarrow> biquad" where
  "biquad_reset f = f\<lparr>bq_x1 := Fin 0, bq_x2 := Fin 0, bq_y1 := Fin 0, bq_y2 := Fin 0\<rparr>"

definition biquad_sample :: "fp \<Rightarrow> biquad \<Rightarrow> fp \<times> biquad" where
  "biquad_sample input f =
     (let x0 = to64 input;
          y0 = sub64 (sub64 (add64 (add64 (mul64 (bq_b0 f) x0) (mul64 (bq_b1 f) (bq_x1 f)))
                 (mul64 (bq_b2 f) (bq_x2 f))) (mul64 (bq_a1 f) (bq_y1 f))) (mul64 (bq_a2 f) (bq_y2 f))
      in (to32 y0, f\<lparr>bq_x2 := bq_x1 f, bq_x1 := x0, bq_y2 := bq_y1 f, bq_y1 := y0\<rparr>))"

definition biquad_buffer :: "fp list \<Rightarrow> biquad \<Rightarrow> fp list \<times> biquad" where
  "biquad_buffer buffer f = mapS biquad_sample buffer f"

definition cascade_bandPass :: "libm \<Rightarrow> fp \<Rightarrow> fp \<Rightarrow> fp \<Rightarrow> int \<Rightarrow> biquad list" where
  "cascade_bandPass m sampleRate centerHz bandwidthHz order =
     (let q = div64 centerHz bandwidthHz;
          count = (if 1 < order then order else 1)
      in replicate (nat count) (rbjBandPass m sampleRate centerHz q))"

definition cascade_reset :: "biquad list \<Rightarrow> biquad list" where
  "cascade_reset stages = map biquad_reset stages"

fun cascade_buffer :: "fp list \<Rightarrow> biquad list \<Rightarrow> fp list \<times> biquad list" where
  "cascade_buffer buffer [] = (buffer, [])"
| "cascade_buffer buffer (f # fs) =
     (case biquad_buffer buffer f of (buffer', f') \<Rightarrow>
        case cascade_buffer buffer' fs of (buffer'', fs') \<Rightarrow> (buffer'', f' # fs'))"

section \<open>Source effects\<close>

datatype sourceEffect = Direct | Sw | Lr | Airborne | Dd | Phone | Speaker | Intercom

text \<open>A finite, enumerable type, so that statements about all effects are decided by evaluation.\<close>

instantiation sourceEffect :: enum
begin

definition enum_sourceEffect :: "sourceEffect list" where
  "enum_sourceEffect = [Direct, Sw, Lr, Airborne, Dd, Phone, Speaker, Intercom]"

definition enum_all_sourceEffect :: "(sourceEffect \<Rightarrow> bool) \<Rightarrow> bool" where
  "enum_all_sourceEffect P \<longleftrightarrow> P Direct \<and> P Sw \<and> P Lr \<and> P Airborne \<and> P Dd \<and> P Phone \<and> P Speaker \<and> P Intercom"

definition enum_ex_sourceEffect :: "(sourceEffect \<Rightarrow> bool) \<Rightarrow> bool" where
  "enum_ex_sourceEffect P \<longleftrightarrow> P Direct \<or> P Sw \<or> P Lr \<or> P Airborne \<or> P Dd \<or> P Phone \<or> P Speaker \<or> P Intercom"

instance
proof
  show univ: "(UNIV :: sourceEffect set) = set enum_class.enum"
    using sourceEffect.exhaust by (auto simp: enum_sourceEffect_def)
  show "distinct (enum_class.enum :: sourceEffect list)" by (simp add: enum_sourceEffect_def)
  show "enum_class.enum_all P = Ball UNIV P" for P :: "sourceEffect \<Rightarrow> bool"
    by (auto simp: enum_all_sourceEffect_def univ enum_sourceEffect_def)
  show "enum_class.enum_ex P = Bex UNIV P" for P :: "sourceEffect \<Rightarrow> bool"
    by (auto simp: enum_ex_sourceEffect_def univ enum_sourceEffect_def)
qed

end

section \<open>The effect chain\<close>

definition kErrorLevels :: "fp list" where
  "kErrorLevels = map lit32 [0, 150000006 / 1000000000, 300000012 / 1000000000, 600000024 / 1000000000,
     899999976 / 1000000000, 950000048 / 1000000000, 960000038 / 1000000000, 970000029 / 1000000000,
     980000019 / 1000000000, 995000005 / 1000000000, 997799993 / 1000000000, 998799993 / 1000000000,
     99999 / 100000]"

definition kErrorLevelsCount :: int where "kErrorLevelsCount = 13"
definition kDelaySamples :: nat where "kDelaySamples = 2400"
definition kSampleRate :: fp where "kSampleRate = Fin 48000"

text \<open>The random numbers a chain's generator will draw are part of its state.\<close>

record chain =
  ch_effect :: sourceEffect
  ch_highPass :: "biquad option"
  ch_lowPass :: "biquad option"
  ch_bandPass :: "biquad list option"
  ch_delayLine :: "fp list"
  ch_delayPos :: nat
  ch_ringPhase :: fp
  ch_random :: "nat \<Rightarrow> fp"
  ch_drawn :: nat

definition new_chain :: "libm \<Rightarrow> (nat \<Rightarrow> fp) \<Rightarrow> sourceEffect \<Rightarrow> chain" where
  "new_chain m random effect =
     (let hp = (\<lambda>hz q. Some (rbjHighPass m kSampleRate hz q));
          lp = (\<lambda>hz q. Some (rbjLowPass m kSampleRate hz q));
          bp = (\<lambda>hz bw n. Some (cascade_bandPass m kSampleRate hz bw n))
      in \<lparr>ch_effect = effect,
          ch_highPass = (case effect of
              Sw \<Rightarrow> hp (Fin 900) (lit f64 (85 / 100))
            | Lr \<Rightarrow> hp (Fin 520) (lit f64 (97 / 100))
            | Intercom \<Rightarrow> hp (Fin 520) (lit f64 (97 / 100))
            | Airborne \<Rightarrow> hp (Fin 1000) (Fin 1)
            | _ \<Rightarrow> None),
          ch_lowPass = (case effect of
              Sw \<Rightarrow> lp (Fin 3000) (Fin 2)
            | Lr \<Rightarrow> lp (Fin 1300) (Fin 1)
            | Intercom \<Rightarrow> lp (Fin 1300) (Fin 1)
            | Airborne \<Rightarrow> lp (Fin 4000) (Fin 1)
            | _ \<Rightarrow> None),
          ch_bandPass = (case effect of
              Dd \<Rightarrow> bp (Fin 1000) (Fin 400) 2
            | Phone \<Rightarrow> bp (Fin 1850) (Fin 1550) 2
            | Speaker \<Rightarrow> bp (Fin 2000) (Fin 1000) 1
            | _ \<Rightarrow> None),
          ch_delayLine = replicate kDelaySamples (Fin 0), ch_delayPos = 0, ch_ringPhase = Fin 0,
          ch_random = random, ch_drawn = 0\<rparr>)"

definition calcErrorLevel :: "libm \<Rightarrow> fp \<Rightarrow> fp" where
  "calcErrorLevel m errorLevel =
     (let p = cast32 m (mul32 errorLevel (Fin 10));
          p0 = (if p < 0 then 0 else p);
          part = (if kErrorLevelsCount - 2 < p0 then kErrorLevelsCount - 2 else p0);
          from = kErrorLevels ! nat part;
          upto = kErrorLevels ! nat (part + 1)
      in add32 from (mul32 (sub32 upto from) (sub32 errorLevel (div32 (int32_fp part) (Fin 10)))))"

definition foldback :: "fp \<Rightarrow> fp \<Rightarrow> fp" where
  "foldback input threshold =
     (if flt threshold (lit32 (1 / 100000)) then Fin 0
      else if flt threshold input \<or> flt input (fneg threshold) then
        sub32 (fabs (sub32 (fabs (ffmod f32 (sub32 input threshold) (mul32 threshold (Fin 4))))
                 (mul32 threshold (Fin 2)))) threshold
      else input)"

definition delay :: "fp \<Rightarrow> chain \<Rightarrow> fp \<times> chain" where
  "delay input c =
     (let line = (ch_delayLine c)[ch_delayPos c := input];
          pos = (ch_delayPos c + 1) mod kDelaySamples
      in (line ! pos, c\<lparr>ch_delayLine := line, ch_delayPos := pos\<rparr>))"

definition ringModulation :: "libm \<Rightarrow> fp \<Rightarrow> fp \<Rightarrow> chain \<Rightarrow> fp \<times> chain" where
  "ringModulation m input mix c =
     (let modulated = mul32 input (sinf m (div32 (mul32 (ch_ringPhase c) kPi) (Fin 2)));
          phase = add32 (ch_ringPhase c) (div32 (Fin 90) (Fin 48000));
          phase' = (if flt (Fin 1) phase then Fin 0 else phase)
      in (add32 (mul32 input (sub32 (Fin 1) mix)) (mul32 modulated mix), c\<lparr>ch_ringPhase := phase'\<rparr>))"

definition filter_opt :: "fp list \<Rightarrow> biquad option \<Rightarrow> fp list \<times> biquad option" where
  "filter_opt buffer f = (case f of None \<Rightarrow> (buffer, None)
     | Some f \<Rightarrow> (case biquad_buffer buffer f of (b, f') \<Rightarrow> (b, Some f')))"

definition bandPass_opt :: "fp list \<Rightarrow> chain \<Rightarrow> fp list \<times> chain" where
  "bandPass_opt buffer c = (case ch_bandPass c of None \<Rightarrow> (buffer, c)
     | Some fs \<Rightarrow> (case cascade_buffer buffer fs of (b, fs') \<Rightarrow> (b, c\<lparr>ch_bandPass := Some fs'\<rparr>)))"

definition distortion_threshold :: "fp list \<Rightarrow> fp \<Rightarrow> fp" where
  "distortion_threshold buffer errorLevel =
     (let sum = fold (\<lambda>x s. add32 s (fabs x)) buffer (Fin 0);
          avg = (if 0 < length buffer then div32 sum (int32_fp (int (length buffer))) else Fin 0)
      in mul32 (mul32 (lit32 (3 / 10)) (sub32 (Fin 1) errorLevel)) (div32 avg (lit32 (5 / 1000))))"

definition processDistortedRadio :: "libm \<Rightarrow> fp list \<Rightarrow> fp \<Rightarrow> chain \<Rightarrow> fp list \<times> chain" where
  "processDistortedRadio m buffer rawErrorLevel c =
     (let errorLevel = calcErrorLevel m rawErrorLevel;
          threshold = distortion_threshold buffer errorLevel;
          b1 = map (\<lambda>x. foldback x threshold) buffer
      in case mapS (\<lambda>x c. case delay (mul32 x (Fin 30)) c of (d, c) \<Rightarrow> ringModulation m d errorLevel c) b1 c of
           (b2, c) \<Rightarrow>
             (case filter_opt b2 (ch_highPass c) of (b3, hp) \<Rightarrow>
                case filter_opt b3 (ch_lowPass c) of (b4, lp) \<Rightarrow>
                  (b4, c\<lparr>ch_highPass := hp, ch_lowPass := lp\<rparr>)))"

definition drop_sample :: "fp \<Rightarrow> fp \<Rightarrow> chain \<Rightarrow> fp \<times> chain" where
  "drop_sample errorLevel x c =
     (if flt (ch_random c (ch_drawn c)) (to64 errorLevel) then Fin 0 else x, c\<lparr>ch_drawn := ch_drawn c + 1\<rparr>)"

definition processDiverRadio :: "fp list \<Rightarrow> fp \<Rightarrow> chain \<Rightarrow> fp list \<times> chain" where
  "processDiverRadio buffer errorLevel c =
     (case mapS (drop_sample errorLevel) buffer c of (b1, c) \<Rightarrow>
        case bandPass_opt b1 c of (b2, c) \<Rightarrow> (map (\<lambda>x. mul32 x (Fin 30)) b2, c))"

definition chain_process :: "libm \<Rightarrow> fp list \<Rightarrow> fp \<Rightarrow> chain \<Rightarrow> fp list \<times> chain" where
  "chain_process m buffer errorLevel c =
     (case ch_effect c of
        Direct \<Rightarrow> (buffer, c)
      | Dd \<Rightarrow> processDiverRadio buffer errorLevel c
      | Phone \<Rightarrow> bandPass_opt buffer c
      | Speaker \<Rightarrow> bandPass_opt buffer c
      | _ \<Rightarrow> processDistortedRadio m buffer errorLevel c)"

section \<open>Panning\<close>

definition panning :: "libm \<Rightarrow> fp \<Rightarrow> fp \<times> fp" where
  "panning m azimuthRadians =
     (let s = sinf m azimuthRadians
      in (add32 (mul32 (fneg (lit32 (37525 / 100000))) s) (lit32 (625 / 1000)),
          add32 (mul32 (lit32 (37525 / 100000)) s) (lit32 (625 / 1000))))"

lemma length_biquad_buffer [simp]: "length (fst (biquad_buffer b f)) = length b"
  by (simp add: biquad_buffer_def)

lemma length_cascade_buffer [simp]: "length (fst (cascade_buffer b fs)) = length b"
proof (induction b fs rule: cascade_buffer.induct)
  case (2 b f fs)
  then show ?case by (metis (no_types, lifting) cascade_buffer.simps(2) case_prod_unfold fst_conv length_biquad_buffer surjective_pairing)
qed simp

lemma length_filter_opt [simp]: "length (fst (filter_opt b f)) = length b"
  by (simp add: filter_opt_def case_prod_unfold split: option.split)

lemma length_bandPass_opt [simp]: "length (fst (bandPass_opt b c)) = length b"
  by (simp add: bandPass_opt_def case_prod_unfold split: option.split)

lemma length_chain_process [simp]: "length (fst (chain_process m b e c)) = length b"
  by (auto simp: chain_process_def processDistortedRadio_def processDiverRadio_def Let_def case_prod_unfold
      split: sourceEffect.split)

end
