(* ===== verification/OpusCodec.thy ===== *)
theory OpusCodec
  imports Protocol Dsp
begin

text \<open>
  The wrappers of \<open>src/Voice/OpusCodec.cpp\<close> around libopus and of \<open>src/Voice/Dsp/NoiseSuppressor.cpp\<close>
  around RNNoise, and the conversions between 16-bit PCM and floating point. The libraries are third
  party: a codec is a function from its state and input to its result and next state, and what the
  code relies on is stated as \<open>decoder_doc\<close>, \<open>encoder_doc\<close> and \<open>denoise_doc\<close>.
\<close>

type_synonym pcm = "16 word list"

definition kFrameSamples :: nat where "kFrameSamples = 960"

text \<open>\<open>opus_decode\<close> (a missing payload asks for concealment) and \<open>opus_encode\<close>: the returned count, what was
  written to the output buffer, and the next state of the codec.\<close>

type_synonym 'd opus_decode = "'d \<Rightarrow> byte list option \<Rightarrow> int \<times> pcm \<times> 'd"
type_synonym 'e opus_encode = "'e \<Rightarrow> pcm \<Rightarrow> nat \<Rightarrow> int \<times> byte list \<times> 'e"

definition decoder_doc :: "'d opus_decode \<Rightarrow> bool" where
  "decoder_doc dec \<longleftrightarrow> (\<forall>d p. case dec d p of (n, pcm, _) \<Rightarrow> n = int kFrameSamples \<longrightarrow> length pcm = kFrameSamples)"

definition encoder_doc :: "'e opus_encode \<Rightarrow> bool" where
  "encoder_doc enc \<longleftrightarrow>
     (\<forall>e pcm cap. case enc e pcm cap of (n, out, _) \<Rightarrow> n \<le> int cap \<and> (0 < n \<longrightarrow> int (length out) = n))"

section \<open>Codec wrappers\<close>

text \<open>\<open>opus_encoder_create\<close> and \<open>opus_decoder_create\<close> answer an error code (0 is \<open>OPUS_OK\<close>) and a pointer.\<close>

definition OpusVoiceEncoder :: "int \<Rightarrow> 'e option \<Rightarrow> 'e option" where
  "OpusVoiceEncoder err e = (if err \<noteq> 0 \<or> e = None then None else e)"

definition OpusVoiceDecoder :: "int \<Rightarrow> 'd option \<Rightarrow> 'd option" where
  "OpusVoiceDecoder err d = (if err \<noteq> 0 \<or> d = None then None else d)"

definition encode :: "'e opus_encode \<Rightarrow> pcm \<Rightarrow> nat \<Rightarrow> 'e option \<Rightarrow> byte list \<times> 'e option" where
  "encode enc pcm outCapacity m_encoder =
     (case m_encoder of
        None \<Rightarrow> ([], None)
      | Some e \<Rightarrow> (case enc e pcm outCapacity of (result, out, e') \<Rightarrow>
          (if 0 < result then out else [], Some e')))"

definition silence_pcm :: pcm where "silence_pcm = replicate kFrameSamples 0"

definition run_decoder :: "'d opus_decode \<Rightarrow> byte list option \<Rightarrow> 'd option \<Rightarrow> pcm \<times> 'd option" where
  "run_decoder dec payload m_decoder =
     (case m_decoder of
        None \<Rightarrow> (silence_pcm, None)
      | Some d \<Rightarrow> (case dec d payload of (decoded, pcm, d') \<Rightarrow>
          (if decoded = int kFrameSamples then pcm else silence_pcm, Some d')))"

definition decode :: "'d opus_decode \<Rightarrow> byte list \<Rightarrow> 'd option \<Rightarrow> pcm \<times> 'd option" where
  "decode dec payload m_decoder = run_decoder dec (Some payload) m_decoder"

definition decodePacketLoss :: "'d opus_decode \<Rightarrow> 'd option \<Rightarrow> pcm \<times> 'd option" where
  "decodePacketLoss dec m_decoder = run_decoder dec None m_decoder"

lemma length_run_decoder: "decoder_doc dec \<Longrightarrow> length (fst (run_decoder dec p d)) = kFrameSamples"
  unfolding run_decoder_def decoder_doc_def silence_pcm_def
  by (auto split: option.split prod.split simp: kFrameSamples_def) (metis (mono_tags, lifting) case_prodD)+

lemma length_decode [simp]: "decoder_doc dec \<Longrightarrow> length (fst (decode dec p d)) = kFrameSamples"
  by (simp add: decode_def length_run_decoder)

lemma length_decodePacketLoss [simp]: "decoder_doc dec \<Longrightarrow> length (fst (decodePacketLoss dec d)) = kFrameSamples"
  by (simp add: decodePacketLoss_def length_run_decoder)

lemma encode_capacity:
  assumes "encoder_doc enc"
  shows "length (fst (encode enc pcm cap e)) \<le> cap"
  using assms unfolding encode_def encoder_doc_def
  by (auto split: option.split prod.split) (smt (verit, best) case_prodD of_nat_le_iff)

section \<open>Samples\<close>

text \<open>\<open>s / 32768.0f\<close>, and \<open>static_cast<int16_t>\<close>, which is undefined out of range.\<close>

definition sample_of :: "16 word \<Rightarrow> fp" where
  "sample_of s = div32 (int32_fp (sint s)) (Fin 32768)"

definition int16_cast :: "libm \<Rightarrow> fp \<Rightarrow> 16 word" where
  "int16_cast m x = (case cast_int (- 32768) 32767 x of Some n \<Rightarrow> word_of_int n | None \<Rightarrow> ucast (cast_oob m x))"

section \<open>Noise suppression\<close>

definition kRnnoiseFrameSize :: nat where "kRnnoiseFrameSize = 480"

text \<open>\<open>rnnoise_process_frame\<close> on its state and a frame.\<close>

type_synonym 'n rnnoise = "'n \<Rightarrow> fp list \<Rightarrow> fp list \<times> 'n"

definition denoise_doc :: "'n rnnoise \<Rightarrow> bool" where
  "denoise_doc rn \<longleftrightarrow> (\<forall>s xs. length (fst (rn s xs)) = length xs)"

definition denoise_half :: "'n rnnoise \<Rightarrow> fp list \<Rightarrow> 'n \<Rightarrow> fp list \<times> 'n" where
  "denoise_half rn xs s =
     (case rn s (map (\<lambda>x. mul32 x (Fin 32768)) xs) of (scratch, s') \<Rightarrow>
        (map (\<lambda>x. clampf (div32 x (Fin 32768)) (Fin (- 1)) (Fin 1)) scratch, s'))"

definition denoise :: "'n rnnoise \<Rightarrow> fp list \<Rightarrow> 'n option \<Rightarrow> fp list \<times> 'n option" where
  "denoise rn in960 m_state =
     (case m_state of
        None \<Rightarrow> (in960, None)
      | Some s \<Rightarrow>
          (case denoise_half rn (take kRnnoiseFrameSize in960) s of (a, s) \<Rightarrow>
           case denoise_half rn (drop kRnnoiseFrameSize in960) s of (b, s) \<Rightarrow> (a @ b, Some s)))"

lemma length_denoise: "denoise_doc rn \<Longrightarrow> length (fst (denoise rn xs s)) = length xs"
proof (cases s)
  case (Some n)
  assume d: "denoise_doc rn"
  have h: "length (fst (denoise_half rn ys t)) = length ys" for ys t
    using d by (auto simp: denoise_half_def denoise_doc_def case_prod_unfold)
  show ?thesis unfolding Some denoise_def
    by (simp add: case_prod_unfold h)
qed (simp add: denoise_def)

end
