(* ===== verification/RemoteSource.thy ===== *)
theory RemoteSource
  imports OpusCodec
begin

text \<open>
  One remote speaker: \<open>src/Voice/RemoteVoiceSource.cpp\<close>. Queued Opus frames, jitter cushion and
  concealment, the paths this speaker is heard through, and the beep overlay. A call under one of the
  class's mutexes is one function; the render thread's own fields are part of the same record. The
  stereo buffers are interleaved as in the code.
\<close>

section \<open>State\<close>

record srcState =
  rs_gain :: fp
  rs_azimuth :: fp
  rs_muted :: bool
  rs_effect :: sourceEffect
  rs_errorLevel :: fp
  rs_stereoMode :: int

record pendingFrame =
  pf_data :: "byte list"
  pf_isLast :: bool

record beepClip =
  bc_samples :: pcm
  bc_count :: nat

type_synonym pathChain = "sourceEffect \<times> chain option"

text \<open>
  A new chain seeds its own generator; \<open>so_seeds i\<close> is what the \<open>i\<close>-th chain of this source will draw,
  and \<open>so_made\<close> counts the chains made so far.
\<close>

record 'd source =
  so_sessionId :: "32 word"
  so_uid :: string
  so_pending :: "pendingFrame list"
  so_decoder :: "'d option"
  so_stereoFrame :: "fp list"
  so_stereoFramePos :: nat
  so_isPlaying :: bool
  so_concealmentCount :: int
  so_concealmentExhaustedCount :: int
  so_chains :: "pathChain list"
  so_seeds :: "nat \<Rightarrow> nat \<Rightarrow> fp"
  so_made :: nat
  so_states :: "srcState list"
  so_renderStates :: "srcState list"
  so_pendingBeep :: "beepClip option"
  so_beepSamples :: pcm
  so_beepTotal :: nat
  so_beepPos :: nat

definition kJitterTargetFrames :: int where "kJitterTargetFrames = 4"
definition kMaxConcealmentFrames :: int where "kMaxConcealmentFrames = 10"
definition kMaxQueuedFrames :: nat where "kMaxQueuedFrames = 10"

definition new_source :: "32 word \<Rightarrow> string \<Rightarrow> 'd option \<Rightarrow> (nat \<Rightarrow> nat \<Rightarrow> fp) \<Rightarrow> 'd source" where
  "new_source sessionId uid decoder seeds =
     \<lparr>so_sessionId = sessionId, so_uid = uid, so_pending = [], so_decoder = decoder,
      so_stereoFrame = replicate (kFrameSamples * 2) (Fin 0), so_stereoFramePos = kFrameSamples * 2,
      so_isPlaying = False, so_concealmentCount = 0, so_concealmentExhaustedCount = 0, so_chains = [],
      so_seeds = seeds, so_made = 0, so_states = [], so_renderStates = [], so_pendingBeep = None,
      so_beepSamples = [], so_beepTotal = 0, so_beepPos = 0\<rparr>"

section \<open>Operations\<close>

definition channelGains :: "libm \<Rightarrow> srcState \<Rightarrow> fp \<times> fp" where
  "channelGains m state =
     (if rs_stereoMode state = 1 then (mul32 (rs_gain state) (Fin (3 / 2)), Fin 0)
      else if rs_stereoMode state = 2 then (Fin 0, mul32 (rs_gain state) (Fin (3 / 2)))
      else (case panning m (rs_azimuth state) of
              (left, right) \<Rightarrow> (mul32 left (rs_gain state), mul32 right (rs_gain state))))"

definition isRadioReception :: "sourceEffect \<Rightarrow> bool" where
  "isRadioReception effect \<longleftrightarrow> effect \<noteq> Direct \<and> effect \<noteq> Intercom"

text \<open>\<open>chainForPath\<close>: the slot's chain, and the source with the slot in place. A new chain replaces one of
  another effect.\<close>

definition chainForPath :: "libm \<Rightarrow> nat \<Rightarrow> sourceEffect \<Rightarrow> 'd source \<Rightarrow> chain \<times> 'd source" where
  "chainForPath m index effect s =
     (let chains = (if length (so_chains s) \<le> index
            then so_chains s @ replicate (index + 1 - length (so_chains s)) (Direct, None) else so_chains s)
      in case chains ! index of
           (e, Some c) \<Rightarrow>
             if e \<noteq> effect then
               let c' = new_chain m (so_seeds s (so_made s)) effect
               in (c', s\<lparr>so_chains := chains[index := (effect, Some c')], so_made := so_made s + 1\<rparr>)
             else (c, s\<lparr>so_chains := chains\<rparr>)
         | (e, None) \<Rightarrow>
             let c' = new_chain m (so_seeds s (so_made s)) effect
             in (c', s\<lparr>so_chains := chains[index := (effect, Some c')], so_made := so_made s + 1\<rparr>))"

definition enqueueOpusFrame :: "byte list \<Rightarrow> bool \<Rightarrow> 'd source \<Rightarrow> 'd source" where
  "enqueueOpusFrame opus isLast s =
     (let q = so_pending s @ [\<lparr>pf_data = opus, pf_isLast = isLast\<rparr>]
      in s\<lparr>so_pending := drop (length q - kMaxQueuedFrames) q\<rparr>)"

definition setStates :: "srcState list \<Rightarrow> 'd source \<Rightarrow> 'd source" where
  "setStates states s = s\<lparr>so_states := states\<rparr>"

definition triggerBeep :: "beepClip \<Rightarrow> 'd source \<Rightarrow> 'd source" where
  "triggerBeep clip s = s\<lparr>so_pendingBeep := Some clip\<rparr>"

definition path_audible :: "srcState \<Rightarrow> bool" where
  "path_audible st \<longleftrightarrow> \<not> (rs_muted st \<or> \<not> flt (Fin 0) (rs_gain st))"

text \<open>\<open>m_stereoFrame[2 i] += scratch[i] * leftGain\<close>, and the same for the right channel.\<close>

fun add_stereo :: "fp list \<Rightarrow> fp list \<Rightarrow> fp \<Rightarrow> fp \<Rightarrow> fp list" where
  "add_stereo (l # r # stereo) (x # xs) lg rg =
     add32 l (mul32 x lg) # add32 r (mul32 x rg) # add_stereo stereo xs lg rg"
| "add_stereo stereo xs lg rg = stereo"

text \<open>The loop over the paths: each runs its own chain over a copy of the decoded frame.\<close>

fun mix_paths :: "libm \<Rightarrow> fp list \<Rightarrow> nat \<Rightarrow> srcState list \<Rightarrow> fp list \<Rightarrow> 'd source \<Rightarrow> fp list \<times> 'd source" where
  "mix_paths m monoFrame p [] stereo s = (stereo, s)"
| "mix_paths m monoFrame p (st # sts) stereo s =
     (case chainForPath m p (rs_effect st) s of (c, s1) \<Rightarrow>
        case chain_process m monoFrame (rs_errorLevel st) c of (scratch, c') \<Rightarrow>
          case channelGains m st of (lg, rg) \<Rightarrow>
            mix_paths m monoFrame (Suc p) sts (add_stereo stereo scratch lg rg)
              (s1\<lparr>so_chains := (so_chains s1)[p := (rs_effect st, Some c')]\<rparr>))"

definition clamp1 :: "fp \<Rightarrow> fp" where "clamp1 x = clampf x (Fin (- 1)) (Fin 1)"

text \<open>What follows the decoding of a frame: mix, clamp, drop the chains of vanished paths.\<close>

definition mix_frame :: "libm \<Rightarrow> pcm \<Rightarrow> 'd source \<Rightarrow> 'd source" where
  "mix_frame m decoded s =
     (case mix_paths m (map sample_of decoded) 0 (so_renderStates s)
             (replicate (kFrameSamples * 2) (Fin 0)) s of
        (stereo, s') \<Rightarrow> s'\<lparr>so_stereoFrame := map clamp1 stereo,
            so_chains := take (length (so_renderStates s')) (so_chains s')\<rparr>)"

definition tryProduceNextFrame :: "libm \<Rightarrow> 'd opus_decode \<Rightarrow> 'd source \<Rightarrow> bool \<times> 'd source" where
  "tryProduceNextFrame m dec s0 =
     (let s = s0\<lparr>so_renderStates := filter path_audible (so_states s0)\<rparr>
      in if so_renderStates s = [] then
           (False, s\<lparr>so_isPlaying := False, so_concealmentCount := 0, so_pending := []\<rparr>)
         else (case so_pending s of
           [] \<Rightarrow>
             if \<not> so_isPlaying s then (False, s)
             else if kMaxConcealmentFrames \<le> so_concealmentCount s then
               (False, s\<lparr>so_isPlaying := False, so_concealmentCount := 0,
                        so_concealmentExhaustedCount := so_concealmentExhaustedCount s + 1\<rparr>)
             else (case decodePacketLoss dec (so_decoder s) of (pcm, d) \<Rightarrow>
                    (True, mix_frame m pcm
                       (s\<lparr>so_concealmentCount := so_concealmentCount s + 1, so_decoder := d\<rparr>)))
         | frame # rest \<Rightarrow>
             if \<not> so_isPlaying s \<and> int (length rest) < kJitterTargetFrames - 1 \<and>
                \<not> (pf_isLast frame \<or> list_ex pf_isLast rest)
             then (False, s)
             else (case decode dec (pf_data frame) (so_decoder s) of (pcm, d) \<Rightarrow>
                    (True, mix_frame m pcm
                       (s\<lparr>so_pending := rest, so_isPlaying := \<not> pf_isLast frame,
                          so_concealmentCount := 0, so_decoder := d\<rparr>)))))"

text \<open>The voice part of \<open>render\<close>. Its loop ends because every pass copies at least one stereo frame, which
  depends on the cursor being even; so it is partial, and \<open>None\<close> is "does not return".\<close>

partial_function (option) render_voice ::
    "libm \<Rightarrow> 'd opus_decode \<Rightarrow> nat \<Rightarrow> 'd source \<Rightarrow> (fp list \<times> 'd source) option" where
  "render_voice m dec frameCount s =
     (if frameCount = 0 then Some ([], s)
      else
        let (produced, s1) =
          (if length (so_stereoFrame s) \<le> so_stereoFramePos s then
             (case tryProduceNextFrame m dec s of
                (False, s') \<Rightarrow> (False, s')
              | (True, s') \<Rightarrow> (True, s'\<lparr>so_stereoFramePos := 0\<rparr>))
           else (True, s))
        in if \<not> produced then Some (replicate (frameCount * 2) (Fin 0), s1)
           else
             let availableFrames = (length (so_stereoFrame s1) - so_stereoFramePos s1) div 2;
                 toCopy = min availableFrames frameCount
             in Option.bind
                  (render_voice m dec (frameCount - toCopy)
                     (s1\<lparr>so_stereoFramePos := so_stereoFramePos s1 + toCopy * 2\<rparr>))
                  (\<lambda>(out, s'). Some (take (toCopy * 2) (drop (so_stereoFramePos s1) (so_stereoFrame s1)) @ out, s')))"

declare render_voice.simps [code]

text \<open>The beep overlay: the pending trigger is taken over, and mixed in while a radio path is heard.\<close>

definition take_beep :: "'d source \<Rightarrow> 'd source" where
  "take_beep s = (case so_pendingBeep s of None \<Rightarrow> s
     | Some clip \<Rightarrow> s\<lparr>so_beepSamples := bc_samples clip, so_beepTotal := bc_count clip, so_beepPos := 0,
                       so_pendingBeep := None\<rparr>)"

fun mix_beep :: "fp list \<Rightarrow> pcm \<Rightarrow> fp \<Rightarrow> fp \<Rightarrow> fp list" where
  "mix_beep (l # r # out) (x # xs) lg rg =
     clamp1 (add32 l (mul32 (sample_of x) lg)) # clamp1 (add32 r (mul32 (sample_of x) rg)) # mix_beep out xs lg rg"
| "mix_beep out xs lg rg = out"

definition render_beep :: "libm \<Rightarrow> nat \<Rightarrow> fp list \<Rightarrow> 'd source \<Rightarrow> fp list \<times> 'd source" where
  "render_beep m frameCount out s0 =
     (let s = take_beep s0
      in if so_beepTotal s \<le> so_beepPos s then (out, s)
         else (case find (\<lambda>st. path_audible st \<and> isRadioReception (rs_effect st)) (so_states s) of
                 None \<Rightarrow> (out, s)
               | Some state \<Rightarrow>
                   (case channelGains m state of (lg, rg) \<Rightarrow>
                      let toMix = min frameCount (so_beepTotal s - so_beepPos s)
                      in (mix_beep out (take toMix (drop (so_beepPos s) (so_beepSamples s))) lg rg,
                          s\<lparr>so_beepPos := so_beepPos s + toMix\<rparr>))))"

definition render :: "libm \<Rightarrow> 'd opus_decode \<Rightarrow> nat \<Rightarrow> 'd source \<Rightarrow> (fp list \<times> 'd source) option" where
  "render m dec frameCount s =
     Option.bind (render_voice m dec frameCount s) (\<lambda>(out, s'). Some (render_beep m frameCount out s'))"

end
