(* ===== verification/SourceProps.thy ===== *)
theory SourceProps
  imports RemoteSource
begin

text \<open>
  Properties of one remote speaker: every sequence of calls returns frames of the right size with
  samples in range, an inaudible source falls silent, the jitter cushion and the concealment budget.
\<close>

text \<open>A sample as the mixer expects it: in \<open>[-1, 1]\<close>, unless the effects produced a NaN.\<close>

definition unit_sample :: "fp \<Rightarrow> bool" where
  "unit_sample x \<longleftrightarrow> is_nan x \<or> (fle (Fin (- 1)) x \<and> fle x (Fin 1))"

lemma unit_sample_clamp1 [simp]: "unit_sample (clamp1 x)"
proof (cases "is_nan x")
  case True
  then show ?thesis by (cases x) (simp_all add: unit_sample_def clamp1_def clampf_def)
next
  case False
  then show ?thesis
    using clampf_range[of "Fin (- 1)" "Fin 1" x] by (simp add: unit_sample_def clamp1_def fle_def)
qed

lemma unit_sample_zero [simp]: "unit_sample (Fin 0)"
  by (simp add: unit_sample_def fle_def)

definition source_ok :: "'d source \<Rightarrow> bool" where
  "source_ok s \<longleftrightarrow> length (so_stereoFrame s) = kFrameSamples * 2 \<and>
     even (so_stereoFramePos s) \<and> so_stereoFramePos s \<le> kFrameSamples * 2 \<and>
     (\<forall>x \<in> set (so_stereoFrame s). unit_sample x) \<and>
     length (so_pending s) \<le> kMaxQueuedFrames \<and>
     0 \<le> so_concealmentCount s \<and> so_concealmentCount s \<le> kMaxConcealmentFrames"

section \<open>One operation at a time\<close>

lemma length_add_stereo [simp]: "length (add_stereo stereo xs lg rg) = length stereo"
  by (induction stereo xs lg rg rule: add_stereo.induct) auto

lemma length_mix_paths [simp]: "length (fst (mix_paths m mf p sts stereo s)) = length stereo"
  by (induction m mf p sts stereo s rule: mix_paths.induct) (auto split: prod.split)

text \<open>Mixing only touches the chains.\<close>

definition same_but_chains :: "'d source \<Rightarrow> 'd source \<Rightarrow> bool" where
  "same_but_chains s t \<longleftrightarrow> t = s\<lparr>so_chains := so_chains t, so_made := so_made t\<rparr>"

lemma same_but_chains_refl [simp]: "same_but_chains s s"
  by (simp add: same_but_chains_def)

lemma same_but_chains_trans: "same_but_chains s t \<Longrightarrow> same_but_chains t u \<Longrightarrow> same_but_chains s u"
  unfolding same_but_chains_def by (cases s; cases t; cases u) simp

lemma same_but_chains_upd [simp]:
  "same_but_chains s (s\<lparr>so_chains := cs\<rparr>)" "same_but_chains s (s\<lparr>so_chains := cs, so_made := n\<rparr>)"
  unfolding same_but_chains_def by (cases s; simp)+

lemma chainForPath_frame: "same_but_chains s (snd (chainForPath m i e s))"
  unfolding chainForPath_def Let_def by (simp split: prod.split option.split)

lemma mix_paths_frame: "same_but_chains s (snd (mix_paths m mf p sts stereo s))"
proof (induction sts arbitrary: p stereo s)
  case (Cons st sts)
  obtain c s1 where c: "chainForPath m p (rs_effect st) s = (c, s1)" by force
  obtain scratch c' where sc: "chain_process m mf (rs_errorLevel st) c = (scratch, c')" by force
  obtain lg rg where g: "channelGains m st = (lg, rg)" by force
  have "same_but_chains s s1" using chainForPath_frame[of s m p "rs_effect st"] c by simp
  then have "same_but_chains s (s1\<lparr>so_chains := (so_chains s1)[p := (rs_effect st, Some c')]\<rparr>)"
    by (rule same_but_chains_trans) simp
  then show ?case unfolding mix_paths.simps c sc g prod.case
    by (rule same_but_chains_trans) (rule Cons.IH)
qed simp

lemma mix_frame_frame:
  "\<exists>cs n st. mix_frame m pcm s = s\<lparr>so_stereoFrame := st, so_chains := cs, so_made := n\<rparr> \<and>
     length st = kFrameSamples * 2 \<and> (\<forall>x \<in> set st. unit_sample x)"
proof -
  obtain stereo s' where e: "mix_paths m (map sample_of pcm) 0 (so_renderStates s)
      (replicate (kFrameSamples * 2) (Fin 0)) s = (stereo, s')" by force
  with mix_paths_frame[of s m "map sample_of pcm" 0 "so_renderStates s" "replicate (kFrameSamples * 2) (Fin 0)"]
  obtain cs n where s': "s' = s\<lparr>so_chains := cs, so_made := n\<rparr>" by (auto simp: same_but_chains_def)
  have "length stereo = kFrameSamples * 2" using e by (metis fst_conv length_mix_paths length_replicate)
  then show ?thesis unfolding mix_frame_def e s'
    by (intro exI[of _ "take (length (so_renderStates s)) cs"] exI[of _ n] exI[of _ "map clamp1 stereo"]) auto
qed

lemmas queue_consts = kFrameSamples_def kMaxQueuedFrames_def kMaxConcealmentFrames_def kJitterTargetFrames_def

text \<open>Whether a frame is produced, and what is left of the queue, in every case.\<close>

definition audible :: "'d source \<Rightarrow> bool" where
  "audible s \<longleftrightarrow> (\<exists>st \<in> set (so_states s). path_audible st)"

lemma filter_audible: "filter path_audible (so_states s) = [] \<longleftrightarrow> \<not> audible s"
  by (auto simp: audible_def filter_empty_conv)

lemma produce_inaudible:
  "\<not> audible s \<Longrightarrow> tryProduceNextFrame m dec s =
     (False, s\<lparr>so_renderStates := [], so_isPlaying := False, so_concealmentCount := 0, so_pending := []\<rparr>)"
  by (simp add: tryProduceNextFrame_def filter_audible[symmetric])

lemma produce_cases:
  assumes "audible s"
  shows "tryProduceNextFrame m dec s =
    (let s' = s\<lparr>so_renderStates := filter path_audible (so_states s)\<rparr> in
     case so_pending s of
       [] \<Rightarrow> if \<not> so_isPlaying s then (False, s')
         else if kMaxConcealmentFrames \<le> so_concealmentCount s then
           (False, s'\<lparr>so_isPlaying := False, so_concealmentCount := 0,
                     so_concealmentExhaustedCount := so_concealmentExhaustedCount s + 1\<rparr>)
         else (case decodePacketLoss dec (so_decoder s) of (pcm, d) \<Rightarrow>
                (True, mix_frame m pcm (s'\<lparr>so_concealmentCount := so_concealmentCount s + 1, so_decoder := d\<rparr>)))
     | f # rest \<Rightarrow>
         if \<not> so_isPlaying s \<and> int (length rest) < kJitterTargetFrames - 1 \<and>
            \<not> (pf_isLast f \<or> list_ex pf_isLast rest) then (False, s')
         else (case decode dec (pf_data f) (so_decoder s) of (pcm, d) \<Rightarrow>
                (True, mix_frame m pcm (s'\<lparr>so_pending := rest, so_isPlaying := \<not> pf_isLast f,
                   so_concealmentCount := 0, so_decoder := d\<rparr>))))"
  using assms by (simp add: tryProduceNextFrame_def filter_audible Let_def cong: list.case_cong if_cong)

text \<open>What the rest of the source sees of a mixed frame.\<close>

lemma mix_frame_fields [simp]:
  "so_pending (mix_frame m pcm s) = so_pending s" "so_states (mix_frame m pcm s) = so_states s"
  "so_isPlaying (mix_frame m pcm s) = so_isPlaying s" "so_decoder (mix_frame m pcm s) = so_decoder s"
  "so_concealmentCount (mix_frame m pcm s) = so_concealmentCount s"
  "so_stereoFramePos (mix_frame m pcm s) = so_stereoFramePos s"
  "so_pendingBeep (mix_frame m pcm s) = so_pendingBeep s" "so_beepPos (mix_frame m pcm s) = so_beepPos s"
  "so_beepTotal (mix_frame m pcm s) = so_beepTotal s" "so_beepSamples (mix_frame m pcm s) = so_beepSamples s"
  "length (so_stereoFrame (mix_frame m pcm s)) = kFrameSamples * 2"
  "x \<in> set (so_stereoFrame (mix_frame m pcm s)) \<Longrightarrow> unit_sample x"
  using mix_frame_frame[of m pcm s] by auto

lemma source_ok_produce [step_inv]:
  assumes "source_ok s"
  shows "source_ok (snd (tryProduceNextFrame m dec s))"
proof (cases "audible s")
  case True
  show ?thesis using assms unfolding produce_cases[OF True] Let_def
    by (auto simp: source_ok_def queue_consts split: list.split prod.split)
qed (use assms in \<open>simp add: produce_inaudible source_ok_def queue_consts\<close>)

lemma source_ok_new [step_inv]: "source_ok (new_source sid uid d seeds)"
  by (auto simp: source_ok_def new_source_def queue_consts)

lemma source_ok_enqueue [step_inv]: "source_ok s \<Longrightarrow> source_ok (enqueueOpusFrame opus l s)"
  by (auto simp: source_ok_def enqueueOpusFrame_def Let_def queue_consts)

lemma source_ok_setStates [step_inv]: "source_ok s \<Longrightarrow> source_ok (setStates sts s)"
  by (simp add: source_ok_def setStates_def)

lemma source_ok_triggerBeep [step_inv]: "source_ok s \<Longrightarrow> source_ok (triggerBeep c s)"
  by (simp add: source_ok_def triggerBeep_def)


section \<open>Rendering\<close>

lemma pos_lt: "source_ok s \<Longrightarrow> so_stereoFramePos s < kFrameSamples * 2 \<Longrightarrow>
    1 \<le> (kFrameSamples * 2 - so_stereoFramePos s) div 2"
  by (auto simp: source_ok_def kFrameSamples_def elim!: evenE)

text \<open>From a source with samples left, one pass of the loop copies some of them.\<close>

lemma render_voice_step:
  assumes "source_ok s" "so_stereoFramePos s < kFrameSamples * 2" "0 < n"
  defines "k \<equiv> min ((kFrameSamples * 2 - so_stereoFramePos s) div 2) n"
  shows "render_voice m dec n s = Option.bind (render_voice m dec (n - k)
            (s\<lparr>so_stereoFramePos := so_stereoFramePos s + k * 2\<rparr>))
          (\<lambda>(out, s'). Some (take (k * 2) (drop (so_stereoFramePos s) (so_stereoFrame s)) @ out, s'))"
    and "1 \<le> k" "k \<le> n" "source_ok (s\<lparr>so_stereoFramePos := so_stereoFramePos s + k * 2\<rparr>)"
proof -
  have l: "length (so_stereoFrame s) = kFrameSamples * 2" using assms(1) by (simp add: source_ok_def)
  show "render_voice m dec n s = Option.bind (render_voice m dec (n - k)
            (s\<lparr>so_stereoFramePos := so_stereoFramePos s + k * 2\<rparr>))
          (\<lambda>(out, s'). Some (take (k * 2) (drop (so_stereoFramePos s) (so_stereoFrame s)) @ out, s'))"
    using assms(2,3) by (subst render_voice.simps) (simp add: l k_def Let_def)
  show "1 \<le> k" using pos_lt[OF assms(1,2)] assms(3) by (simp add: k_def)
  show "k \<le> n" by (simp add: k_def)
  have "so_stereoFramePos s + k * 2 \<le> kFrameSamples * 2"
    using assms(2) by (auto simp: k_def min_def)
  then show "source_ok (s\<lparr>so_stereoFramePos := so_stereoFramePos s + k * 2\<rparr>)"
    using assms(1) by (simp add: source_ok_def)
qed

lemma render_voice_refill:
  assumes "so_stereoFramePos s = kFrameSamples * 2" "source_ok s" "0 < n"
  shows "render_voice m dec n s = (case tryProduceNextFrame m dec s of
      (False, s') \<Rightarrow> Some (replicate (n * 2) (Fin 0), s')
    | (True, s') \<Rightarrow> render_voice m dec n (s'\<lparr>so_stereoFramePos := 0\<rparr>))"
proof -
  obtain ok s' where t: "tryProduceNextFrame m dec s = (ok, s')" by force
  have ok': "source_ok s'" using source_ok_produce[OF assms(2), of m dec] t by simp
  then have "length (so_stereoFrame s') = kFrameSamples * 2" by (simp add: source_ok_def)
  moreover have "length (so_stereoFrame s) = kFrameSamples * 2" using assms(2) by (simp add: source_ok_def)
  ultimately show ?thesis using assms(1,3)
    by (cases ok) (simp_all add: render_voice.simps[of m dec n s] render_voice.simps[of m dec n "s'\<lparr>so_stereoFramePos := 0\<rparr>"]
        t kFrameSamples_def Let_def)
qed

lemma set_take_drop: "x \<in> set (take i (drop j xs)) \<Longrightarrow> x \<in> set xs"
  by (metis in_set_dropD in_set_takeD)

lemma render_voice_total:
  assumes "source_ok s"
  shows "\<exists>out s'. render_voice m dec n s = Some (out, s') \<and> length out = n * 2 \<and>
    (\<forall>x \<in> set out. unit_sample x) \<and> source_ok s'"
  using assms
proof (induction n arbitrary: s rule: less_induct)
  case (less n)
  let ?P = "\<lambda>n s. \<exists>out s'. render_voice m dec n s = Some (out, s') \<and> length out = n * 2 \<and>
    (\<forall>x \<in> set out. unit_sample x) \<and> source_ok s'"
  have go: "?P n s" if ok: "source_ok s" and p: "so_stereoFramePos s < kFrameSamples * 2" and n: "0 < n" for s
  proof -
    let ?k = "min ((kFrameSamples * 2 - so_stereoFramePos s) div 2) n"
    let ?s = "s\<lparr>so_stereoFramePos := so_stereoFramePos s + ?k * 2\<rparr>"
    note st = render_voice_step[OF ok p n]
    have "n - ?k < n" using st(2) n by linarith
    from less.IH[OF this st(4)] obtain out s' where
      r: "render_voice m dec (n - ?k) ?s = Some (out, s')" "length out = (n - ?k) * 2"
        "\<forall>x \<in> set out. unit_sample x" "source_ok s'" by blast
    let ?copied = "take (?k * 2) (drop (so_stereoFramePos s) (so_stereoFrame s))"
    have "length ?copied = ?k * 2" using ok by (simp add: source_ok_def)
    moreover have "\<forall>x \<in> set ?copied. unit_sample x"
      using ok by (auto simp: source_ok_def dest: set_take_drop)
    moreover have "render_voice m dec n s = Some (?copied @ out, s')" by (subst st(1)) (simp only: r(1) Option.bind.simps prod.case)
    moreover have "?k * 2 + (n - ?k) * 2 = n * 2" using st(3) by (metis add_mult_distrib le_add_diff_inverse)
    ultimately show ?thesis using r(2-4) by (intro exI[of _ "?copied @ out"] exI[of _ s']) (simp only: length_append set_append Un_iff simp_thms, blast)
  qed
  show ?case
  proof (cases "n = 0")
    case True
    then show ?thesis using less.prems by (simp add: render_voice.simps[of m dec 0])
  next
    case False
    show ?thesis
    proof (cases "so_stereoFramePos s < kFrameSamples * 2")
      case True
      then show ?thesis using go less.prems False by blast
    next
      case past: False
      with less.prems have pos: "so_stereoFramePos s = kFrameSamples * 2" by (simp add: source_ok_def)
      obtain ok s' where t: "tryProduceNextFrame m dec s = (ok, s')" by force
      have ok': "source_ok s'" using source_ok_produce[OF less.prems, of m dec] t by simp
      then have "source_ok (s'\<lparr>so_stereoFramePos := 0\<rparr>)" by (simp add: source_ok_def)
      from go[OF this] False ok' show ?thesis
        unfolding render_voice_refill[OF pos less.prems False[unfolded neq0_conv]] t
        by (cases ok) (auto simp: kFrameSamples_def)
    qed
  qed
qed


lemma length_mix_beep [simp]: "length (mix_beep out xs lg rg) = length out"
  by (induction out xs lg rg rule: mix_beep.induct) auto

lemma unit_mix_beep: "\<forall>x \<in> set out. unit_sample x \<Longrightarrow> \<forall>x \<in> set (mix_beep out xs lg rg). unit_sample x"
  by (induction out xs lg rg rule: mix_beep.induct) auto

lemma render_beep_ok:
  assumes "source_ok s" "\<forall>x \<in> set out. unit_sample x"
  shows "length (fst (render_beep m n out s)) = length out" "source_ok (snd (render_beep m n out s))"
    "\<forall>x \<in> set (fst (render_beep m n out s)). unit_sample x"
proof -
  have t: "source_ok (take_beep s)" using assms(1) by (simp add: take_beep_def source_ok_def split: option.split)
  then have u: "source_ok (take_beep s\<lparr>so_beepPos := k\<rparr>)" for k by (simp add: source_ok_def)
  show "length (fst (render_beep m n out s)) = length out" "source_ok (snd (render_beep m n out s))"
    "\<forall>x \<in> set (fst (render_beep m n out s)). unit_sample x"
    using t u unit_mix_beep[OF assms(2)] assms(2)
    by (simp_all add: render_beep_def Let_def split: option.split prod.split)
qed

lemma render_ok:
  assumes "source_ok s"
  shows "\<exists>out s'. render m dec n s = Some (out, s') \<and> length out = n * 2 \<and>
    (\<forall>x \<in> set out. unit_sample x) \<and> source_ok s'"
proof -
  from render_voice_total[OF assms, of m dec n] obtain out s' where
    r: "render_voice m dec n s = Some (out, s')" "length out = n * 2" "\<forall>x \<in> set out. unit_sample x" "source_ok s'"
    by blast
  from r(1) render_beep_ok[OF r(4,3), of m n] r(2) show ?thesis
    by (cases "render_beep m n out s'") (simp add: render_def)
qed

section \<open>Every sequence of calls\<close>

datatype src_op = Enqueue "byte list" bool | SetStates "srcState list" | TriggerBeep beepClip | Render nat

fun run_source :: "libm \<Rightarrow> 'd opus_decode \<Rightarrow> src_op list \<Rightarrow> 'd source \<Rightarrow> (fp list list \<times> 'd source) option" where
  "run_source m dec [] s = Some ([], s)"
| "run_source m dec (Enqueue opus l # ops) s = run_source m dec ops (enqueueOpusFrame opus l s)"
| "run_source m dec (SetStates sts # ops) s = run_source m dec ops (setStates sts s)"
| "run_source m dec (TriggerBeep c # ops) s = run_source m dec ops (triggerBeep c s)"
| "run_source m dec (Render n # ops) s =
     Option.bind (render m dec n s) (\<lambda>(out, s').
       Option.bind (run_source m dec ops s') (\<lambda>(outs, s''). Some (out # outs, s'')))"

fun render_sizes :: "src_op list \<Rightarrow> nat list" where
  "render_sizes [] = []"
| "render_sizes (Render n # ops) = n * 2 # render_sizes ops"
| "render_sizes (_ # ops) = render_sizes ops"

lemma run_source_ok:
  "source_ok s \<Longrightarrow> \<exists>outs s'. run_source m dec ops s = Some (outs, s') \<and> source_ok s' \<and>
     map length outs = render_sizes ops \<and> (\<forall>out \<in> set outs. \<forall>x \<in> set out. unit_sample x)"
proof (induction m dec ops s rule: run_source.induct)
  case (5 m dec n ops s)
  from render_ok[OF 5(2), of m dec n] obtain out s' where
    r: "render m dec n s = Some (out, s')" "length out = n * 2" "\<forall>x \<in> set out. unit_sample x" "source_ok s'"
    by blast
  from 5(1)[OF r(1) refl r(4)] r show ?case by force
qed (auto intro: step_inv)

text \<open>C22. Whatever is called on a source in whatever order (packets arriving, the solver's states, beep
  triggers, render callbacks of any size), every render returns, writes exactly the frames it was asked
  for with every sample in [-1, 1] or NaN, the packet queue never holds more than ten frames, and
  concealment never counts past ten.\<close>

theorem source_run_safe:
  shows "\<exists>outs s. run_source m dec ops (new_source sid uid d seeds) = Some (outs, s) \<and>
     map length outs = render_sizes ops \<and>
     list_all (list_all unit_sample) outs \<and>
     length (so_pending s) \<le> 10 \<and> 0 \<le> so_concealmentCount s \<and> so_concealmentCount s \<le> 10"
  using run_source_ok[OF source_ok_new, of m dec ops sid uid d seeds]
  by (auto simp: source_ok_def queue_consts list_all_iff)


section \<open>Silence, cushion and concealment\<close>

lemma audible_take_beep: "\<not> audible s \<Longrightarrow> render_beep m n out s = (out, take_beep s)"
proof -
  assume a: "\<not> audible s"
  have "so_states (take_beep s) = so_states s" by (simp add: take_beep_def split: option.split)
  with a have "find (\<lambda>st. path_audible st \<and> isRadioReception (rs_effect st)) (so_states (take_beep s)) = None"
    by (auto simp: find_None_iff audible_def)
  then show ?thesis by (simp add: render_beep_def Let_def)
qed

lemma render_voice_inaudible:
  assumes "\<not> audible s" "source_ok s" "so_stereoFramePos s = kFrameSamples * 2" "0 < n"
  shows "render_voice m dec n s = Some (replicate (n * 2) (Fin 0),
     s\<lparr>so_renderStates := [], so_isPlaying := False, so_concealmentCount := 0, so_pending := []\<rparr>)"
  by (simp add: render_voice_refill[OF assms(3,2,4)] produce_inaudible[OF assms(1)])

lemma render_voice_falls_silent:
  assumes "source_ok s" "\<not> audible s"
  shows "\<exists>s'. render_voice m dec n s =
       Some (take (n * 2) (drop (so_stereoFramePos s) (so_stereoFrame s) @ replicate (n * 2) (Fin 0)), s') \<and> \<not> audible s' \<and>
     (so_pending s' = [] \<and> \<not> so_isPlaying s' \<or> so_stereoFramePos s + n * 2 \<le> length (so_stereoFrame s))"
proof -
  have l: "length (so_stereoFrame s) = kFrameSamples * 2" using assms(1) by (simp add: source_ok_def)
  show ?thesis
  proof (cases "n = 0")
    case True
    with assms show ?thesis by (simp add: render_voice.simps[of m dec 0] source_ok_def l)
  next
    case n: False
    show ?thesis
    proof (cases "so_stereoFramePos s < kFrameSamples * 2")
      case True
      let ?k = "min ((kFrameSamples * 2 - so_stereoFramePos s) div 2) n"
      let ?s = "s\<lparr>so_stereoFramePos := so_stereoFramePos s + ?k * 2\<rparr>"
      note st = render_voice_step[OF assms(1) True n[unfolded neq0_conv]]
      have a: "\<not> audible ?s" using assms(2) by (simp add: audible_def)
      have ev: "even (so_stereoFramePos s)" using assms(1) by (simp add: source_ok_def)
      show ?thesis
      proof (cases "?k = n")
        case True
        then have "so_stereoFramePos s + n * 2 \<le> kFrameSamples * 2" using st(4) by (simp add: source_ok_def)
        then show ?thesis using a st(1)[of m dec] True by (simp add: render_voice.simps[of m dec 0] l)
      next
        case False
        then have k: "?k = (kFrameSamples * 2 - so_stereoFramePos s) div 2" "0 < n - ?k" using st(3) by auto
        with ev True have p: "so_stereoFramePos ?s = kFrameSamples * 2" "?k * 2 = kFrameSamples * 2 - so_stereoFramePos s"
          by (auto simp: kFrameSamples_def)
        from st(1)[of m dec] render_voice_inaudible[OF a st(4) p(1) k(2), of m dec] p(2) a k(2)
        show ?thesis by (auto simp: l audible_def diff_mult_distrib)
      qed
    next
      case False
      with assms(1) have "so_stereoFramePos s = kFrameSamples * 2" by (simp add: source_ok_def)
      from render_voice_inaudible[OF assms(2,1) this, of n m dec] n this assms(2) show ?thesis
        by (simp add: l audible_def)
    qed
  qed
qed

text \<open>C23. A speaker who stops being audible is silent from the next 20 ms frame on: a render plays the rest
  of the frame already mixed and then zeros, whatever is still queued; once past that frame the queue is
  empty and playback has stopped, so a frame is never repeated.\<close>

theorem inaudible_falls_silent:
  assumes "source_ok s" "\<not> audible s"
  shows "\<exists>s'. render m dec n s =
       Some (take (n * 2) (drop (so_stereoFramePos s) (so_stereoFrame s) @ replicate (n * 2) (Fin 0)), s') \<and>
     (so_pending s' = [] \<and> \<not> so_isPlaying s' \<or> so_stereoFramePos s + n * 2 \<le> length (so_stereoFrame s))"
proof -
  from render_voice_falls_silent[OF assms] obtain s' where
    r: "render_voice m dec n s = Some (take (n * 2) (drop (so_stereoFramePos s) (so_stereoFrame s) @ replicate (n * 2) (Fin 0)), s')"
    "\<not> audible s'"
    "so_pending s' = [] \<and> \<not> so_isPlaying s' \<or> so_stereoFramePos s + n * 2 \<le> length (so_stereoFrame s)" by blast
  from r(1) audible_take_beep[OF r(2), of m n] r(3) show ?thesis
    by (intro exI[of _ "take_beep s'"]) (auto simp: render_def take_beep_def split: option.split)
qed


text \<open>One audible path at full volume, straight ahead, and a decoder that always returns a constant frame.\<close>

definition plain_path :: srcState where
  "plain_path = \<lparr>rs_gain = Fin 1, rs_azimuth = Fin 0, rs_muted = False, rs_effect = Direct,
     rs_errorLevel = Fin 0, rs_stereoMode = 0\<rparr>"

definition flat_decoder :: "unit opus_decode" where
  "flat_decoder d p = (int kFrameSamples, replicate kFrameSamples 8, d)"

lemma flat_decoder_doc: "decoder_doc flat_decoder"
  by (simp add: decoder_doc_def flat_decoder_def)

definition example_source :: "unit source" where
  "example_source = (new_source 7 ''u'' (Some ()) (\<lambda>_ _. Fin 0))\<lparr>so_states := [plain_path]\<rparr>"

lemma audible_example: "audible example_source"
  by (simp add: audible_def example_source_def plain_path_def path_audible_def)

lemma inaudible_falls_silent_witness:
  "\<exists>s'. render flat_libm flat_decoder 3 ((new_source 7 ''u'' (Some ()) (\<lambda>_ _. Fin 0))
         \<lparr>so_stereoFrame := replicate 1920 (Fin 1), so_stereoFramePos := 1918,
           so_pending := [\<lparr>pf_data = [1], pf_isLast = False\<rparr>]\<rparr>) =
       Some ([Fin 1, Fin 1, Fin 0, Fin 0, Fin 0, Fin 0], s') \<and> so_pending s' = []"
proof -
  let ?s = "(new_source 7 ''u'' (Some ()) (\<lambda>_ _. Fin 0))
         \<lparr>so_stereoFrame := replicate 1920 (Fin 1), so_stereoFramePos := 1918,
           so_pending := [\<lparr>pf_data = [1], pf_isLast = False\<rparr>]\<rparr>"
  have "source_ok ?s" "\<not> audible ?s"
    by (auto simp: source_ok_def new_source_def queue_consts unit_sample_def audible_def fle_def)
  moreover have "take (3 * 2) (drop 1918 (replicate 1920 (Fin 1)) @ replicate (3 * 2) (Fin 0)) =
      [Fin 1, Fin 1, Fin 0, Fin 0, Fin 0, Fin 0]" by (simp add: drop_replicate numeral_eq_Suc)
  ultimately show ?thesis using inaudible_falls_silent[of ?s flat_libm flat_decoder 3] by auto
qed

text \<open>The jitter cushion: a source that is heard but not playing produces a frame exactly when four
  packets are buffered or the end of the transmission is among what is buffered; until then the queue
  is left as it is.\<close>

theorem jitter_cushion:
  assumes "audible s" "\<not> so_isPlaying s"
  shows "let ready = (4 \<le> length (so_pending s) \<or> list_ex pf_isLast (so_pending s));
             (produced, s') = tryProduceNextFrame m dec s
         in produced = ready \<and> so_pending s' = (if ready then tl (so_pending s) else so_pending s)"
  using assms(2)
  by (auto simp: produce_cases[OF assms(1)] Let_def kJitterTargetFrames_def case_prod_unfold split: list.split)

text \<open>The render thread asking again and again while nothing arrives.\<close>

definition produce_n :: "libm \<Rightarrow> 'd opus_decode \<Rightarrow> nat \<Rightarrow> 'd source \<Rightarrow> 'd source" where
  "produce_n m dec k s = ((\<lambda>s. snd (tryProduceNextFrame m dec s)) ^^ k) s"

lemma produce_states [simp]: "so_states (snd (tryProduceNextFrame m dec s)) = so_states s"
  by (simp add: tryProduceNextFrame_def Let_def split: list.split prod.split)

lemma produce_audible: "audible s \<Longrightarrow> audible (snd (tryProduceNextFrame m dec s))"
  by (simp add: audible_def)

text \<open>Idle: heard, nothing queued, nothing playing. Nothing is produced and nothing changes.\<close>

lemma produce_idle:
  assumes "audible s" "so_pending s = []" "\<not> so_isPlaying s"
  shows "\<not> fst (tryProduceNextFrame m dec (produce_n m dec k s)) \<and> audible (produce_n m dec k s) \<and>
     so_pending (produce_n m dec k s) = [] \<and> \<not> so_isPlaying (produce_n m dec k s) \<and>
     so_decoder (produce_n m dec k s) = so_decoder s"
proof (induction k)
  case (Suc k)
  then have a: "audible (produce_n m dec k s)" by simp
  show ?case using Suc produce_audible[OF a, of m dec]
    by (simp add: produce_n_def) (simp add: produce_cases Let_def produce_audible)
qed (use assms in \<open>simp add: produce_n_def produce_cases[OF assms(1)] Let_def\<close>)

lemma produce_n_Suc: "produce_n m dec (Suc k) s = produce_n m dec k (snd (tryProduceNextFrame m dec s))"
  using funpow_swap1[of "\<lambda>s. snd (tryProduceNextFrame m dec s)" k s] by (simp add: produce_n_def)


lemma produce_n_add: "produce_n m dec (a + b) s = produce_n m dec a (produce_n m dec b s)"
  by (simp add: produce_n_def funpow_add)

lemma jitter_cushion_witness:
  "fst (tryProduceNextFrame flat_libm flat_decoder
     (enqueueOpusFrame [1] True (enqueueOpusFrame [2] False example_source))) \<and>
   \<not> fst (tryProduceNextFrame flat_libm flat_decoder
     (enqueueOpusFrame [1] False (enqueueOpusFrame [2] False example_source)))"
proof -
  let ?s = "\<lambda>l. enqueueOpusFrame [1] l (enqueueOpusFrame [2] False example_source)"
  have a: "audible (?s l)" "\<not> so_isPlaying (?s l)" for l
    using audible_example by (simp_all add: audible_def enqueueOpusFrame_def example_source_def new_source_def)
  have q: "so_pending (?s l) = [\<lparr>pf_data = [2], pf_isLast = False\<rparr>, \<lparr>pf_data = [1], pf_isLast = l\<rparr>]" for l
    by (simp add: enqueueOpusFrame_def example_source_def new_source_def kMaxQueuedFrames_def)
  from jitter_cushion[OF a[of True], of flat_libm flat_decoder]
    jitter_cushion[OF a[of False], of flat_libm flat_decoder]
  show ?thesis by (simp add: q case_prod_unfold Let_def)
qed

text \<open>While the concealment budget lasts, a dry queue counts up by one per frame.\<close>

lemma produce_conceal:
  assumes "audible s" "so_pending s = []" "so_isPlaying s" "so_concealmentCount s = 0" "k \<le> 10"
  shows "audible (produce_n m dec k s) \<and> so_pending (produce_n m dec k s) = [] \<and>
     so_isPlaying (produce_n m dec k s) \<and> so_concealmentCount (produce_n m dec k s) = int k"
  using assms(5)
proof (induction k)
  case (Suc k)
  then have h: "audible (produce_n m dec k s)" "so_pending (produce_n m dec k s) = []"
    "so_isPlaying (produce_n m dec k s)" "so_concealmentCount (produce_n m dec k s) = int k" by simp_all
  have e: "produce_n m dec (Suc k) s = snd (tryProduceNextFrame m dec (produce_n m dec k s))"
    by (simp add: produce_n_def)
  show ?case using h Suc.prems produce_audible[OF h(1), of m dec]
    unfolding e by (simp add: produce_cases Let_def kMaxConcealmentFrames_def case_prod_unfold)
qed (use assms in \<open>simp add: produce_n_def\<close>)

text \<open>C24. A transmission that stops arriving without an end marker is concealed for ten frames (200 ms)
  and not longer: of all renders that find the queue empty, exactly the first ten produce a frame.\<close>

theorem concealment_budget:
  assumes "audible s" "so_isPlaying s" "so_pending s = []" "so_concealmentCount s = 0"
  shows "fst (tryProduceNextFrame m dec (produce_n m dec k s)) = (k < 10)"
proof (cases "k \<le> 10")
  case True
  from produce_conceal[OF assms(1,3,2,4) True, of m dec] True show ?thesis
    by (auto simp: produce_cases Let_def kMaxConcealmentFrames_def case_prod_unfold)
next
  case False
  then obtain j where k: "k = Suc j + 10" by (metis add_Suc le_Suc_ex nat_le_linear not_less_eq_eq add.commute)
  let ?t = "produce_n m dec 10 s"
  let ?u = "snd (tryProduceNextFrame m dec ?t)"
  have h: "audible ?t" "so_pending ?t = []" "so_isPlaying ?t" "so_concealmentCount ?t = 10"
    using produce_conceal[OF assms(1,3,2,4), of 10 m dec] by simp_all
  have "audible ?u" "so_pending ?u = []" "\<not> so_isPlaying ?u"
    using h produce_audible[OF h(1), of m dec]
    by (simp_all add: produce_cases[OF h(1)] Let_def kMaxConcealmentFrames_def)
  from produce_idle[OF this, of m dec j] have "\<not> fst (tryProduceNextFrame m dec (produce_n m dec j ?u))" by simp
  moreover have "produce_n m dec k s = produce_n m dec (Suc j) ?t"
    unfolding k by (simp only: produce_n_add)
  then have "produce_n m dec k s = produce_n m dec j ?u" by (simp add: produce_n_Suc)
  ultimately show ?thesis using False by simp
qed

lemma concealment_budget_witness:
  "fst (tryProduceNextFrame flat_libm flat_decoder (produce_n flat_libm flat_decoder 9 (example_source\<lparr>so_isPlaying := True\<rparr>))) \<and>
   \<not> fst (tryProduceNextFrame flat_libm flat_decoder (produce_n flat_libm flat_decoder 10 (example_source\<lparr>so_isPlaying := True\<rparr>)))"
proof -
  let ?s = "example_source\<lparr>so_isPlaying := True\<rparr>"
  have "audible ?s" "so_isPlaying ?s" "so_pending ?s = []" "so_concealmentCount ?s = 0"
    using audible_example by (simp_all add: audible_def example_source_def new_source_def)
  from concealment_budget[OF this, of flat_libm flat_decoder] show ?thesis by simp
qed

text \<open>A transmission that ends with its end marker needs no concealment: once the marked frame is
  played and the queue is empty, no further frame is produced and the decoder is left alone, however
  often the render thread asks.\<close>

theorem end_marker_stops_playback:
  assumes "audible s" "so_pending s = [f]" "pf_isLast f"
  shows "let (produced, s') = tryProduceNextFrame m dec s
         in produced \<and> \<not> fst (tryProduceNextFrame m dec (produce_n m dec k s')) \<and>
            so_decoder (produce_n m dec k s') = so_decoder s'"
proof -
  let ?s = "snd (tryProduceNextFrame m dec s)"
  have "fst (tryProduceNextFrame m dec s)" "so_pending ?s = []" "\<not> so_isPlaying ?s"
    using assms(2,3) by (simp_all add: produce_cases[OF assms(1)] Let_def case_prod_unfold)
  with produce_idle[OF produce_audible[OF assms(1), of m dec] this(2,3), of m dec k] show ?thesis
    by (simp add: case_prod_unfold Let_def)
qed

lemma end_marker_stops_playback_witness:
  "\<not> fst (tryProduceNextFrame flat_libm flat_decoder (produce_n flat_libm flat_decoder 5
      (snd (tryProduceNextFrame flat_libm flat_decoder (enqueueOpusFrame [1] True example_source)))))"
proof -
  have a: "audible (enqueueOpusFrame [1] True example_source)"
    "so_pending (enqueueOpusFrame [1] True example_source) = [\<lparr>pf_data = [1], pf_isLast = True\<rparr>]"
    using audible_example
    by (simp_all add: audible_def enqueueOpusFrame_def example_source_def new_source_def kMaxQueuedFrames_def)
  from end_marker_stops_playback[OF a, of flat_libm flat_decoder 5] show ?thesis
    by (simp add: case_prod_unfold Let_def)
qed

end
