(* ===== verification/Mixer.thy ===== *)
theory Mixer
  imports RemoteSource ExtState
begin

text \<open>
  The playback mixer of \<open>src/Voice/PlaybackMixer.cpp\<close> and the cue table of
  \<open>src/Voice/RadioBeepAssets.cpp\<close>. The sources are an ordered map by session id; one call under
  \<open>m_sourcesMutex\<close> is one function. WASAPI's answers are arguments; what is written to the device
  buffer is the result. A new source's decoder and random seeds come from outside (\<open>mx_spawn\<close>).
\<close>

section \<open>Beep cues\<close>

text \<open>The rows of \<open>kTable\<close>. The generated sample data itself is looked up by array name in \<open>assets\<close>.\<close>

definition kBeepTable :: "(string \<times> bool \<times> bool \<times> string \<times> nat) list" where
  "kBeepTable =
    [(''digital'', True, True, ''kDigitalLocalStart'', 7929),
     (''digital'', True, False, ''kDigitalLocalEnd'', 7929),
     (''digital'', False, True, ''kDigitalRemoteStart'', 12669),
     (''digital'', False, False, ''kDigitalRemoteEnd'', 22570),
     (''digital_lr'', True, True, ''kDigitalLrLocalStart'', 19616),
     (''digital_lr'', True, False, ''kDigitalLrLocalEnd'', 19876),
     (''digital_lr'', False, True, ''kDigitalLrRemoteStart'', 8970),
     (''digital_lr'', False, False, ''kDigitalLrRemoteEnd'', 19644),
     (''airborne'', True, True, ''kAirborneLocalStart'', 17310),
     (''airborne'', True, False, ''kAirborneLocalEnd'', 21077),
     (''airborne'', False, True, ''kAirborneRemoteStart'', 24000),
     (''airborne'', False, False, ''kAirborneRemoteEnd'', 24000),
     (''dd'', True, True, ''kDdLocalStart'', 9731),
     (''dd'', True, False, ''kDdLocalEnd'', 3047),
     (''dd'', False, True, ''kDdRemoteStart'', 10190),
     (''dd'', False, False, ''kDdRemoteEnd'', 11513)]"

definition findBeepClip :: "(string \<Rightarrow> pcm) \<Rightarrow> string \<Rightarrow> bool \<Rightarrow> bool \<Rightarrow> beepClip option" where
  "findBeepClip assets subtype loc start =
     (case find (\<lambda>(st, l, b, _, _). l = loc \<and> b = start \<and> subtype = st) kBeepTable of
        None \<Rightarrow> None
      | Some (_, _, _, samples, count) \<Rightarrow> Some \<lparr>bc_samples = assets samples, bc_count = count\<rparr>)"

section \<open>State\<close>

record 'd mixer =
  mx_masterVolume :: fp
  mx_muted :: bool
  mx_debugForceAudible :: bool
  mx_sources :: "(32 word, 'd source) umap"
  mx_localBeepSamples :: pcm
  mx_localBeepTotal :: nat
  mx_localBeepPos :: nat
  mx_mixed48k :: "fp list"
  mx_resampleCursor :: fp
  mx_phantomAudioLogCounter :: "32 word"
  mx_spawn :: "nat \<Rightarrow> 'd option \<times> (nat \<Rightarrow> nat \<Rightarrow> fp)"
  mx_spawned :: nat

definition new_mixer :: "(nat \<Rightarrow> 'd option \<times> (nat \<Rightarrow> nat \<Rightarrow> fp)) \<Rightarrow> 'd mixer" where
  "new_mixer spawn = \<lparr>mx_masterVolume = Fin 1, mx_muted = False, mx_debugForceAudible = False,
     mx_sources = [], mx_localBeepSamples = [], mx_localBeepTotal = 0, mx_localBeepPos = 0,
     mx_mixed48k = [], mx_resampleCursor = Fin 0, mx_phantomAudioLogCounter = 0,
     mx_spawn = spawn, mx_spawned = 0\<rparr>"

definition kChunkFrames :: nat where "kChunkFrames = kFrameSamples"
definition kInternalSampleRate :: int where "kInternalSampleRate = 48000"

section \<open>Sources\<close>

definition forced_path :: srcState where
  "forced_path = \<lparr>rs_gain = Fin 1, rs_azimuth = Fin 0, rs_muted = False, rs_effect = Direct,
     rs_errorLevel = Fin 0, rs_stereoMode = 0\<rparr>"

definition addSource :: "32 word \<Rightarrow> string \<Rightarrow> 'd mixer \<Rightarrow> 'd mixer" where
  "addSource sessionId uid x =
     (if uget (mx_sources x) sessionId \<noteq> None then x
      else
        let (decoder, seeds) = mx_spawn x (mx_spawned x);
            s = new_source sessionId uid decoder seeds;
            s' = (if mx_debugForceAudible x then setStates [forced_path] s else s)
        in x\<lparr>mx_sources := uput sessionId s' (mx_sources x), mx_spawned := mx_spawned x + 1\<rparr>)"

definition on_source :: "32 word \<Rightarrow> ('d source \<Rightarrow> 'd source) \<Rightarrow> 'd mixer \<Rightarrow> 'd mixer" where
  "on_source sessionId f x =
     (case uget (mx_sources x) sessionId of
        None \<Rightarrow> x
      | Some s \<Rightarrow> x\<lparr>mx_sources := uput sessionId (f s) (mx_sources x)\<rparr>)"

definition setSourceStates :: "32 word \<Rightarrow> srcState list \<Rightarrow> 'd mixer \<Rightarrow> 'd mixer" where
  "setSourceStates sessionId states = on_source sessionId (setStates states)"

definition mixer_enqueue :: "32 word \<Rightarrow> byte list \<Rightarrow> bool \<Rightarrow> 'd mixer \<Rightarrow> 'd mixer" where
  "mixer_enqueue sessionId opus isLast = on_source sessionId (enqueueOpusFrame opus isLast)"

definition removeSource :: "32 word \<Rightarrow> 'd mixer \<Rightarrow> 'd mixer" where
  "removeSource sessionId x = x\<lparr>mx_sources := udel sessionId (mx_sources x)\<rparr>"

definition removeAllSources :: "'d mixer \<Rightarrow> 'd mixer" where
  "removeAllSources x = x\<lparr>mx_sources := []\<rparr>"

definition triggerRemoteBeep :: "(string \<Rightarrow> pcm) \<Rightarrow> 32 word \<Rightarrow> string \<Rightarrow> bool \<Rightarrow> 'd mixer \<Rightarrow> 'd mixer" where
  "triggerRemoteBeep assets sessionId subtype start x =
     (case findBeepClip assets subtype False start of
        None \<Rightarrow> x
      | Some clip \<Rightarrow> on_source sessionId (triggerBeep clip) x)"

definition triggerLocalBeep :: "(string \<Rightarrow> pcm) \<Rightarrow> string \<Rightarrow> bool \<Rightarrow> 'd mixer \<Rightarrow> 'd mixer" where
  "triggerLocalBeep assets subtype start x =
     (case findBeepClip assets subtype True start of
        None \<Rightarrow> x
      | Some clip \<Rightarrow> x\<lparr>mx_localBeepSamples := bc_samples clip, mx_localBeepTotal := bc_count clip,
                       mx_localBeepPos := 0\<rparr>)"

definition setMasterVolume :: "fp \<Rightarrow> 'd mixer \<Rightarrow> 'd mixer" where
  "setMasterVolume volume x = x\<lparr>mx_masterVolume := clampf volume (Fin 0) (Fin 2)\<rparr>"

definition setMuted :: "bool \<Rightarrow> 'd mixer \<Rightarrow> 'd mixer" where
  "setMuted muted x = x\<lparr>mx_muted := muted\<rparr>"

definition setDebugForceAudible :: "bool \<Rightarrow> 'd mixer \<Rightarrow> 'd mixer" where
  "setDebugForceAudible enabled x = x\<lparr>mx_debugForceAudible := enabled\<rparr>"

section \<open>One chunk of 20 ms\<close>

fun mix_sources :: "libm \<Rightarrow> 'd opus_decode \<Rightarrow> (32 word, 'd source) umap \<Rightarrow> fp list \<Rightarrow>
    (fp list \<times> (32 word, 'd source) umap) option" where
  "mix_sources m dec [] mix = Some (mix, [])"
| "mix_sources m dec ((k, s) # rest) mix =
     Option.bind (render m dec kChunkFrames s) (\<lambda>(scratch, s').
       Option.bind (mix_sources m dec rest (map2 add32 mix scratch)) (\<lambda>(mix', rest').
         Some (mix', (k, s') # rest')))"

fun add_mono :: "fp list \<Rightarrow> pcm \<Rightarrow> fp list" where
  "add_mono (l # r # mix) (p # ps) = add32 l (sample_of p) # add32 r (sample_of p) # add_mono mix ps"
| "add_mono mix ps = mix"

definition limit_sample :: "fp \<Rightarrow> bool \<Rightarrow> fp \<Rightarrow> fp" where
  "limit_sample volume muted x =
     (let y = mul32 x volume;
          z = div32 y (add32 (Fin 1) (fabs y))
      in if muted then Fin 0 else z)"

definition mix_local_beep :: "fp list \<Rightarrow> 'd mixer \<Rightarrow> fp list \<times> 'd mixer" where
  "mix_local_beep mix x =
     (if mx_localBeepPos x < mx_localBeepTotal x then
        let toMix = min kChunkFrames (mx_localBeepTotal x - mx_localBeepPos x)
        in (add_mono mix (take toMix (drop (mx_localBeepPos x) (mx_localBeepSamples x))),
            x\<lparr>mx_localBeepPos := mx_localBeepPos x + toMix\<rparr>)
      else (mix, x))"

definition peak_of :: "fp list \<Rightarrow> fp" where
  "peak_of mix = fold (\<lambda>s peak. if flt peak (fabs s) then fabs s else peak) mix (Fin 0)"

definition phantom_check :: "fp list \<Rightarrow> 'd mixer \<Rightarrow> 'd mixer" where
  "phantom_check mix x =
     (if mx_sources x = [] \<and> mx_localBeepTotal x \<le> mx_localBeepPos x \<and> \<not> mx_muted x then
        if flt (lit32 (1 / 1000)) (peak_of mix)
        then x\<lparr>mx_phantomAudioLogCounter := mx_phantomAudioLogCounter x + 1\<rparr> else x
      else x\<lparr>mx_phantomAudioLogCounter := 0\<rparr>)"

definition generateChunk :: "libm \<Rightarrow> 'd opus_decode \<Rightarrow> 'd mixer \<Rightarrow> 'd mixer option" where
  "generateChunk m dec x =
     Option.bind (mix_sources m dec (mx_sources x) (replicate (kChunkFrames * 2) (Fin 0))) (\<lambda>(mix, sources).
       case mix_local_beep mix (x\<lparr>mx_sources := sources\<rparr>) of
         (mix, x) \<Rightarrow>
           let mix = map (limit_sample (mx_masterVolume x) (mx_muted x)) mix;
               x = phantom_check mix x
           in Some (x\<lparr>mx_mixed48k := mx_mixed48k x @ mix\<rparr>))"

section \<open>Rendering into the device buffer\<close>

definition resample_step :: "int \<Rightarrow> fp" where
  "resample_step deviceSampleRate = div64 (of_int_fp f64 kInternalSampleRate) (of_int_fp f64 deviceSampleRate)"

text \<open>The loop that tops the mix up until the resampler can interpolate.\<close>

partial_function (option) top_up :: "libm \<Rightarrow> 'd opus_decode \<Rightarrow> 'd mixer \<Rightarrow> 'd mixer option" where
  "top_up m dec x =
     (if length (mx_mixed48k x) div 2 \<le> size_cast m (mx_resampleCursor x) + 1
      then Option.bind (generateChunk m dec x) (top_up m dec)
      else Some x)"

declare top_up.simps [code]

definition device_frame :: "libm \<Rightarrow> 'd opus_decode \<Rightarrow> fp \<Rightarrow> 'd mixer \<Rightarrow> ((fp \<times> fp) \<times> 'd mixer) option" where
  "device_frame m dec step x =
     Option.bind (top_up m dec x) (\<lambda>x.
       let idx0 = size_cast m (mx_resampleCursor x) * 2;
           idx1 = idx0 + 2;
           fraction = sub64 (mx_resampleCursor x) (floor64 (mx_resampleCursor x));
           left = interpolate (mx_mixed48k x ! idx0) (mx_mixed48k x ! idx1) fraction;
           right = interpolate (mx_mixed48k x ! (idx0 + 1)) (mx_mixed48k x ! (idx1 + 1)) fraction
       in Some ((left, right), x\<lparr>mx_resampleCursor := add64 (mx_resampleCursor x) step\<rparr>))"

fun device_frames :: "libm \<Rightarrow> 'd opus_decode \<Rightarrow> fp \<Rightarrow> nat \<Rightarrow> 'd mixer \<Rightarrow> ((fp \<times> fp) list \<times> 'd mixer) option" where
  "device_frames m dec step 0 x = Some ([], x)"
| "device_frames m dec step (Suc n) x =
     Option.bind (device_frame m dec step x) (\<lambda>(fr, x).
       Option.bind (device_frames m dec step n x) (\<lambda>(frs, x). Some (fr # frs, x)))"

definition drop_consumed :: "libm \<Rightarrow> 'd mixer \<Rightarrow> 'd mixer" where
  "drop_consumed m x =
     (let consumedFrames = size_cast m (mx_resampleCursor x)
      in if 0 < consumedFrames \<and> consumedFrames * 2 \<le> length (mx_mixed48k x)
         then x\<lparr>mx_mixed48k := drop (consumedFrames * 2) (mx_mixed48k x),
                mx_resampleCursor := sub64 (mx_resampleCursor x) (index_fp consumedFrames)\<rparr>
         else x)"

text \<open>What is written for one frame: 32-bit float or 16-bit integer samples, one per device channel.\<close>

datatype deviceBuffer = FloatBuffer "fp list" | PcmBuffer "16 word list"

definition float_frame :: "nat \<Rightarrow> fp \<times> fp \<Rightarrow> fp list" where
  "float_frame channels fr =
     [fst fr] @ (if 1 < channels then [snd fr] else []) @ replicate (channels - 2) (Fin 0)"

definition pcm_sample :: "libm \<Rightarrow> fp \<Rightarrow> 16 word" where
  "pcm_sample m s = int16_cast m (mul32 (clampf s (Fin (- 1)) (Fin 1)) (Fin 32767))"

definition pcm_frame :: "libm \<Rightarrow> nat \<Rightarrow> fp \<times> fp \<Rightarrow> 16 word list" where
  "pcm_frame m channels fr =
     [pcm_sample m (fst fr)] @ (if 1 < channels then [pcm_sample m (snd fr)] else []) @ replicate (channels - 2) 0"

record waveFormat =
  wf_samplesPerSec :: int
  wf_channels :: nat
  wf_bitsPerSample :: nat
  wf_isFloat :: bool

definition fill_buffer :: "libm \<Rightarrow> 'd opus_decode \<Rightarrow> waveFormat \<Rightarrow> nat \<Rightarrow> 'd mixer \<Rightarrow> (deviceBuffer \<times> 'd mixer) option" where
  "fill_buffer m dec fmt framesNeeded x =
     Option.bind (device_frames m dec (resample_step (wf_samplesPerSec fmt)) framesNeeded x) (\<lambda>(frs, x).
       Some (if wf_isFloat fmt then FloatBuffer (concat (map (float_frame (wf_channels fmt)) frs))
             else PcmBuffer (concat (map (pcm_frame m (wf_channels fmt)) frs)),
             drop_consumed m x))"

section \<open>Device sessions\<close>

text \<open>What WASAPI answers while a session is opened; a missing value is a failed call.\<close>

record render_open =
  ro_device :: bool
  ro_activated :: bool
  ro_mixFormat :: "waveFormat option"
  ro_initialized :: bool
  ro_event :: bool
  ro_service :: bool
  ro_started :: bool

definition open_render :: "render_open \<Rightarrow> waveFormat option" where
  "open_render ro =
     (if \<not> ro_device ro then None
      else if \<not> ro_activated ro then None
      else (case ro_mixFormat ro of
              None \<Rightarrow> None
            | Some fmt \<Rightarrow>
                if \<not> wf_isFloat fmt \<and> wf_bitsPerSample fmt \<noteq> 16 then None
                else if \<not> ro_initialized ro \<or> wf_channels fmt = 0 then None
                else if \<not> ro_event ro then None
                else if \<not> ro_service ro then None
                else if \<not> ro_started ro then None
                else Some fmt))"

datatype waitResult = Signalled | Timeout | WaitBroken
datatype bufferAnswer = GotBuffer | BufferLost | BufferTransient

text \<open>One pass of the render loop as the system answers it; the padding is missing when the query failed.\<close>

record wake =
  wk_wait :: waitResult
  wk_padding :: "32 word option"
  wk_buffer :: bufferAnswer
  wk_now :: time
  wk_default :: string

definition device_switched :: "string \<Rightarrow> time \<Rightarrow> time \<Rightarrow> string \<Rightarrow> bool \<times> time" where
  "device_switched deviceId lastDeviceCheck now currentDefault =
     (if ms 1000 \<le> now - lastDeviceCheck
      then (currentDefault \<noteq> [] \<and> deviceId \<noteq> [] \<and> currentDefault \<noteq> deviceId, now)
      else (False, lastDeviceCheck))"

text \<open>The loop runs until a stop is requested (the end of the list) or it breaks.\<close>

fun render_session :: "libm \<Rightarrow> 'd opus_decode \<Rightarrow> waveFormat \<Rightarrow> string \<Rightarrow> 32 word \<Rightarrow> time \<Rightarrow> wake list \<Rightarrow>
    'd mixer \<Rightarrow> (deviceBuffer list \<times> 'd mixer) option" where
  "render_session m dec fmt deviceId bufferFrameCount lastCheck [] x = Some ([], x)"
| "render_session m dec fmt deviceId bufferFrameCount lastCheck (w # ws) x =
     (let proceed = (\<lambda>bufs x.
            case device_switched deviceId lastCheck (wk_now w) (wk_default w) of
              (True, _) \<Rightarrow> Some (bufs, x)
            | (False, lastCheck') \<Rightarrow>
                Option.bind (render_session m dec fmt deviceId bufferFrameCount lastCheck' ws x)
                  (\<lambda>(bufs', x). Some (bufs @ bufs', x)))
      in case wk_wait w of
           WaitBroken \<Rightarrow> Some ([], x)
         | Timeout \<Rightarrow> proceed [] x
         | Signalled \<Rightarrow>
             (case wk_padding w of
                None \<Rightarrow> Some ([], x)
              | Some paddingFrames \<Rightarrow>
                  let framesNeeded = bufferFrameCount - paddingFrames
                  in if framesNeeded = 0 then proceed [] x
                     else (case wk_buffer w of
                             BufferLost \<Rightarrow> Some ([], x)
                           | BufferTransient \<Rightarrow> render_session m dec fmt deviceId bufferFrameCount lastCheck ws x
                           | GotBuffer \<Rightarrow>
                               Option.bind (fill_buffer m dec fmt (unat framesNeeded) x)
                                 (\<lambda>(b, x). proceed [b] x))))"

text \<open>\<open>runDeviceSession\<close> and the supervision loop around it: after every session the mix and the cursor are
  reset, and a session that never rendered is counted.\<close>

definition runDeviceSession :: "libm \<Rightarrow> 'd opus_decode \<Rightarrow> render_open \<Rightarrow> string \<Rightarrow> 32 word \<Rightarrow> time \<Rightarrow> wake list \<Rightarrow>
    'd mixer \<Rightarrow> (deviceBuffer list \<times> bool \<times> 'd mixer) option" where
  "runDeviceSession m dec ro deviceId bufferFrameCount startedAt ws x =
     (case open_render ro of
        None \<Rightarrow> Some ([], False, x)
      | Some fmt \<Rightarrow> Option.bind (render_session m dec fmt deviceId bufferFrameCount startedAt ws x)
                      (\<lambda>(bufs, x). Some (bufs, True, x)))"

definition after_session :: "bool \<Rightarrow> 32 word \<Rightarrow> 'd mixer \<Rightarrow> 32 word \<times> 'd mixer" where
  "after_session wasRunning failureCount x =
     (if wasRunning then 0 else failureCount + 1, x\<lparr>mx_mixed48k := [], mx_resampleCursor := Fin 0\<rparr>)"

end
