(* ===== verification/MixerProps.thy ===== *)
theory MixerProps
  imports Mixer SourceProps
begin

text \<open>
  Properties of the mixer: every chunk is in range, an empty mix is silent, the device buffer is always
  filled from samples that exist, and the backlog of mixed samples stays below one chunk.
\<close>

section \<open>The limiter\<close>

lemma limit_sample_unit [simp]: "unit_sample (limit_sample v muted x)"
proof -
  define y where "y = mul32 x v"
  have wf: "fp_wf f32 y" unfolding y_def by (rule fmul_wf) simp
  have fin: "unit_sample (div32 y (add32 (Fin 1) (fabs y)))" if f: "is_fin y"
  proof -
    have rep: "representable f32 \<bar>val y\<bar>" using wf_rep[OF f wf] by (simp add: abs_if)
    have one: "representable f32 1" "\<bar>1\<bar> < pow2 (exp_max f32 + 1)" "\<bar>- 1\<bar> < pow2 (exp_max f32 + 1)"
      using representable_int[of 1 f32] by (simp_all add: f32_def pow2_def)
    let ?d = "add32 (Fin 1) (fabs y)"
    have d: "?d = fin_of f32 (signbit (Fin 1) \<and> signbit (fabs y)) (1 + \<bar>val y\<bar>)" using op_fin(1)[of "Fin 1" "fabs y" f32] f by simp
    show ?thesis
    proof (cases "is_fin ?d")
      case False
      then have "is_inf ?d" unfolding d by (simp add: is_fin_def)
      then show ?thesis using f by (auto simp: fdiv_def is_fin_def unit_sample_def fle_def Let_def)
    next
      case True
      have v: "val ?d = rndq f32 (1 + \<bar>val y\<bar>)"
        using True unfolding d by (auto simp: fin_of_def Let_def split: if_splits)
      have "\<bar>val y\<bar> \<le> val ?d" "1 \<le> val ?d" unfolding v using rep one(1) by (auto intro!: rndq_ge)
      then have q: "- 1 \<le> val y / val ?d" "val y / val ?d \<le> 1" "val ?d \<noteq> 0"
        by (auto simp: field_simps)
      have "div32 y ?d = fin_of f32 (signbit y \<noteq> signbit ?d) (val y / val ?d)"
        using op_fin(4)[OF f True q(3)] .
      moreover note fin_of_between[OF q(1,2) _ one(1) f32_pos one(3,2), of "signbit y \<noteq> signbit ?d"]
      ultimately show ?thesis using one(1) cmp_fin(3) by (simp add: unit_sample_def)
    qed
  qed
  have "unit_sample (div32 y (add32 (Fin 1) (fabs y)))"
    using fin by (cases y) (simp_all add: fadd_def fdiv_def unit_sample_def fabs_def fneg_def)
  then show ?thesis by (simp add: limit_sample_def y_def Let_def)
qed

section \<open>One chunk\<close>

text \<open>What holds of a mixer at all times, and the number of stereo frames mixed ahead.\<close>

definition mixer_core :: "'d mixer \<Rightarrow> bool" where
  "mixer_core x \<longleftrightarrow> uwf (mx_sources x) \<and> (\<forall>(k, s) \<in> set (mx_sources x). source_ok s) \<and>
     even (length (mx_mixed48k x)) \<and> (\<forall>y \<in> set (mx_mixed48k x). unit_sample y)"

definition ahead :: "'d mixer \<Rightarrow> int" where
  "ahead x = int (length (mx_mixed48k x) div 2)"

lemma mix_sources_ok:
  assumes "\<forall>(k, s) \<in> set srcs. source_ok s" "length mix = kChunkFrames * 2"
  shows "\<exists>mix' srcs'. mix_sources m dec srcs mix = Some (mix', srcs') \<and> length mix' = kChunkFrames * 2 \<and>
    ukeys srcs' = ukeys srcs \<and> (\<forall>(k, s) \<in> set srcs'. source_ok s)"
  using assms
proof (induction srcs arbitrary: mix)
  case (Cons ks srcs)
  obtain k s where ks: "ks = (k, s)" by force
  have "source_ok s" using Cons.prems(1) ks by auto
  from render_ok[OF this, of m dec kChunkFrames] obtain out s' where
    r: "render m dec kChunkFrames s = Some (out, s')" "length out = kChunkFrames * 2" "source_ok s'" by blast
  have "length (map2 add32 mix out) = kChunkFrames * 2" using Cons.prems(2) r(2) by simp
  from Cons.IH[OF _ this] Cons.prems(1) ks obtain mix' srcs' where
    "mix_sources m dec srcs (map2 add32 mix out) = Some (mix', srcs')" "length mix' = kChunkFrames * 2"
    "ukeys srcs' = ukeys srcs" "\<forall>(k, s) \<in> set srcs'. source_ok s" by auto
  with r ks show ?case by auto
qed simp

lemma length_add_mono [simp]: "length (add_mono mix ps) = length mix"
  by (induction mix ps rule: add_mono.induct) auto

lemma mix_local_beep_frame:
  "length (fst (mix_local_beep mix x)) = length mix \<and>
   (\<exists>p. snd (mix_local_beep mix x) = x\<lparr>mx_localBeepPos := p\<rparr>)"
  by (auto simp: mix_local_beep_def Let_def intro: exI[of _ "mx_localBeepPos x"])

lemma phantom_check_frame: "\<exists>c. phantom_check mix x = x\<lparr>mx_phantomAudioLogCounter := c\<rparr>"
  by (auto simp: phantom_check_def intro: exI[of _ "mx_phantomAudioLogCounter x"])

lemma generateChunk_ok:
  assumes "mixer_core x"
  shows "\<exists>x' chunk. generateChunk m dec x = Some x' \<and> mx_mixed48k x' = mx_mixed48k x @ chunk \<and>
     length chunk = 1920 \<and> list_all unit_sample chunk \<and> (mx_muted x \<longrightarrow> chunk = replicate 1920 (Fin 0)) \<and>
     mixer_core x' \<and> mx_resampleCursor x' = mx_resampleCursor x"
proof -
  from mix_sources_ok[of "mx_sources x" "replicate (kChunkFrames * 2) (Fin 0)" m dec] assms
  obtain mix srcs where ms: "mix_sources m dec (mx_sources x) (replicate (kChunkFrames * 2) (Fin 0)) = Some (mix, srcs)"
    "length mix = kChunkFrames * 2" "ukeys srcs = ukeys (mx_sources x)" "\<forall>(k, s) \<in> set srcs. source_ok s"
    by (auto simp: mixer_core_def)
  obtain mix2 x2 where lb: "mix_local_beep mix (x\<lparr>mx_sources := srcs\<rparr>) = (mix2, x2)" by force
  with mix_local_beep_frame[of mix "x\<lparr>mx_sources := srcs\<rparr>"] obtain p where
    x2: "x2 = x\<lparr>mx_sources := srcs, mx_localBeepPos := p\<rparr>" "length mix2 = kChunkFrames * 2" using ms(2) by auto
  let ?chunk = "map (limit_sample (mx_masterVolume x2) (mx_muted x2)) mix2"
  obtain c where pc: "phantom_check ?chunk x2 = x2\<lparr>mx_phantomAudioLogCounter := c\<rparr>"
    using phantom_check_frame[of ?chunk x2] by blast
  have g: "generateChunk m dec x =
      Some (x2\<lparr>mx_phantomAudioLogCounter := c, mx_mixed48k := mx_mixed48k x @ ?chunk\<rparr>)"
    unfolding generateChunk_def ms(1) using lb pc x2(1) by (simp add: Let_def)
  have "mx_muted x \<Longrightarrow> ?chunk = replicate 1920 (Fin 0)"
    using x2 by (intro nth_equalityI) (auto simp: limit_sample_def Let_def kChunkFrames_def kFrameSamples_def)
  moreover have "length ?chunk = 1920" using x2(2) by (simp add: kChunkFrames_def kFrameSamples_def)
  moreover have "list_all unit_sample ?chunk" by (simp add: list_all_iff)
  ultimately show ?thesis using g assms ms(3,4) x2(1)
    by (intro exI[of _ "x2\<lparr>mx_phantomAudioLogCounter := c, mx_mixed48k := mx_mixed48k x @ ?chunk\<rparr>"]
        exI[of _ ?chunk]) (auto simp: mixer_core_def uwf_def list_all_iff)
qed


section \<open>The resampling loop\<close>

lemma top_up_ok:
  assumes "mixer_core x" "cursor_ok (mx_resampleCursor x)"
  shows "\<exists>x'. top_up m dec x = Some x' \<and> mixer_core x' \<and> mx_resampleCursor x' = mx_resampleCursor x \<and>
     ipart (mx_resampleCursor x) + 2 \<le> ahead x' \<and>
     ahead x' \<le> max (ahead x) (ipart (mx_resampleCursor x) + 961)"
  using assms
proof (induction "nat (ipart (mx_resampleCursor x) + 2 - ahead x)" arbitrary: x rule: less_induct)
  case less
  let ?i = "ipart (mx_resampleCursor x)"
  have i: "0 \<le> ?i" using less.prems(2) by (simp add: cursor_ok_def)
  have cond: "length (mx_mixed48k x) div 2 \<le> size_cast m (mx_resampleCursor x) + 1 \<longleftrightarrow> ahead x \<le> ?i + 1"
    using i unfolding size_cast_cursor[OF less.prems(2)] ahead_def by linarith
  show ?case
  proof (cases "ahead x \<le> ?i + 1")
    case False
    then show ?thesis using less.prems cond by (subst top_up.simps) auto
  next
    case True
    from generateChunk_ok[OF less.prems(1), of m dec] obtain x' chunk where
      g: "generateChunk m dec x = Some x'" "mx_mixed48k x' = mx_mixed48k x @ chunk" "length chunk = 1920"
        "mixer_core x'" "mx_resampleCursor x' = mx_resampleCursor x" by blast
    have a: "ahead x' = ahead x + 960" using g(2,3) by (simp add: ahead_def)
    then have "nat (ipart (mx_resampleCursor x') + 2 - ahead x') < nat (?i + 2 - ahead x)"
      using True g(5) by simp
    from less.hyps[OF this g(4)] less.prems(2) g(5) obtain x'' where
      "top_up m dec x' = Some x''" "mixer_core x''" "mx_resampleCursor x'' = mx_resampleCursor x"
      "?i + 2 \<le> ahead x''" "ahead x'' \<le> max (ahead x') (?i + 961)" by auto
    moreover have "top_up m dec x = top_up m dec x'"
      using True cond g(1) by (subst top_up.simps) simp
    ultimately show ?thesis using True a by auto
  qed
qed

text \<open>The invariant of the loop over the device frames: the cursor is inside the mix, and not far behind its end.\<close>

definition resample_inv :: "'d mixer \<Rightarrow> bool" where
  "resample_inv x \<longleftrightarrow> mixer_core x \<and> cursor_ok (mx_resampleCursor x) \<and>
     ipart (mx_resampleCursor x) \<le> ahead x \<and> ahead x \<le> ipart (mx_resampleCursor x) + 961"

lemma device_frame_ok:
  assumes "resample_inv x" "step_ok step" "val (mx_resampleCursor x) < 2 ^ 49"
  shows "\<exists>fr x'. device_frame m dec step x = Some (fr, x') \<and> resample_inv x' \<and>
     val (mx_resampleCursor x') \<le> val (mx_resampleCursor x) + 5 / 2"
proof -
  have c: "cursor_ok (mx_resampleCursor x)" and core: "mixer_core x" using assms(1) by (auto simp: resample_inv_def)
  from top_up_ok[OF core c, of m dec] obtain x1 where
    t: "top_up m dec x = Some x1" "mixer_core x1" "mx_resampleCursor x1 = mx_resampleCursor x"
      "ipart (mx_resampleCursor x) + 2 \<le> ahead x1"
      "ahead x1 \<le> max (ahead x) (ipart (mx_resampleCursor x) + 961)" by blast
  let ?x' = "x1\<lparr>mx_resampleCursor := add64 (mx_resampleCursor x1) step\<rparr>"
  have ca: "cursor_ok (mx_resampleCursor x1)" "val (mx_resampleCursor x1) < 2 ^ 49" using c t(3) assms(3) by auto
  note adv = cursor_advance[OF ca(1) assms(2) ca(2)]
  have "mixer_core ?x'" using t(2) by (simp add: mixer_core_def)
  then have "resample_inv ?x'"
    using adv t(3,4,5) assms(1) by (auto simp: resample_inv_def ahead_def)
  moreover have "val (mx_resampleCursor ?x') \<le> val (mx_resampleCursor x) + 5 / 2"
    using adv(3) of_int_floor_le[of "val (mx_resampleCursor x1)"] t(3) by simp linarith
  moreover have "\<exists>fr. device_frame m dec step x = Some (fr, ?x')" using t(1) by (simp add: device_frame_def Let_def)
  ultimately show ?thesis by blast
qed

lemma device_frames_ok:
  assumes "resample_inv x" "step_ok step" "val (mx_resampleCursor x) + 5 / 2 * of_nat n < 2 ^ 49"
  shows "\<exists>frs x'. device_frames m dec step n x = Some (frs, x') \<and> length frs = n \<and> resample_inv x' \<and>
     val (mx_resampleCursor x') < 2 ^ 49"
  using assms(1,3)
proof (induction n arbitrary: x)
  case (Suc n)
  have b: "val (mx_resampleCursor x) < 2 ^ 49"
  proof -
    have "(0::rat) \<le> 5 / 2 * of_nat (Suc n)" by simp
    with Suc.prems(2) show ?thesis by linarith
  qed
  from device_frame_ok[OF Suc.prems(1) assms(2) b, of m dec] obtain fr x1 where
    d: "device_frame m dec step x = Some (fr, x1)" "resample_inv x1"
      "val (mx_resampleCursor x1) \<le> val (mx_resampleCursor x) + 5 / 2" by blast
  have "val (mx_resampleCursor x1) + 5 / 2 * of_nat n < 2 ^ 49"
  proof -
    have "(5 / 2 :: rat) * of_nat (Suc n) = 5 / 2 * of_nat n + 5 / 2" by (simp add: algebra_simps)
    with d(3) Suc.prems(2) show ?thesis by linarith
  qed
  from Suc.IH[OF d(2) this] d(1) show ?case by force
qed simp

definition mixer_ok :: "'d mixer \<Rightarrow> bool" where
  "mixer_ok x \<longleftrightarrow> resample_inv x \<and> val (mx_resampleCursor x) < 1"

lemma half_diff: "(a - k * 2) div 2 = a div 2 - k" for a k :: nat
  by presburger

lemma drop_consumed_ok:
  assumes "resample_inv x"
  shows "mixer_ok (drop_consumed m x)"
proof -
  let ?c = "mx_resampleCursor x"
  have inv: "cursor_ok ?c" "mixer_core x" "ipart ?c \<le> ahead x" "ahead x \<le> ipart ?c + 961"
    using assms by (auto simp: resample_inv_def)
  have i: "0 \<le> ipart ?c" using inv(1) by (simp add: cursor_ok_def)
  have len: "nat (ipart ?c) * 2 \<le> length (mx_mixed48k x)" using inv(3) i by (simp add: ahead_def)
  show ?thesis
  proof (cases "ipart ?c = 0")
    case True
    then have "drop_consumed m x = x" by (simp add: drop_consumed_def size_cast_cursor[OF inv(1)])
    moreover have "val ?c < 1" using True by linarith
    ultimately show ?thesis using assms by (simp add: mixer_ok_def)
  next
    case False
    let ?n = "nat (ipart ?c)"
    have d: "drop_consumed m x = x\<lparr>mx_mixed48k := drop (?n * 2) (mx_mixed48k x),
        mx_resampleCursor := sub64 ?c (index_fp ?n)\<rparr>"
    proof -
      have n: "0 < ?n" using False i by linarith
      show ?thesis unfolding drop_consumed_def size_cast_cursor[OF inv(1)] Let_def
        by (simp only: n len simp_thms if_True)
    qed
    have "even (length (drop (?n * 2) (mx_mixed48k x)))" using inv(2) len by (simp add: mixer_core_def)
    moreover have "\<forall>y \<in> set (drop (?n * 2) (mx_mixed48k x)). unit_sample y"
      using inv(2) by (auto simp: mixer_core_def dest: in_set_dropD)
    ultimately have "mixer_core (drop_consumed m x)" using inv(2) unfolding d by (simp add: mixer_core_def)
    moreover have "ahead (drop_consumed m x) = ahead x - ipart ?c"
    proof -
      have "length (drop (?n * 2) (mx_mixed48k x)) div 2 = length (mx_mixed48k x) div 2 - ?n"
        unfolding length_drop by (rule half_diff)
      moreover have "int ?n = ipart ?c" using i by simp
      moreover have "?n \<le> length (mx_mixed48k x) div 2" using len by linarith
      moreover have "mx_mixed48k (drop_consumed m x) = drop (?n * 2) (mx_mixed48k x)" unfolding d by simp
      ultimately show ?thesis unfolding ahead_def by (simp only: of_nat_diff)
    qed
    moreover have "val (sub64 ?c (index_fp ?n)) < 1" using cursor_consume(2)[OF inv(1)] by simp linarith
    ultimately show ?thesis
      using cursor_consume[OF inv(1)] inv(3,4) unfolding mixer_ok_def resample_inv_def d by simp
  qed
qed


text \<open>The device buffer: as many samples as frames times channels.\<close>

fun buffer_length :: "deviceBuffer \<Rightarrow> nat" where
  "buffer_length (FloatBuffer xs) = length xs"
| "buffer_length (PcmBuffer xs) = length xs"

lemma length_frames:
  "0 < c \<Longrightarrow> length (float_frame c fr) = c" "0 < c \<Longrightarrow> length (pcm_frame m c fr) = c"
  by (auto simp: float_frame_def pcm_frame_def)

lemma length_concat_const: "\<forall>x \<in> set xs. length (f x) = c \<Longrightarrow> length (concat (map f xs)) = length xs * c"
  by (induction xs) auto

text \<open>A format a device session accepts, at a rate of at least 32 kHz.\<close>

definition format_ok :: "waveFormat \<Rightarrow> bool" where
  "format_ok fmt \<longleftrightarrow> 32000 \<le> wf_samplesPerSec fmt \<and> wf_samplesPerSec fmt < 2 ^ 32 \<and> 0 < wf_channels fmt"

lemma format_step: "format_ok fmt \<Longrightarrow> step_ok (resample_step (wf_samplesPerSec fmt))"
  unfolding resample_step_def kInternalSampleRate_def format_ok_def by (intro rate_step) auto

lemma fill_buffer_ok:
  assumes "mixer_ok x" "format_ok fmt" "n < 2 ^ 32"
  shows "\<exists>buf x'. fill_buffer m dec fmt n x = Some (buf, x') \<and>
     buffer_length buf = n * wf_channels fmt \<and> mixer_ok x'"
proof -
  have inv: "resample_inv x" "val (mx_resampleCursor x) < 1" using assms(1) by (auto simp: mixer_ok_def)
  have "(of_nat n :: rat) < of_nat (2 ^ 32)" using assms(3) by (simp only: of_nat_less_iff)
  then have "val (mx_resampleCursor x) + 5 / 2 * of_nat n < 2 ^ 49" using inv(2) by simp
  from device_frames_ok[OF inv(1) format_step[OF assms(2)] this, of m dec] obtain frs x' where
    f: "device_frames m dec (resample_step (wf_samplesPerSec fmt)) n x = Some (frs, x')" "length frs = n"
      "resample_inv x'" by blast
  have "0 < wf_channels fmt" using assms(2) by (simp add: format_ok_def)
  then have "length (concat (map (float_frame (wf_channels fmt)) frs)) = n * wf_channels fmt"
    "length (concat (map (pcm_frame m (wf_channels fmt)) frs)) = n * wf_channels fmt"
    using f(2) length_concat_const[of frs "float_frame (wf_channels fmt)" "wf_channels fmt"]
      length_concat_const[of frs "pcm_frame m (wf_channels fmt)" "wf_channels fmt"] length_frames by auto
  then show ?thesis
    using f drop_consumed_ok[OF f(3), of m] by (simp add: fill_buffer_def del: length_concat)
qed

section \<open>Every sequence of calls\<close>

datatype mixer_op =
    MAdd "32 word" string
  | MStates "32 word" "srcState list"
  | MEnqueue "32 word" "byte list" bool
  | MRemove "32 word"
  | MRemoveAll
  | MRemoteBeep "32 word" string bool
  | MLocalBeep string bool
  | MVolume fp
  | MMute bool
  | MForce bool
  | MDevice waveFormat nat
  | MNextDevice bool "32 word"

fun run_mixer :: "libm \<Rightarrow> 'd opus_decode \<Rightarrow> (string \<Rightarrow> pcm) \<Rightarrow> mixer_op list \<Rightarrow> 'd mixer \<Rightarrow>
    (deviceBuffer list \<times> 'd mixer) option" where
  "run_mixer m dec assets [] x = Some ([], x)"
| "run_mixer m dec assets (MDevice fmt n # ops) x =
     Option.bind (fill_buffer m dec fmt n x) (\<lambda>(b, x).
       Option.bind (run_mixer m dec assets ops x) (\<lambda>(bs, x). Some (b # bs, x)))"
| "run_mixer m dec assets (MNextDevice r c # ops) x = run_mixer m dec assets ops (snd (after_session r c x))"
| "run_mixer m dec assets (MAdd sid uid # ops) x = run_mixer m dec assets ops (addSource sid uid x)"
| "run_mixer m dec assets (MStates sid sts # ops) x = run_mixer m dec assets ops (setSourceStates sid sts x)"
| "run_mixer m dec assets (MEnqueue sid opus l # ops) x = run_mixer m dec assets ops (mixer_enqueue sid opus l x)"
| "run_mixer m dec assets (MRemove sid # ops) x = run_mixer m dec assets ops (removeSource sid x)"
| "run_mixer m dec assets (MRemoveAll # ops) x = run_mixer m dec assets ops (removeAllSources x)"
| "run_mixer m dec assets (MRemoteBeep sid st b # ops) x = run_mixer m dec assets ops (triggerRemoteBeep assets sid st b x)"
| "run_mixer m dec assets (MLocalBeep st b # ops) x = run_mixer m dec assets ops (triggerLocalBeep assets st b x)"
| "run_mixer m dec assets (MVolume v # ops) x = run_mixer m dec assets ops (setMasterVolume v x)"
| "run_mixer m dec assets (MMute b # ops) x = run_mixer m dec assets ops (setMuted b x)"
| "run_mixer m dec assets (MForce b # ops) x = run_mixer m dec assets ops (setDebugForceAudible b x)"

fun op_ok :: "mixer_op \<Rightarrow> bool" where
  "op_ok (MDevice fmt n) = (format_ok fmt \<and> n < 2 ^ 32)"
| "op_ok _ = True"

fun fill_sizes :: "mixer_op list \<Rightarrow> nat list" where
  "fill_sizes [] = []"
| "fill_sizes (MDevice fmt n # ops) = n * wf_channels fmt # fill_sizes ops"
| "fill_sizes (_ # ops) = fill_sizes ops"

text \<open>Only the sources matter for the invariant.\<close>

lemma mixer_ok_sources:
  assumes "mixer_ok x" "mx_mixed48k x' = mx_mixed48k x" "mx_resampleCursor x' = mx_resampleCursor x"
    "uwf (mx_sources x')" "\<forall>(k, s) \<in> set (mx_sources x'). source_ok s"
  shows "mixer_ok x'"
  using assms by (simp add: mixer_ok_def resample_inv_def mixer_core_def ahead_def)

lemma mixer_ok_wf: "mixer_ok x \<Longrightarrow> uwf (mx_sources x) \<and> (\<forall>(k, s) \<in> set (mx_sources x). source_ok s)"
  by (simp add: mixer_ok_def resample_inv_def mixer_core_def)

lemma mixer_ok_source: "mixer_ok x \<Longrightarrow> (k, s) \<in> set (mx_sources x) \<Longrightarrow> source_ok s"
  using mixer_ok_wf[of x] by auto

lemma mixer_ok_put:
  assumes "mixer_ok x" "source_ok s"
  shows "mixer_ok (x\<lparr>mx_sources := uput sid s (mx_sources x), mx_spawned := k\<rparr>)"
    "mixer_ok (x\<lparr>mx_sources := uput sid s (mx_sources x)\<rparr>)"
  using mixer_ok_wf[OF assms(1)] assms(2) mixer_ok_source[OF assms(1)]
  by (auto simp: set_uput intro!: mixer_ok_sources[OF assms(1)])

lemma mixer_ok_on_source [step_inv]:
  assumes "mixer_ok x" "\<And>s. source_ok s \<Longrightarrow> source_ok (f s)"
  shows "mixer_ok (on_source sid f x)"
  using assms mixer_ok_source[OF assms(1) uget_Some_in] mixer_ok_put(2)[OF assms(1)]
  by (auto simp: on_source_def split: option.split)

lemma mixer_ok_addSource [step_inv]: "mixer_ok x \<Longrightarrow> mixer_ok (addSource sid uid x)"
  by (auto simp: addSource_def Let_def case_prod_unfold intro: mixer_ok_put step_inv)

lemma mixer_ok_simple [step_inv]:
  "mixer_ok x \<Longrightarrow> mixer_ok (removeSource sid x)" "mixer_ok x \<Longrightarrow> mixer_ok (removeAllSources x)"
  "mixer_ok x \<Longrightarrow> mixer_ok (triggerLocalBeep assets st b x)" "mixer_ok x \<Longrightarrow> mixer_ok (setMasterVolume v x)"
  "mixer_ok x \<Longrightarrow> mixer_ok (setMuted b x)" "mixer_ok x \<Longrightarrow> mixer_ok (setDebugForceAudible b x)"
  using mixer_ok_wf[of x]
  by (auto simp: removeSource_def removeAllSources_def triggerLocalBeep_def setMasterVolume_def setMuted_def
      setDebugForceAudible_def set_udel split: option.split intro!: mixer_ok_sources[of x])

lemma mixer_ok_keyed [step_inv]:
  "mixer_ok x \<Longrightarrow> mixer_ok (setSourceStates sid sts x)" "mixer_ok x \<Longrightarrow> mixer_ok (mixer_enqueue sid opus l x)"
  "mixer_ok x \<Longrightarrow> mixer_ok (triggerRemoteBeep assets sid st b x)"
  by (auto simp: setSourceStates_def mixer_enqueue_def triggerRemoteBeep_def split: option.split intro!: step_inv)

lemma mixer_ok_next [step_inv]: "mixer_ok x \<Longrightarrow> mixer_ok (snd (after_session r c x))"
  by (simp add: after_session_def mixer_ok_def resample_inv_def mixer_core_def ahead_def)

lemma mixer_ok_new [step_inv]: "mixer_ok (new_mixer spawn)"
  by (simp add: new_mixer_def mixer_ok_def resample_inv_def mixer_core_def ahead_def)

lemma run_mixer_ok:
  "mixer_ok x \<Longrightarrow> list_all op_ok ops \<Longrightarrow> \<exists>bufs x'. run_mixer m dec assets ops x = Some (bufs, x') \<and>
     mixer_ok x' \<and> map buffer_length bufs = fill_sizes ops"
proof (induction m dec assets ops x rule: run_mixer.induct)
  case (2 m dec assets fmt n ops x)
  from 2(3) have "format_ok fmt" "n < 2 ^ 32" "list_all op_ok ops" by simp_all
  from fill_buffer_ok[OF 2(2) this(1,2), of m dec] obtain b x' where
    r: "fill_buffer m dec fmt n x = Some (b, x')" "buffer_length b = n * wf_channels fmt" "mixer_ok x'" by blast
  from 2(1)[OF r(1) refl r(3) \<open>list_all op_ok ops\<close>] r show ?case by force
qed (auto intro: step_inv)


text \<open>C25. However sources come and go, states and packets arrive, beeps are triggered, volumes change and
  devices are reopened: every device buffer is filled with exactly the samples it has room for (the
  render thread never loops forever), and afterwards at most 961 mixed stereo frames, all in [-1, 1] or
  NaN, are kept ahead. (Device rates from 32 kHz.)\<close>

theorem mixer_run_safe:
  assumes "list_all op_ok ops"
  shows "\<exists>bufs x. run_mixer m dec assets ops (new_mixer spawn) = Some (bufs, x) \<and>
     map buffer_length bufs = fill_sizes ops \<and>
     length (mx_mixed48k x) \<le> 2 * 961 \<and> list_all unit_sample (mx_mixed48k x)"
proof -
  from run_mixer_ok[OF mixer_ok_new assms, of m dec assets spawn] obtain bufs x where
    r: "run_mixer m dec assets ops (new_mixer spawn) = Some (bufs, x)" "mixer_ok x"
      "map buffer_length bufs = fill_sizes ops" by blast
  then have "ahead x \<le> ipart (mx_resampleCursor x) + 961" "val (mx_resampleCursor x) < 1"
    "even (length (mx_mixed48k x))" "list_all unit_sample (mx_mixed48k x)"
    by (auto simp: mixer_ok_def resample_inv_def mixer_core_def list_all_iff)
  moreover from this(2) have "ipart (mx_resampleCursor x) \<le> 0" by linarith
  ultimately have "int (length (mx_mixed48k x) div 2) \<le> 961" unfolding ahead_def by linarith
  with \<open>even (length (mx_mixed48k x))\<close> have "length (mx_mixed48k x) \<le> 2 * 961" by (elim evenE) simp
  with r \<open>list_all unit_sample (mx_mixed48k x)\<close> show ?thesis by blast
qed

definition stereo_48k :: waveFormat where
  "stereo_48k = \<lparr>wf_samplesPerSec = 48000, wf_channels = 2, wf_bitsPerSample = 32, wf_isFloat = True\<rparr>"

lemma mixer_run_safe_witness:
  "\<exists>bufs x. run_mixer flat_libm flat_decoder (\<lambda>_. []) [MAdd 7 ''a'', MStates 7 [plain_path],
       MEnqueue 7 [1] True, MDevice stereo_48k 480, MRemove 7, MDevice stereo_48k 960]
       (new_mixer (\<lambda>_. (Some (), \<lambda>_ _. Fin 0))) = Some (bufs, x) \<and>
     map buffer_length bufs = [960, 1920] \<and> length (mx_mixed48k x) \<le> 2 * 961"
proof -
  let ?ops = "[MAdd 7 ''a'', MStates 7 [plain_path], MEnqueue 7 [1] True, MDevice stereo_48k 480,
    MRemove 7, MDevice stereo_48k 960]"
  have "list_all op_ok ?ops" by (simp add: format_ok_def stereo_48k_def)
  moreover have "fill_sizes ?ops = [960, 1920]" by (simp add: stereo_48k_def)
  ultimately obtain bufs x where "run_mixer flat_libm flat_decoder (\<lambda>_. []) ?ops
      (new_mixer (\<lambda>_. (Some (), \<lambda>_ _. Fin 0))) = Some (bufs, x)"
    "map buffer_length bufs = [960, 1920]" "length (mx_mixed48k x) \<le> 2 * 961"
    using mixer_run_safe[of ?ops flat_libm flat_decoder "\<lambda>_. []" "\<lambda>_. (Some (), \<lambda>_ _. Fin 0)"] by metis
  then show ?thesis by (intro exI[of _ bufs] exI[of _ x] conjI)
qed

text \<open>Every index the interpolation of a device frame reads lies inside the mixed samples, because the
  top-up loop ends with enough of them; muting makes the chunks it adds exactly silent.\<close>

theorem interpolation_in_bounds:
  assumes "mixer_core x" "cursor_ok (mx_resampleCursor x)"
  shows "\<exists>x'. top_up m dec x = Some x' \<and> mx_resampleCursor x' = mx_resampleCursor x \<and>
     size_cast m (mx_resampleCursor x') * 2 + 3 < length (mx_mixed48k x')"
proof -
  from top_up_ok[OF assms, of m dec] obtain x' where
    t: "top_up m dec x = Some x'" "mixer_core x'" "mx_resampleCursor x' = mx_resampleCursor x"
      "ipart (mx_resampleCursor x) + 2 \<le> ahead x'" by blast
  have i: "0 \<le> ipart (mx_resampleCursor x)" using assms(2) by (simp add: cursor_ok_def)
  have "even (length (mx_mixed48k x'))" using t(2) by (simp add: mixer_core_def)
  then obtain k where k: "length (mx_mixed48k x') = 2 * k" by blast
  have "size_cast m (mx_resampleCursor x') * 2 + 3 < length (mx_mixed48k x')"
    using t(4) i unfolding t(3) size_cast_cursor[OF assms(2)] ahead_def k by simp linarith
  with t(1,3) show ?thesis by blast
qed

lemma interpolation_in_bounds_witness:
  "\<exists>x'. top_up flat_libm flat_decoder (new_mixer (\<lambda>_. (Some (), \<lambda>_ _. Fin 0))) = Some x' \<and>
     size_cast flat_libm (mx_resampleCursor x') * 2 + 3 < length (mx_mixed48k x')"
proof -
  have "mixer_core (new_mixer (\<lambda>_. (Some (), \<lambda>_ _. Fin 0)))"
    "cursor_ok (mx_resampleCursor (new_mixer (\<lambda>_. (Some (), \<lambda>_ _. Fin 0))))"
    by (simp_all add: new_mixer_def mixer_core_def)
  from interpolation_in_bounds[OF this, of flat_libm flat_decoder] show ?thesis by blast
qed

text \<open>A chunk is 960 stereo frames, each sample in [-1, 1] or NaN, and exactly silent while muted;
  everything mixed before stays as it was.\<close>

theorem chunk_in_range:
  assumes "mixer_ok x"
  shows "\<exists>x' chunk. generateChunk m dec x = Some x' \<and> mx_mixed48k x' = mx_mixed48k x @ chunk \<and>
     length chunk = 1920 \<and> list_all unit_sample chunk \<and> (mx_muted x \<longrightarrow> chunk = replicate 1920 (Fin 0))"
proof -
  from assms have "mixer_core x" by (simp add: mixer_ok_def resample_inv_def)
  from generateChunk_ok[OF this, of m dec] show ?thesis by blast
qed

lemma chunk_in_range_witness:
  "\<exists>x'. generateChunk flat_libm flat_decoder (setMuted True (new_mixer (\<lambda>_. (Some (), \<lambda>_ _. Fin 0)))) = Some x' \<and>
     mx_mixed48k x' = replicate 1920 (Fin 0)"
  using chunk_in_range[OF mixer_ok_simple(5)[OF mixer_ok_new], of flat_libm flat_decoder True "\<lambda>_. (Some (), \<lambda>_ _. Fin 0)"]
  by (auto simp: setMuted_def new_mixer_def)

section \<open>Silence\<close>

lemma fin_of_zero [simp]: "fin_of f s 0 = (if s then NZero else Fin 0)"
  using pow2_pos[of "exp_max f + 1"] by (simp add: fin_of_def not_le)

lemma limit_zero:
  assumes "is_fin v"
  shows "limit_sample v muted (Fin 0) \<in> {Fin 0, NZero}"
proof -
  have z: "mul32 (Fin 0) v \<in> {Fin 0, NZero}"
    using assms op_fin(3)[of "Fin 0" v f32] by simp
  have one: "is_fin (add32 (Fin 1) (Fin 0))" "val (add32 (Fin 1) (Fin 0)) = 1"
    using fin_of_exact[of f32 1] representable_int[of 1 f32] op_fin(1)[of "Fin 1" "Fin 0" f32]
    by (simp_all add: f32_def pow2_def)
  have f: "fabs (mul32 (Fin 0) v) = Fin 0" using z by (auto simp: fabs_def fneg_def)
  have q: "div32 (mul32 (Fin 0) v) (add32 (Fin 1) (Fin 0)) \<in> {Fin 0, NZero}"
    using z op_fin(4)[of "mul32 (Fin 0) v" "add32 (Fin 1) (Fin 0)" f32] one by (auto split: if_splits)
  show ?thesis using q by (simp add: limit_sample_def Let_def f)
qed

lemma peak_zero: "\<forall>y \<in> set xs. y \<in> {Fin 0, NZero} \<Longrightarrow> peak_of xs = Fin 0"
proof -
  assume a: "\<forall>y \<in> set xs. y \<in> {Fin 0, NZero}"
  have "fold (\<lambda>s peak. if flt peak (fabs s) then fabs s else peak) xs (Fin 0) = Fin 0"
    using a by (induction xs) (auto simp: fabs_def fneg_def)
  then show ?thesis by (simp add: peak_of_def)
qed

text \<open>With nobody to hear and no cue playing, a chunk is digital silence at every finite volume, and the
  phantom-audio diagnostic is never triggered.\<close>

theorem empty_mix_silent:
  assumes "mx_sources x = []" "mx_localBeepTotal x \<le> mx_localBeepPos x" "is_fin (mx_masterVolume x)"
  shows "\<exists>x' chunk. generateChunk m dec x = Some x' \<and> mx_mixed48k x' = mx_mixed48k x @ chunk \<and>
     length chunk = 1920 \<and> list_all (\<lambda>y. feq y (Fin 0)) chunk \<and>
     mx_phantomAudioLogCounter x' = (if mx_muted x then 0 else mx_phantomAudioLogCounter x)"
proof -
  let ?z = "limit_sample (mx_masterVolume x) (mx_muted x) (Fin 0)"
  let ?chunk = "replicate 1920 ?z"
  have z: "?z \<in> {Fin 0, NZero}" using limit_zero[OF assms(3)] .
  have same: "x\<lparr>mx_sources := []\<rparr> = x" using assms(1) by (cases x) simp
  have peak: "peak_of (replicate 1920 (limit_sample (mx_masterVolume x) b (Fin 0))) = Fin 0" for b
    by (rule peak_zero) (use limit_zero[OF assms(3)] in simp)
  have quiet: "\<not> flt (lit32 (1 / 1000)) (Fin 0)" by (simp add: lit_milli)
  have ph: "phantom_check ?chunk x = (if mx_muted x then x\<lparr>mx_phantomAudioLogCounter := 0\<rparr> else x)"
    using assms(1,2) peak quiet by (simp add: phantom_check_def)
  have g: "generateChunk m dec x = Some ((if mx_muted x then x\<lparr>mx_phantomAudioLogCounter := 0\<rparr> else x)
      \<lparr>mx_mixed48k := mx_mixed48k x @ ?chunk\<rparr>)"
    unfolding generateChunk_def assms(1) using assms(2) ph
    by (simp add: mix_local_beep_def Let_def same kChunkFrames_def kFrameSamples_def)
  have "list_all (\<lambda>y. feq y (Fin 0)) ?chunk" using z by (auto simp: list_all_iff)
  with g show ?thesis by auto
qed

lemma empty_mix_silent_witness:
  "\<exists>x' chunk. generateChunk flat_libm flat_decoder (new_mixer (\<lambda>_. (Some (), \<lambda>_ _. Fin 0))) = Some x' \<and>
     mx_mixed48k x' = chunk \<and> length chunk = 1920 \<and> list_all (\<lambda>y. feq y (Fin 0)) chunk"
  using empty_mix_silent[of "new_mixer (\<lambda>_. (Some (), \<lambda>_ _. Fin 0))" flat_libm flat_decoder]
  by (auto simp: new_mixer_def)

text \<open>What the diagnostic does in the chunk in which a local cue ends: the cue counts as over although the chunk
  still carries it, so with no remote source it is reported as phantom audio whenever it is loud enough.\<close>

lemma phantom_counts_end_of_cue:
  assumes "mx_sources x = []" "\<not> mx_muted x" "mx_localBeepPos x < mx_localBeepTotal x"
    "mx_localBeepTotal x \<le> mx_localBeepPos x + 960"
  shows "\<exists>x' chunk. generateChunk m dec x = Some x' \<and> mx_mixed48k x' = mx_mixed48k x @ chunk \<and>
     mx_phantomAudioLogCounter x' = (if flt (lit32 (1 / 1000)) (peak_of chunk)
       then mx_phantomAudioLogCounter x + 1 else mx_phantomAudioLogCounter x)"
proof -
  have "mx_localBeepTotal x - mx_localBeepPos x \<le> 960" using assms(4) by simp
  then show ?thesis using assms(1-3)
    by (simp add: generateChunk_def mix_local_beep_def phantom_check_def Let_def kChunkFrames_def kFrameSamples_def)
qed

end
