(* ===== verification/Transmit.thy ===== *)
theory Transmit
  imports OpusCodec ExtState
begin

text \<open>
  The transmit path of \<open>src/Voice/TransmitController.cpp\<close>: noise suppression, level measurement, AGC,
  the transmit gate and the framing of talkspurts, one captured frame per step. The atomics that other
  threads set are read once per frame in the model.
\<close>

datatype transmitMode = PushToTalk | VoiceActivation | AlwaysOn

record ('e, 'n) transmit =
  tr_mode :: transmitMode
  tr_pttHeld :: bool
  tr_micMuted :: bool
  tr_hasAddonOverride :: bool
  tr_addonOverrideValue :: bool
  tr_vadThreshold :: fp
  tr_micVolume :: fp
  tr_noiseSuppressionEnabled :: bool
  tr_currentLevel :: fp
  tr_isTransmitting :: bool
  tr_autoGain :: fp
  tr_vadHangoverUntil :: time
  tr_wasTransmitting :: bool
  tr_silentFrameCount :: int
  tr_encoder :: "'e option"
  tr_noiseSuppressor :: "'n option"
  tr_lastLoggedGateState :: string

definition new_transmit :: "'e option \<Rightarrow> 'n option \<Rightarrow> ('e, 'n) transmit" where
  "new_transmit encoder suppressor =
     \<lparr>tr_mode = VoiceActivation, tr_pttHeld = False, tr_micMuted = False, tr_hasAddonOverride = False,
      tr_addonOverrideValue = False, tr_vadThreshold = lit32 (5 / 1000), tr_micVolume = Fin 1,
      tr_noiseSuppressionEnabled = True, tr_currentLevel = Fin 0, tr_isTransmitting = False,
      tr_autoGain = Fin 1, tr_vadHangoverUntil = 0, tr_wasTransmitting = False, tr_silentFrameCount = 0,
      tr_encoder = encoder, tr_noiseSuppressor = suppressor, tr_lastLoggedGateState = []\<rparr>"

definition kAgcTargetRms :: fp where "kAgcTargetRms = lit32 (8 / 100)"
definition kAgcMinGain :: fp where "kAgcMinGain = Fin 1"
definition kAgcMaxGain :: fp where "kAgcMaxGain = Fin 12"
definition kAgcAttackRate :: fp where "kAgcAttackRate = lit32 (4 / 10)"
definition kAgcReleaseRate :: fp where "kAgcReleaseRate = lit32 (5 / 100)"
definition kVadHangover :: time where "kVadHangover = ms 300"

definition modeToString :: "transmitMode \<Rightarrow> string" where
  "modeToString mode = (case mode of PushToTalk \<Rightarrow> ''PTT'' | VoiceActivation \<Rightarrow> ''VAD'' | AlwaysOn \<Rightarrow> ''AlwaysOn'')"

section \<open>Setters\<close>

definition setMode :: "transmitMode \<Rightarrow> ('e, 'n) transmit \<Rightarrow> ('e, 'n) transmit" where
  "setMode mode t = t\<lparr>tr_mode := mode\<rparr>"

definition transmit_setPttHeld :: "bool \<Rightarrow> ('e, 'n) transmit \<Rightarrow> ('e, 'n) transmit" where
  "transmit_setPttHeld held t = t\<lparr>tr_pttHeld := held\<rparr>"

definition setMicMuted :: "bool \<Rightarrow> ('e, 'n) transmit \<Rightarrow> ('e, 'n) transmit" where
  "setMicMuted muted t = t\<lparr>tr_micMuted := muted\<rparr>"

definition setVadThreshold :: "fp \<Rightarrow> ('e, 'n) transmit \<Rightarrow> ('e, 'n) transmit" where
  "setVadThreshold threshold t = t\<lparr>tr_vadThreshold := threshold\<rparr>"

definition setMicVolume :: "fp \<Rightarrow> ('e, 'n) transmit \<Rightarrow> ('e, 'n) transmit" where
  "setMicVolume volume t = t\<lparr>tr_micVolume := volume\<rparr>"

definition setNoiseSuppressionEnabled :: "bool \<Rightarrow> ('e, 'n) transmit \<Rightarrow> ('e, 'n) transmit" where
  "setNoiseSuppressionEnabled enabled t = t\<lparr>tr_noiseSuppressionEnabled := enabled\<rparr>"

definition setAddonOverride :: "bool \<Rightarrow> bool \<Rightarrow> ('e, 'n) transmit \<Rightarrow> ('e, 'n) transmit" where
  "setAddonOverride hasOverride overrideValue t =
     t\<lparr>tr_hasAddonOverride := hasOverride, tr_addonOverrideValue := overrideValue\<rparr>"

section \<open>The gate\<close>

definition evaluateVoiceActivation :: "fp \<Rightarrow> time \<Rightarrow> ('e, 'n) transmit \<Rightarrow> bool \<times> ('e, 'n) transmit" where
  "evaluateVoiceActivation level now t =
     (if fle (tr_vadThreshold t) level then (True, t\<lparr>tr_vadHangoverUntil := now + kVadHangover\<rparr>)
      else (now < tr_vadHangoverUntil t, t))"

definition determineShouldTransmit :: "fp \<Rightarrow> time \<Rightarrow> ('e, 'n) transmit \<Rightarrow> bool \<times> ('e, 'n) transmit" where
  "determineShouldTransmit level now t =
     (if tr_hasAddonOverride t then (tr_addonOverrideValue t, t)
      else if tr_micMuted t then (False, t)
      else (case tr_mode t of
              AlwaysOn \<Rightarrow> (True, t)
            | PushToTalk \<Rightarrow> (tr_pttHeld t, t)
            | VoiceActivation \<Rightarrow> evaluateVoiceActivation level now t))"

section \<open>Levels\<close>

definition sum_squares :: "fp list \<Rightarrow> fp" where
  "sum_squares xs = fold (\<lambda>x s. add64 s (mul64 (to64 x) (to64 x))) xs (Fin 0)"

definition frame_rms :: "fp list \<Rightarrow> fp" where
  "frame_rms xs = to32 (fsqrt f64 (div64 (sum_squares xs) (of_int_fp f64 (int kFrameSamples))))"

definition agc_step :: "fp \<Rightarrow> bool \<Rightarrow> fp \<Rightarrow> fp" where
  "agc_step rawRms levelIsVoiceLike autoGain =
     (if fle (lit32 (1 / 10000)) rawRms then
        let desired = clampf (div32 kAgcTargetRms rawRms) kAgcMinGain kAgcMaxGain
        in if flt desired autoGain
           then add32 autoGain (mul32 (sub32 desired autoGain) kAgcAttackRate)
           else if levelIsVoiceLike
           then add32 autoGain (mul32 (sub32 desired autoGain) kAgcReleaseRate)
           else autoGain
      else autoGain)"

definition gained_sample :: "fp \<Rightarrow> fp \<Rightarrow> fp" where
  "gained_sample totalGain x = clampf (mul32 x totalGain) (Fin (- 1)) (Fin 1)"

definition pcm_of_sample :: "libm \<Rightarrow> fp \<Rightarrow> 16 word" where
  "pcm_of_sample m sample = int16_cast m (clampf (mul32 sample (Fin 32767)) (Fin (- 32768)) (Fin 32767))"

definition gate_key :: "bool \<Rightarrow> ('e, 'n) transmit \<Rightarrow> string" where
  "gate_key shouldTransmit t =
     ''mode='' @ modeToString (tr_mode t) @
     '' pttHeld='' @ (if tr_pttHeld t then ''1'' else ''0'') @
     '' micMuted='' @ (if tr_micMuted t then ''1'' else ''0'') @
     '' override='' @ (if tr_hasAddonOverride t then (if tr_addonOverrideValue t then ''true'' else ''false'') else ''none'') @
     '' -> shouldTransmit='' @ (if shouldTransmit then ''1'' else ''0'')"

section \<open>One captured frame\<close>

text \<open>A frame handed to the send callback, with its end-of-talkspurt flag.\<close>

type_synonym voiceSend = "byte list \<times> bool"

definition send_frame :: "'e opus_encode \<Rightarrow> pcm \<Rightarrow> bool \<Rightarrow> ('e, 'n) transmit \<Rightarrow> voiceSend list \<times> ('e, 'n) transmit" where
  "send_frame enc pcm isLast t =
     (case encode enc pcm kMaxOpusFrameLength (tr_encoder t) of
        (opus, e) \<Rightarrow> (if opus \<noteq> [] then [(opus, isLast)] else [], t\<lparr>tr_encoder := e\<rparr>))"

text \<open>What is sent for a frame: the frame itself, one frame of silence flagged as last on the transition to
  silence, or nothing.\<close>

definition talkspurt_step :: "'e opus_encode \<Rightarrow> pcm \<Rightarrow> bool \<Rightarrow> ('e, 'n) transmit \<Rightarrow> voiceSend list \<times> ('e, 'n) transmit" where
  "talkspurt_step enc pcm shouldTransmit t =
     (if shouldTransmit then
        (case send_frame enc pcm False t of (os, t) \<Rightarrow> (os, t\<lparr>tr_wasTransmitting := True\<rparr>))
      else if tr_wasTransmitting t then
        (case send_frame enc silence_pcm True t of (os, t) \<Rightarrow> (os, t\<lparr>tr_wasTransmitting := False\<rparr>))
      else ([], t))"

text \<open>Noise suppression, levels, AGC and conversion: the PCM to encode and the level the gate compares.\<close>

definition level_step :: "libm \<Rightarrow> 'n rnnoise \<Rightarrow> fp list \<Rightarrow> ('e, 'n) transmit \<Rightarrow> pcm \<times> fp \<times> ('e, 'n) transmit" where
  "level_step m rn rawMono960 t =
     (case (if tr_noiseSuppressionEnabled t then denoise rn rawMono960 (tr_noiseSuppressor t)
            else (rawMono960, tr_noiseSuppressor t)) of
        (mono960, suppressor) \<Rightarrow>
          let rawRms = frame_rms mono960;
              micVolume = tr_micVolume t;
              vadLevel = mul32 rawRms micVolume;
              levelIsVoiceLike = fle (tr_vadThreshold t) vadLevel;
              autoGain = agc_step rawRms levelIsVoiceLike (tr_autoGain t);
              totalGain = mul32 micVolume autoGain;
              gained = map (gained_sample totalGain) mono960;
              gainedRms = frame_rms gained;
              silentFrames = (if flt gainedRms (lit32 (1 / 10000))
                then (if tr_silentFrameCount t < 1000000 then tr_silentFrameCount t + 1 else tr_silentFrameCount t)
                else 0)
          in (map (pcm_of_sample m) gained, vadLevel,
              t\<lparr>tr_noiseSuppressor := suppressor, tr_autoGain := autoGain, tr_currentLevel := gainedRms,
                tr_silentFrameCount := silentFrames\<rparr>))"

definition onFrameCaptured :: "libm \<Rightarrow> 'e opus_encode \<Rightarrow> 'n rnnoise \<Rightarrow> time \<Rightarrow> fp list \<Rightarrow>
    ('e, 'n) transmit \<Rightarrow> voiceSend list \<times> ('e, 'n) transmit" where
  "onFrameCaptured m enc rn now rawMono960 t =
     (case level_step m rn rawMono960 t of (pcm, vadLevel, t) \<Rightarrow>
        case determineShouldTransmit vadLevel now t of (shouldTransmit, t) \<Rightarrow>
          talkspurt_step enc pcm shouldTransmit
            (t\<lparr>tr_isTransmitting := shouldTransmit, tr_lastLoggedGateState := gate_key shouldTransmit t\<rparr>))"

end
