(* ===== verification/TransmitProps.thy ===== *)
theory TransmitProps
  imports Transmit
begin

text \<open>
  Properties of the transmit path: the framing of talkspurts, the gate, voice activation with its
  hangover, and the bounds of the automatic gain.
\<close>

section \<open>Rounding errors\<close>

lemma rne_error: "\<bar>of_int (rne x) - x\<bar> \<le> 1 / 2"
proof -
  have "of_int \<lfloor>x\<rfloor> \<le> x" "x < of_int \<lfloor>x\<rfloor> + 1" by linarith+
  then show ?thesis by (auto simp: rne_def Let_def abs_le_iff)
qed

lemma rndq_error: "0 < x \<Longrightarrow> rndq f x \<le> x + ulp f x / 2"
proof -
  assume x: "0 < x"
  have "of_int (rne (x / ulp f x)) \<le> x / ulp f x + 1 / 2"
    using rne_error[of "x / ulp f x"] unfolding abs_le_iff by linarith
  then have "of_int (rne (x / ulp f x)) * ulp f x \<le> (x / ulp f x + 1 / 2) * ulp f x"
    by (rule mult_right_mono) (simp add: less_imp_le)
  then show ?thesis using x ulp_pos[of f x] by (simp add: rndq_def algebra_simps)
qed

text \<open>Rounding to binary32 enlarges a positive number by at most a tenth, above the subnormal range.\<close>

lemma rnd32_tenth:
  assumes "0 \<le> x"
  shows "rndq f32 x \<le> 11 / 10 * x + pow2 (- 149)"
proof (cases "x = 0")
  case False
  with assms have x: "0 < x" by simp
  have "ulp f32 x \<le> max (pow2 (- 149)) (pow2 (lg2 x - 23))" by (simp add: ulp_def f32_def max_def)
  moreover have "pow2 (lg2 x - 23) \<le> x / 8388608"
  proof -
    have "pow2 (lg2 x - 23) = pow2 (lg2 x) * pow2 (- 23)" by (simp flip: pow2_add)
    also have "\<dots> \<le> x * pow2 (- 23)" using lg2_bounds(1)[OF x] by (intro mult_right_mono) (simp_all add: less_imp_le)
    also have "x * pow2 (- 23) = x / 8388608" by (simp add: pow2_def)
    finally show ?thesis .
  qed
  moreover have "x / 8388608 \<le> x / 10" using x by (simp add: field_simps)
  ultimately have "ulp f32 x \<le> x / 10 \<or> ulp f32 x \<le> pow2 (- 149)" by (auto simp: max_def split: if_splits)
  then have u: "ulp f32 x \<le> x / 10 + pow2 (- 149)"
  proof (elim disjE)
    assume "ulp f32 x \<le> x / 10"
    then show ?thesis using pow2_pos[of "- 149", THEN less_imp_le] by (rule order_trans[OF _ le_add_same_cancel1[THEN iffD2]])
  next
    assume "ulp f32 x \<le> pow2 (- 149)"
    moreover have "0 \<le> x / 10" using x by simp
    ultimately show ?thesis by (rule order_trans[OF _ le_add_same_cancel2[THEN iffD2]])
  qed
  have "rndq f32 x \<le> x + ulp f32 x / 2" by (rule rndq_error[OF x])
  also have "\<dots> \<le> x + ulp f32 x" using ulp_pos[of f32 x] by simp
  also have "\<dots> \<le> x + (x / 10 + pow2 (- 149))" using u by (rule add_left_mono)
  also have "\<dots> = 11 / 10 * x + pow2 (- 149)" by simp
  finally show ?thesis .
qed (simp add: less_imp_le)

text \<open>Representable numbers from 1 on are multiples of \<open>2\<^sup>-\<^sup>2\<^sup>3\<close>, so two different ones are that far apart.\<close>

lemma rep32_grid:
  assumes "representable f32 x" "1 \<le> x"
  shows "\<exists>n. x = of_int n * pow2 (- 23)"
proof -
  let ?e = "max (lsb_min f32) (lg2 x - int (prec f32) + 1)"
  have "lg2 1 \<le> lg2 x" using assms(2) by (intro lg2_mono) auto
  then have e: "- 23 \<le> ?e" using lg2_unique[of 0 1] by (simp add: pow2_def f32_def)
  have "x = of_int (rne (x / ulp f32 x)) * pow2 ?e"
    using assms by (simp add: representable_def rndq_def ulp_def)
  also have "pow2 ?e = of_int (2 ^ nat (?e - - 23)) * pow2 (- 23)" using e by (rule pow2_split)
  finally have "x = of_int (rne (x / ulp f32 x) * 2 ^ nat (?e - - 23)) * pow2 (- 23)" by simp
  then show ?thesis by blast
qed

lemma rep32_apart:
  assumes "representable f32 x" "representable f32 y" "1 \<le> x" "x < y"
  shows "pow2 (- 23) \<le> y - x"
proof -
  from rep32_grid[OF assms(1,3)] rep32_grid[OF assms(2)] assms(3,4) obtain n k where
    n: "x = of_int n * pow2 (- 23)" and k: "y = of_int k * pow2 (- 23)" by force
  from assms(4) have "n < k" unfolding n k using pow2_pos[of "- 23"] by (simp add: mult_less_cancel_right not_le[symmetric])
  then have "(1::rat) \<le> of_int (k - n)" by simp
  then have "1 * pow2 (- 23) \<le> of_int (k - n) * pow2 (- 23)" by (intro mult_right_mono) (simp_all add: less_imp_le)
  then show ?thesis by (simp add: n k algebra_simps)
qed

lemma agc_move:
  assumes "representable f32 x" "representable f32 y" "1 \<le> x" "x \<le> y" "0 \<le> r" "r \<le> 41 / 100"
  shows "rndq f32 (r * rndq f32 (y - x)) \<le> y - x"
proof (cases "x = y")
  case False
  define d where "d = y - x"
  have d: "pow2 (- 23) \<le> d" "0 \<le> d" using rep32_apart[OF assms(1-3)] assms(4) False by (simp_all add: d_def)
  have tiny: "100 * pow2 (- 149) \<le> d"
  proof -
    have "pow2 (- 149) \<le> pow2 (- 30)" by (rule pow2_mono) simp
    then have "100 * pow2 (- 149) \<le> 100 * pow2 (- 30)" by simp
    also have "100 * pow2 (- 30) \<le> pow2 (- 23)" by (simp add: pow2_def)
    also note d(1)
    finally show ?thesis .
  qed
  have "0 \<le> rndq f32 d" using d(2) by (rule rndq_nonneg)
  then have 1: "r * rndq f32 d \<le> 41 / 100 * rndq f32 d" "0 \<le> r * rndq f32 d"
    using assms(5,6) by (simp_all only: mult_right_mono mult_nonneg_nonneg)
  have 2: "rndq f32 d \<le> 11 / 10 * d + pow2 (- 149)" using d(2) by (rule rnd32_tenth)
  have 3: "rndq f32 (r * rndq f32 d) \<le> 11 / 10 * (r * rndq f32 d) + pow2 (- 149)" by (rule rnd32_tenth[OF 1(2)])
  have "rndq f32 (r * rndq f32 d) \<le> d" using 1(1) 2 3 tiny d(2) by linarith
  then show ?thesis by (simp add: d_def)
qed simp

section \<open>The automatic gain\<close>

definition gain_ok :: "fp \<Rightarrow> bool" where
  "gain_ok g \<longleftrightarrow> is_fin g \<and> fp_wf f32 g \<and> 1 \<le> val g \<and> val g \<le> 12"

lemma rep32_small: "n \<in> {1, 12} \<Longrightarrow> representable f32 (of_int n) \<and> \<bar>of_int n\<bar> < pow2 (exp_max f32 + 1)"
  by (auto simp: f32_def pow2_def intro!: representable_int)

lemma bnd32: "\<bar>x\<bar> \<le> 1000 \<Longrightarrow> \<bar>x\<bar> < pow2 (exp_max f32 + 1)" for x :: rat
proof -
  assume "\<bar>x\<bar> \<le> 1000"
  also have "(1000::rat) < pow2 (exp_max f32 + 1)" by (simp add: f32_def pow2_def)
  finally show ?thesis .
qed

text \<open>Moving a gain towards the desired one by a rate below one half overshoots neither end.\<close>

lemma gain_towards:
  assumes "gain_ok g" "gain_ok d" "is_fin r" "0 \<le> val r" "val r \<le> 41 / 100"
  shows "gain_ok (add32 g (mul32 (sub32 d g) r))"
proof -
  have g: "is_fin g" "fp_wf f32 g" "1 \<le> val g" "val g \<le> 12" and d: "is_fin d" "fp_wf f32 d" "1 \<le> val d" "val d \<le> 12"
    using assms(1,2) by (auto simp: gain_ok_def)
  note rep = wf_rep[OF g(1,2)] wf_rep[OF d(1,2)]
  let ?u = "rndq f32 (val d - val g)"
  let ?y = "rndq f32 (val r * ?u)"
  have mag: "rndq f32 (val r * rndq f32 \<bar>val d - val g\<bar>) \<le> \<bar>val d - val g\<bar>"
    using agc_move[OF rep(1,2) g(3) _ assms(4,5)] agc_move[OF rep(2,1) d(3) _ assms(4,5)]
    by (cases "val g \<le> val d") (simp_all add: abs_if)
  have sgn: "val g \<le> val d \<Longrightarrow> 0 \<le> ?y \<and> ?y \<le> val d - val g" "val d \<le> val g \<Longrightarrow> ?y \<le> 0 \<and> val d - val g \<le> ?y"
  proof -
    assume le: "val g \<le> val d"
    then have "0 \<le> ?u" by (intro rndq_nonneg) simp
    then have "0 \<le> val r * ?u" using assms(4) by simp
    then have "0 \<le> ?y" by (rule rndq_nonneg)
    then show "0 \<le> ?y \<and> ?y \<le> val d - val g" using mag le by (simp add: abs_of_nonneg)
  next
    assume le: "val d \<le> val g"
    have neg: "?u = - rndq f32 (val g - val d)" using rndq_minus[of f32 "val g - val d"] by simp
    have "0 \<le> rndq f32 (val g - val d)" using le by (intro rndq_nonneg) simp
    then have "0 \<le> rndq f32 (val r * rndq f32 (val g - val d))" using assms(4) by (intro rndq_nonneg) simp
    moreover have "rndq f32 (val r * rndq f32 (val g - val d)) \<le> val g - val d" using mag le by (simp add: abs_if split: if_splits)
    ultimately show "?y \<le> 0 \<and> val d - val g \<le> ?y" unfolding neg by simp
  qed
  have ub: "\<bar>?u\<bar> < pow2 (exp_max f32 + 1)"
  proof -
    have "representable f32 (of_int 12)" using rep32_small[of 12] by simp
    moreover have "representable f32 (of_int (- 12))" using calculation by simp
    ultimately have "?u \<le> 12" "- 12 \<le> ?u" using g d rndq_le[of "val d - val g" 12 f32] rndq_ge[of "- 12" "val d - val g" f32] by auto
    then show ?thesis by (intro bnd32) simp
  qed
  have s: "is_fin (sub32 d g)" "val (sub32 d g) = ?u"
    using fin_of_fin[OF ub] op_fin(2)[OF d(1) g(1)] by simp_all
  have yb: "\<bar>?y\<bar> < pow2 (exp_max f32 + 1)" using sgn g d by (intro bnd32) (cases "val g \<le> val d"; simp)
  have m: "is_fin (mul32 (sub32 d g) r)" "val (mul32 (sub32 d g) r) = ?y"
    using fin_of_fin[OF yb] op_fin(3)[OF s(1) assms(3)] s(2) by (simp_all add: mult.commute)
  let ?t = "val g + ?y"
  have t: "1 \<le> ?t" "?t \<le> 12" using sgn g d by (cases "val g \<le> val d"; simp)+
  have e: "add32 g (mul32 (sub32 d g) r) = fin_of f32 (signbit g \<and> signbit (mul32 (sub32 d g) r)) ?t"
    using op_fin(1)[OF g(1) m(1)] m(2) by simp
  show ?thesis
    unfolding gain_ok_def e
    using fin_of_between[of 1 ?t 12 f32] t rep32_small[of 1] rep32_small[of 12] by (simp add: fin_of_wf)
qed


lemma agc_rates: "kAgcAttackRate = Fin (13421773 / 33554432)" "kAgcReleaseRate = Fin (13421773 / 268435456)"
  by code_simp+

lemma agc_limits [simp]: "gain_ok kAgcMinGain" "gain_ok kAgcMaxGain"
  using rep32_small[of 1] rep32_small[of 12] by (simp_all add: gain_ok_def kAgcMinGain_def kAgcMaxGain_def)

lemma agc_target: "kAgcTargetRms = Fin (10737418 / 134217728)" by code_simp
lemma rms_floor: "lit32 (1 / 10000) = Fin (13743895 / 137438953472)" by code_simp

lemma agc_step_ok [step_inv]:
  assumes "gain_ok g"
  shows "gain_ok (agc_step rawRms v g)"
proof (cases "fle (lit32 (1 / 10000)) rawRms")
  case True
  let ?q = "div32 kAgcTargetRms rawRms"
  let ?d = "clampf ?q kAgcMinGain kAgcMaxGain"
  have "\<not> is_nan ?q"
    using True unfolding rms_floor agc_target by (cases rawRms) (auto simp: fle_def fdiv_def Let_def)
  from clampf_fin[OF _ this, of kAgcMinGain kAgcMaxGain]
  have "is_fin ?d" "1 \<le> val ?d" "val ?d \<le> 12"
    by (simp_all add: kAgcMinGain_def kAgcMaxGain_def fle_def)
  moreover have "fp_wf f32 ?d"
    using agc_limits by (auto simp: clampf_def gain_ok_def fdiv_wf)
  ultimately have d: "gain_ok ?d" by (simp add: gain_ok_def)
  show ?thesis
    using True assms gain_towards[OF assms d, of kAgcAttackRate] gain_towards[OF assms d, of kAgcReleaseRate]
    by (simp add: agc_step_def Let_def agc_rates)
qed (use assms in \<open>simp add: agc_step_def\<close>)

section \<open>Runs\<close>

text \<open>What reaches the controller: settings from the tick thread and frames from the capture thread.\<close>

datatype tx_op =
    SetMode transmitMode
  | SetPtt bool
  | SetMicMuted bool
  | SetVadThreshold fp
  | SetMicVolume fp
  | SetNoiseSuppression bool
  | SetOverride bool bool
  | Frame time "fp list"

fun tx_step :: "libm \<Rightarrow> 'e opus_encode \<Rightarrow> 'n rnnoise \<Rightarrow> tx_op \<Rightarrow> ('e, 'n) transmit \<Rightarrow> voiceSend list \<times> ('e, 'n) transmit" where
  "tx_step m enc rn (SetMode x) t = ([], setMode x t)"
| "tx_step m enc rn (SetPtt x) t = ([], transmit_setPttHeld x t)"
| "tx_step m enc rn (SetMicMuted x) t = ([], setMicMuted x t)"
| "tx_step m enc rn (SetVadThreshold x) t = ([], setVadThreshold x t)"
| "tx_step m enc rn (SetMicVolume x) t = ([], setMicVolume x t)"
| "tx_step m enc rn (SetNoiseSuppression x) t = ([], setNoiseSuppressionEnabled x t)"
| "tx_step m enc rn (SetOverride x y) t = ([], setAddonOverride x y t)"
| "tx_step m enc rn (Frame now raw) t = onFrameCaptured m enc rn now raw t"

definition tx_run :: "libm \<Rightarrow> 'e opus_encode \<Rightarrow> 'n rnnoise \<Rightarrow> tx_op list \<Rightarrow> ('e, 'n) transmit \<Rightarrow>
    voiceSend list \<times> ('e, 'n) transmit" where
  "tx_run m enc rn ops t = (case mapS (tx_step m enc rn) ops t of (oss, t') \<Rightarrow> (concat oss, t'))"

lemmas setter_defs = setMode_def transmit_setPttHeld_def setMicMuted_def setVadThreshold_def setMicVolume_def
  setNoiseSuppressionEnabled_def setAddonOverride_def

lemma should_transmit_frame:
  "\<exists>u. snd (determineShouldTransmit level now t) = t\<lparr>tr_vadHangoverUntil := u\<rparr>"
  by (auto simp: determineShouldTransmit_def evaluateVoiceActivation_def split: transmitMode.split
      intro: exI[of _ "tr_vadHangoverUntil t"])

lemma send_frame_frame: "\<exists>e. snd (send_frame enc pcm l t) = t\<lparr>tr_encoder := e\<rparr>"
  by (auto simp: send_frame_def split: prod.split)

lemma talkspurt_gain [simp]: "tr_autoGain (snd (talkspurt_step enc pcm b t)) = tr_autoGain t"
  by (simp add: talkspurt_step_def send_frame_def case_prod_unfold)

lemma level_step_frame:
  "\<exists>s rms v l n. snd (snd (level_step m rn raw t)) =
     t\<lparr>tr_noiseSuppressor := s, tr_autoGain := agc_step rms v (tr_autoGain t), tr_currentLevel := l,
       tr_silentFrameCount := n\<rparr>"
proof -
  obtain mono960 s where d: "(if tr_noiseSuppressionEnabled t then denoise rn raw (tr_noiseSuppressor t)
      else (raw, tr_noiseSuppressor t)) = (mono960, s)" by force
  show ?thesis unfolding level_step_def d Let_def prod.case snd_conv
    by (rule exI[of _ s], rule exI[of _ "frame_rms mono960"],
        rule exI[of _ "fle (tr_vadThreshold t) (mul32 (frame_rms mono960) (tr_micVolume t))"], rule exI, rule exI, rule refl)
qed

text \<open>A frame as the gate and the framing see it: the rest of the step only prepares the PCM.\<close>

lemma onFrameCaptured_split:
  fixes t :: "('e, 'n) transmit"
  obtains t' t'' :: "('e, 'n) transmit" and pcm b level where
    "onFrameCaptured m enc rn now raw t = talkspurt_step enc pcm b t'"
    "tr_encoder t' = tr_encoder t" "tr_wasTransmitting t' = tr_wasTransmitting t" "tr_isTransmitting t' = b"
    "\<exists>rms v. tr_autoGain t' = agc_step rms v (tr_autoGain t)"
    "b = fst (determineShouldTransmit level now t'')"
    "tr_mode t'' = tr_mode t" "tr_pttHeld t'' = tr_pttHeld t" "tr_micMuted t'' = tr_micMuted t"
    "tr_hasAddonOverride t'' = tr_hasAddonOverride t" "tr_addonOverrideValue t'' = tr_addonOverrideValue t"
proof -
  obtain pcm level t1 where l: "level_step m rn raw t = (pcm, level, t1)" by (metis prod_cases3)
  obtain b t2 where b: "determineShouldTransmit level now t1 = (b, t2)" by force
  from level_step_frame[of m rn raw t] l obtain s rms v lv n where
    t1: "t1 = t\<lparr>tr_noiseSuppressor := s, tr_autoGain := agc_step rms v (tr_autoGain t), tr_currentLevel := lv,
       tr_silentFrameCount := n\<rparr>" by auto
  from should_transmit_frame[of level now t1] b obtain u where t2: "t2 = t1\<lparr>tr_vadHangoverUntil := u\<rparr>" by auto
  show ?thesis
    by (rule that[where t' = "t2\<lparr>tr_isTransmitting := b, tr_lastLoggedGateState := gate_key b t2\<rparr>" and pcm = pcm and b = b
          and level = level and t'' = t1])
       (use b in \<open>auto simp: onFrameCaptured_def l t2 t1\<close>)
qed


lemma tx_run_Nil [simp]: "tx_run m enc rn [] t = ([], t)"
  by (simp add: tx_run_def)

lemma tx_run_Cons: "tx_run m enc rn (op # ops) t =
    (let r = tx_step m enc rn op t; q = tx_run m enc rn ops (snd r) in (fst r @ fst q, snd q))"
  by (simp add: tx_run_def case_prod_unfold Let_def)

lemma tx_run_inv:
  assumes "\<And>op t. I t \<Longrightarrow> I (snd (tx_step m enc rn op t))" "I t"
  shows "I (snd (tx_run m enc rn ops t))"
  using assms(2) by (induction ops arbitrary: t) (simp_all add: tx_run_Cons Let_def assms(1))

section \<open>Properties\<close>

lemma gain_step: "gain_ok (tr_autoGain t) \<Longrightarrow> gain_ok (tr_autoGain (snd (tx_step m enc rn op t)))"
proof (cases op)
  case (Frame now raw)
  assume g: "gain_ok (tr_autoGain t)"
  from onFrameCaptured_split[of m enc rn now raw t] obtain t' pcm b where
    "onFrameCaptured m enc rn now raw t = talkspurt_step enc pcm b t'"
    "\<exists>rms v. tr_autoGain t' = agc_step rms v (tr_autoGain t)" by metis
  then show ?thesis using g Frame agc_step_ok by auto
qed (simp_all add: setter_defs)

text \<open>C27. The automatic gain is a finite number between 1 and 12 after every sequence of settings and frames,
  whatever the microphone delivers (NaN and infinities included): the attack and release steps, rounded
  in binary32, never overshoot.\<close>

theorem agc_gain_bounded:
  shows "let g = tr_autoGain (snd (tx_run m enc rn ops (new_transmit e n)))
         in is_fin g \<and> 1 \<le> val g \<and> val g \<le> 12"
proof -
  have "gain_ok (tr_autoGain (new_transmit e n))"
    using agc_limits(1) by (simp add: new_transmit_def kAgcMinGain_def)
  from tx_run_inv[of "\<lambda>t. gain_ok (tr_autoGain t)", OF gain_step this] show ?thesis
    by (simp add: gain_ok_def Let_def)
qed

text \<open>The end-of-talkspurt flags of a stream, read as an automaton: \<open>Some\<close> whether a talkspurt is open, \<open>None\<close>
  when an end marker came without one.\<close>

fun framed :: "bool \<Rightarrow> bool list \<Rightarrow> bool option" where
  "framed opened [] = Some opened"
| "framed opened (False # fs) = framed True fs"
| "framed opened (True # fs) = (if opened then framed False fs else None)"

lemma framed_append: "framed s (xs @ ys) = Option.bind (framed s xs) (\<lambda>s'. framed s' ys)"
  by (induction s xs rule: framed.induct) auto

definition encoder_works :: "'e opus_encode \<Rightarrow> bool" where
  "encoder_works enc \<longleftrightarrow> (\<forall>e pcm cap. case enc e pcm cap of (n, out, _) \<Rightarrow> 0 < n \<and> out \<noteq> [])"

lemma send_frame_works:
  assumes "encoder_works enc" "tr_encoder t \<noteq> None"
  shows "\<exists>opus e. send_frame enc pcm l t = ([(opus, l)], t\<lparr>tr_encoder := Some e\<rparr>)"
proof -
  obtain e where e: "tr_encoder t = Some e" using assms(2) by blast
  obtain k out e' where r: "enc e pcm kMaxOpusFrameLength = (k, out, e')" by (metis prod_cases3)
  with assms(1)[unfolded encoder_works_def, rule_format, of e pcm kMaxOpusFrameLength]
  have "0 < k" "out \<noteq> []" by simp_all
  then show ?thesis by (auto simp: send_frame_def encode_def e r)
qed

lemma talkspurt_framed:
  assumes "encoder_works enc" "tr_encoder t \<noteq> None"
  shows "framed (tr_wasTransmitting t) (map snd (fst (talkspurt_step enc pcm b t))) =
      Some (tr_wasTransmitting (snd (talkspurt_step enc pcm b t))) \<and>
    tr_encoder (snd (talkspurt_step enc pcm b t)) \<noteq> None \<and> tr_wasTransmitting (snd (talkspurt_step enc pcm b t)) = b"
  using send_frame_works[OF assms, of pcm False] send_frame_works[OF assms, of silence_pcm True] assms(2)
  by (auto simp: talkspurt_step_def)

lemma tx_step_framed:
  assumes "encoder_works enc" "tr_encoder t \<noteq> None"
  shows "framed (tr_wasTransmitting t) (map snd (fst (tx_step m enc rn op t))) =
      Some (tr_wasTransmitting (snd (tx_step m enc rn op t))) \<and> tr_encoder (snd (tx_step m enc rn op t)) \<noteq> None"
proof (cases op)
  case (Frame now raw)
  from onFrameCaptured_split[of m enc rn now raw t] obtain t' pcm b where
    s: "onFrameCaptured m enc rn now raw t = talkspurt_step enc pcm b t'"
    "tr_encoder t' = tr_encoder t" "tr_wasTransmitting t' = tr_wasTransmitting t" by metis
  have "tr_encoder t' \<noteq> None" using s(2) assms(2) by simp
  from talkspurt_framed[OF assms(1) this, of pcm b] show ?thesis by (simp add: Frame s(1) s(3)[symmetric])
qed (use assms in \<open>simp_all add: setter_defs\<close>)

text \<open>C28. With a working encoder the frames sent form well-framed talkspurts under every interleaving of
  settings and captured frames: an end marker only ever closes an open talkspurt, exactly one per
  talkspurt, and a talkspurt is open at the end exactly when the controller is still transmitting.\<close>

theorem talkspurts_well_framed:
  assumes "encoder_works enc"
  shows "framed False (map snd (fst (tx_run m enc rn ops (new_transmit (Some e) n)))) =
     Some (tr_wasTransmitting (snd (tx_run m enc rn ops (new_transmit (Some e) n))))"
proof -
  have "framed (tr_wasTransmitting t) (map snd (fst (tx_run m enc rn ops t))) =
      Some (tr_wasTransmitting (snd (tx_run m enc rn ops t)))" if "tr_encoder t \<noteq> None" for t
    using that
  proof (induction ops arbitrary: t)
    case (Cons op ops)
    from tx_step_framed[OF assms Cons.prems, of m rn op] Cons.IH[of "snd (tx_step m enc rn op t)"]
    show ?case by (simp add: tx_run_Cons Let_def framed_append)
  qed simp
  from this[of "new_transmit (Some e) n"] show ?thesis by (simp add: new_transmit_def)
qed

definition byte_encoder :: "unit opus_encode" where "byte_encoder e pcm cap = (1, [7], e)"

definition unit_denoise :: "unit rnnoise" where "unit_denoise s xs = (xs, s)"

lemma talkspurts_well_framed_witness:
  "framed False (map snd (fst (tx_run flat_libm byte_encoder unit_denoise
       [SetMode AlwaysOn, Frame 0 (replicate 960 (Fin 0)), SetMode PushToTalk, Frame 20 (replicate 960 (Fin 0))]
       (new_transmit (Some ()) None)))) \<noteq> None"
  by (subst talkspurts_well_framed) (simp_all add: encoder_works_def byte_encoder_def)

text \<open>The gate is shut by the mission, by the mute, or by the released push-to-talk key.\<close>

definition gate_shut :: "('e, 'n) transmit \<Rightarrow> bool" where
  "gate_shut t \<longleftrightarrow> (if tr_hasAddonOverride t then \<not> tr_addonOverrideValue t
     else tr_micMuted t \<or> tr_mode t = PushToTalk \<and> \<not> tr_pttHeld t)"

text \<open>C29. While the gate is shut (override "blocked"; or no override and the microphone muted or push-to-talk
  not held) nothing that was captured leaves: a frame sends nothing, or, right after transmitting, one
  frame of encoded silence with the end marker, whatever the microphone picked up.\<close>

theorem shut_gate_sends_no_audio:
  assumes "gate_shut t"
  shows "fst (onFrameCaptured m enc rn now raw t) =
     (if tr_wasTransmitting t then fst (send_frame enc silence_pcm True t) else []) \<and>
     \<not> tr_wasTransmitting (snd (onFrameCaptured m enc rn now raw t))"
proof (rule onFrameCaptured_split[of m enc rn now raw t], goal_cases)
  case (1 t' t'' pcm b level)
  note s = 1
  have "\<not> b" using assms unfolding s(6) gate_shut_def determineShouldTransmit_def
    by (auto simp: s(7-11) split: if_splits)
  moreover have "fst (send_frame enc silence_pcm True t') = fst (send_frame enc silence_pcm True t)"
    by (simp add: send_frame_def s(2) case_prod_unfold)
  ultimately show ?thesis using s(3) by (simp add: s(1) talkspurt_step_def case_prod_unfold)
qed

lemma shut_gate_sends_no_audio_witness:
  "fst (onFrameCaptured flat_libm byte_encoder unit_denoise 5 [Fin 1]
     ((new_transmit (Some ()) None)\<lparr>tr_micMuted := True, tr_wasTransmitting := True\<rparr>)) = [([7], True)]"
proof -
  have "gate_shut ((new_transmit (Some ()) None)\<lparr>tr_micMuted := True, tr_wasTransmitting := True\<rparr>)"
    by (simp add: gate_shut_def new_transmit_def)
  from shut_gate_sends_no_audio[OF this, of flat_libm byte_encoder unit_denoise 5 "[Fin 1]"] show ?thesis
    by (simp add: send_frame_def encode_def byte_encoder_def new_transmit_def)
qed

section \<open>Voice activation\<close>

text \<open>The gate over a sequence of captured levels.\<close>

fun vad_run :: "(time \<times> fp) list \<Rightarrow> ('e, 'n) transmit \<Rightarrow> ('e, 'n) transmit" where
  "vad_run [] t = t"
| "vad_run ((now, level) # fs) t = vad_run fs (snd (determineShouldTransmit level now t))"

definition vad_only :: "('e, 'n) transmit \<Rightarrow> bool" where
  "vad_only t \<longleftrightarrow> tr_mode t = VoiceActivation \<and> \<not> tr_hasAddonOverride t \<and> \<not> tr_micMuted t"

lemma vad_run_until:
  assumes "vad_only t" "sorted (map fst fs)" "\<forall>(n, l) \<in> set fs. n \<le> now"
    "now < tr_vadHangoverUntil t \<longrightarrow> (\<forall>(n, l) \<in> set fs. tr_vadHangoverUntil t \<le> n + kVadHangover)"
  shows "vad_only (vad_run fs t) \<and> tr_vadThreshold (vad_run fs t) = tr_vadThreshold t \<and>
    (now < tr_vadHangoverUntil (vad_run fs t) \<longleftrightarrow> now < tr_vadHangoverUntil t \<or>
       (\<exists>(n, l) \<in> set fs. fle (tr_vadThreshold t) l \<and> now < n + kVadHangover))"
  using assms
proof (induction fs t rule: vad_run.induct)
  case (2 n l fs t)
  let ?t = "snd (determineShouldTransmit l n t)"
  have t: "?t = (if fle (tr_vadThreshold t) l then t\<lparr>tr_vadHangoverUntil := n + kVadHangover\<rparr> else t)"
    using 2(2) by (simp add: vad_only_def determineShouldTransmit_def evaluateVoiceActivation_def)
  have "vad_only ?t" using 2(2) by (simp add: t vad_only_def)
  moreover have "sorted (map fst fs)" "\<forall>(n, l) \<in> set fs. n \<le> now" using 2(3,4) by auto
  moreover have "now < tr_vadHangoverUntil ?t \<longrightarrow> (\<forall>(n, l) \<in> set fs. tr_vadHangoverUntil ?t \<le> n + kVadHangover)"
    using 2(3,5) by (auto simp: t)
  moreover note 2(1)
  ultimately show ?case using 2(5) by (auto simp: t)
qed simp

text \<open>C30. In voice-activation mode, without override and mute, the gate is open at a frame exactly when some
  frame of the last 300 ms, this one included, reached the threshold: no frame in a pause shorter than
  the hangover is lost, and transmission ends when it is over.\<close>

theorem vad_hangover:
  assumes "vad_only t" "sorted (map fst fs)" "\<forall>(n, l) \<in> set fs. n \<le> now" "tr_vadHangoverUntil t \<le> now"
  shows "fst (determineShouldTransmit level now (vad_run fs t)) \<longleftrightarrow>
     (\<exists>(n, l) \<in> set (fs @ [(now, level)]). fle (tr_vadThreshold t) l \<and> now < n + ms 300)"
proof -
  from vad_run_until[OF assms(1,2,3)] assms(4)
  have r: "vad_only (vad_run fs t)" "tr_vadThreshold (vad_run fs t) = tr_vadThreshold t"
    "now < tr_vadHangoverUntil (vad_run fs t) \<longleftrightarrow>
      (\<exists>(n, l) \<in> set fs. fle (tr_vadThreshold t) l \<and> now < n + kVadHangover)" by auto
  have "0 < ms 300" by simp
  with r show ?thesis
    by (auto simp: vad_only_def determineShouldTransmit_def evaluateVoiceActivation_def kVadHangover_def)
qed

lemma vad_hangover_witness:
  "fst (determineShouldTransmit (Fin 0) (ms 300) (vad_run [(ms 20, Fin 1), (ms 40, Fin 0)] (new_transmit (Some ()) (Some ())))) \<and>
   \<not> fst (determineShouldTransmit (Fin 0) (ms 320) (vad_run [(ms 20, Fin 1), (ms 40, Fin 0)] (new_transmit (Some ()) (Some ()))))"
proof -
  let ?t = "new_transmit (Some ()) (Some ())" and ?fs = "[(ms 20, Fin 1), (ms 40, Fin 0)]"
  have thr: "tr_vadThreshold ?t = Fin (10737418 / 2147483648)" unfolding new_transmit_def by simp code_simp
  have a: "vad_only ?t" "sorted (map fst ?fs)" "\<forall>(n, l) \<in> set ?fs. n \<le> ms 300" "\<forall>(n, l) \<in> set ?fs. n \<le> ms 320"
    "tr_vadHangoverUntil ?t \<le> ms 300" "tr_vadHangoverUntil ?t \<le> ms 320"
    by (simp_all add: vad_only_def new_transmit_def)
  show ?thesis
    using vad_hangover[OF a(1,2,3,5), of "Fin 0"] vad_hangover[OF a(1,2,4,6), of "Fin 0"]
    by (simp add: thr fle_def)
qed

end
