(* ===== verification/Capture.thy ===== *)
theory Capture
  imports OpusCodec Mixer
begin

text \<open>
  Microphone capture of \<open>src/Voice/WasapiCaptureEngine.cpp\<close>: down-mixing, linear resampling to 48 kHz
  and the cutting into frames of 960 samples. WASAPI's answers are arguments; the frames handed to the
  callback are the result.
\<close>

record capture =
  cp_nativeMono :: "fp list"
  cp_resampleCursor :: fp
  cp_frameBuffer :: "fp list"

definition new_capture :: capture where
  "new_capture = \<lparr>cp_nativeMono = [], cp_resampleCursor = Fin 0, cp_frameBuffer = []\<rparr>"

definition kTargetSampleRate :: int where "kTargetSampleRate = 48000"
definition kTargetFrameSamples :: nat where "kTargetFrameSamples = kFrameSamples"

text \<open>One sample per frame: the average of its channels, summed in order.\<close>

definition downmix :: "nat \<Rightarrow> fp list \<Rightarrow> fp" where
  "downmix channels xs = div32 (fold (\<lambda>x s. add32 s x) xs (Fin 0)) (int32_fp (int channels))"

fun downmix_frames :: "nat \<Rightarrow> nat \<Rightarrow> fp list \<Rightarrow> fp list" where
  "downmix_frames channels 0 xs = []"
| "downmix_frames channels (Suc n) xs =
     downmix channels (take channels xs) # downmix_frames channels n (drop channels xs)"

definition appendNativeSamples :: "fp list \<Rightarrow> nat \<Rightarrow> nat \<Rightarrow> capture \<Rightarrow> capture" where
  "appendNativeSamples interleaved frameCount channels c =
     (if channels \<le> 1 then c\<lparr>cp_nativeMono := cp_nativeMono c @ take frameCount interleaved\<rparr>
      else c\<lparr>cp_nativeMono := cp_nativeMono c @ downmix_frames channels frameCount interleaved\<rparr>)"

definition capture_step :: "int \<Rightarrow> fp" where
  "capture_step nativeSampleRate = div64 (of_int_fp f64 nativeSampleRate) (of_int_fp f64 kTargetSampleRate)"

definition push_sample :: "fp \<Rightarrow> capture \<Rightarrow> fp list list \<times> capture" where
  "push_sample sample c =
     (let fb = cp_frameBuffer c @ [sample]
      in if kTargetFrameSamples \<le> length fb
         then ([take kTargetFrameSamples fb], c\<lparr>cp_frameBuffer := drop kTargetFrameSamples fb\<rparr>)
         else ([], c\<lparr>cp_frameBuffer := fb\<rparr>))"

partial_function (option) resample_loop :: "libm \<Rightarrow> fp \<Rightarrow> capture \<Rightarrow> (fp list list \<times> capture) option" where
  "resample_loop m step c =
     (let idx0 = size_cast m (cp_resampleCursor c);
          idx1 = idx0 + 1
      in if length (cp_nativeMono c) \<le> idx1 then Some ([], c)
         else
           let fraction = sub64 (cp_resampleCursor c) (index_fp idx0);
               sample = interpolate (cp_nativeMono c ! idx0) (cp_nativeMono c ! idx1) fraction;
               (emitted, c') = push_sample sample (c\<lparr>cp_resampleCursor := add64 (cp_resampleCursor c) step\<rparr>)
           in Option.bind (resample_loop m step c') (\<lambda>(frames, c''). Some (emitted @ frames, c'')))"

declare resample_loop.simps [code]

definition drop_native :: "libm \<Rightarrow> capture \<Rightarrow> capture" where
  "drop_native m c =
     (let consumed = size_cast m (cp_resampleCursor c)
      in if 0 < consumed \<and> consumed \<le> length (cp_nativeMono c)
         then c\<lparr>cp_nativeMono := drop consumed (cp_nativeMono c),
                cp_resampleCursor := sub64 (cp_resampleCursor c) (index_fp consumed)\<rparr>
         else c)"

definition resampleAndEmit :: "libm \<Rightarrow> int \<Rightarrow> capture \<Rightarrow> (fp list list \<times> capture) option" where
  "resampleAndEmit m nativeSampleRate c =
     (if nativeSampleRate = 0 \<or> cp_nativeMono c = [] then Some ([], c)
      else Option.bind (resample_loop m (capture_step nativeSampleRate) c)
             (\<lambda>(frames, c'). Some (frames, drop_native m c')))"

section \<open>Device sessions\<close>

text \<open>One packet of the capture client: lost device, silence (or a missing pointer), or a buffer, given by
  what it holds when it is read as floats and as 16-bit integers. The device's format decides which.\<close>

datatype packetData = SilentPacket | DataPacket "fp list" "16 word list"

datatype capturePacket = PacketLost | Packet nat packetData

definition append_packet :: "waveFormat \<Rightarrow> nat \<Rightarrow> packetData \<Rightarrow> capture \<Rightarrow> capture" where
  "append_packet fmt framesAvailable d c =
     (let channels = wf_channels fmt; sampleCount = framesAvailable * channels
      in case d of
           SilentPacket \<Rightarrow> appendNativeSamples (replicate sampleCount (Fin 0)) framesAvailable channels c
         | DataPacket floats ints \<Rightarrow>
             if wf_isFloat fmt then appendNativeSamples floats framesAvailable channels c
             else if wf_bitsPerSample fmt = 16
             then appendNativeSamples (map sample_of (take sampleCount ints)) framesAvailable channels c
             else c)"

text \<open>The inner loop: packets until none is left; \<open>True\<close> when the device was lost.\<close>

fun drain_packets :: "waveFormat \<Rightarrow> capturePacket list \<Rightarrow> capture \<Rightarrow> bool \<times> capture" where
  "drain_packets fmt [] c = (False, c)"
| "drain_packets fmt (PacketLost # ps) c = (True, c)"
| "drain_packets fmt (Packet n d # ps) c = drain_packets fmt ps (append_packet fmt n d c)"

record captureWake =
  cw_wait :: waitResult
  cw_packets :: "capturePacket list"
  cw_now :: time
  cw_default :: string

fun capture_session :: "libm \<Rightarrow> waveFormat \<Rightarrow> string \<Rightarrow> time \<Rightarrow> captureWake list \<Rightarrow> capture \<Rightarrow>
    (fp list list \<times> capture) option" where
  "capture_session m fmt deviceId lastCheck [] c = Some ([], c)"
| "capture_session m fmt deviceId lastCheck (w # ws) c =
     (let proceed = (\<lambda>frames c.
            case device_switched deviceId lastCheck (cw_now w) (cw_default w) of
              (True, _) \<Rightarrow> Some (frames, c)
            | (False, lastCheck') \<Rightarrow>
                Option.bind (capture_session m fmt deviceId lastCheck' ws c) (\<lambda>(frames', c). Some (frames @ frames', c)))
      in case cw_wait w of
           WaitBroken \<Rightarrow> Some ([], c)
         | Timeout \<Rightarrow> proceed [] c
         | Signalled \<Rightarrow>
             (case drain_packets fmt (cw_packets w) c of
                (True, c) \<Rightarrow> Some ([], c)
              | (False, c) \<Rightarrow>
                  Option.bind (resampleAndEmit m (wf_samplesPerSec fmt) c) (\<lambda>(frames, c). proceed frames c)))"

text \<open>Opening a capture session differs from rendering only in that every sample format is accepted.\<close>

definition open_capture :: "render_open \<Rightarrow> waveFormat option" where
  "open_capture ro =
     (if \<not> ro_device ro then None
      else if \<not> ro_activated ro then None
      else (case ro_mixFormat ro of
              None \<Rightarrow> None
            | Some fmt \<Rightarrow>
                if \<not> ro_initialized ro \<or> wf_channels fmt = 0 then None
                else if \<not> ro_event ro then None
                else if \<not> ro_service ro then None
                else if \<not> ro_started ro then None
                else Some fmt))"

definition capture_device_session :: "libm \<Rightarrow> render_open \<Rightarrow> string \<Rightarrow> time \<Rightarrow> captureWake list \<Rightarrow> capture \<Rightarrow>
    (fp list list \<times> bool \<times> capture) option" where
  "capture_device_session m ro deviceId startedAt ws c =
     (case open_capture ro of
        None \<Rightarrow> Some ([], False, c)
      | Some fmt \<Rightarrow> Option.bind (capture_session m fmt deviceId startedAt ws c) (\<lambda>(frames, c). Some (frames, True, c)))"

definition capture_after_session :: "bool \<Rightarrow> 32 word \<Rightarrow> capture \<Rightarrow> 32 word \<times> capture" where
  "capture_after_session wasRunning failureCount c =
     (if wasRunning then 0 else failureCount + 1,
      c\<lparr>cp_nativeMono := [], cp_frameBuffer := [], cp_resampleCursor := Fin 0\<rparr>)"

end
