(* ===== verification/CaptureProps.thy ===== *)
theory CaptureProps
  imports Capture
begin

text \<open>
  Properties of the capture resampler: for every sequence of device packets it returns, cuts frames of
  exactly 960 samples and leaves less than one behind; at 48 kHz it passes the samples through.
\<close>

section \<open>The step of the capture cursor\<close>

definition cstep_ok :: "fp \<Rightarrow> bool" where
  "cstep_ok s \<longleftrightarrow> is_fin s \<and> 1 / 8 \<le> val s \<and> val s \<le> 16"

lemma rep64_eighth: "\<bar>n\<bar> < 2 ^ 53 \<Longrightarrow> representable f64 (of_int n / 8)"
  by (rule representableI[of _ n "- 3"]) (simp_all add: f64_def pow2_def)

lemma small_sum: "0 \<le> i \<Longrightarrow> i \<le> 2 ^ 52 \<Longrightarrow> 0 \<le> k \<Longrightarrow> k \<le> 100 \<Longrightarrow> \<bar>i + k\<bar> < 2 ^ 53" for i k :: int
  by simp

abbreviation eighths :: "fp \<Rightarrow> int" where "eighths c \<equiv> \<lfloor>8 * val c\<rfloor>"

lemma cursor_forward:
  assumes "cursor_ok c" "cstep_ok s" "val c < 2 ^ 49"
  shows "cursor_ok (add64 c s)" "val (add64 c s) \<le> of_int (ipart c) + 17" "eighths c < eighths (add64 c s)"
proof -
  let ?lo = "of_int (eighths c + 1) / 8 :: rat" and ?hi = "of_int (ipart c + 17) :: rat"
  have c: "is_fin c" "fp_wf f64 c" "0 \<le> val c" using assms(1) by (auto simp: cursor_ok_def)
  have s: "is_fin s" "1 / 8 \<le> val s" "val s \<le> 16" using assms(2) by (auto simp: cstep_ok_def)
  have e: "add64 c s = fin_of f64 (signbit c \<and> signbit s) (val c + val s)" using c(1) s(1) by (rule op_fin(1))
  have fl: "of_int (eighths c) \<le> 8 * val c" "val c < of_int (ipart c) + 1" "of_int (ipart c) \<le> val c" by linarith+
  have "?lo = of_int (eighths c) / 8 + 1 / 8" by simp
  then have lo: "?lo \<le> val c + val s" using fl(1) s(2) by linarith
  have hi: "val c + val s \<le> ?hi" using fl(2) s(3) by simp
  have i: "0 \<le> ipart c" "0 \<le> eighths c" using c(3) by simp_all
  have rl: "representable f64 ?lo"
  proof (rule rep64_eighth)
    have "eighths c \<le> 2 ^ 52" using assms(3) by (simp add: floor_le_iff)
    from small_sum[OF i(2) this, of 1] show "\<bar>eighths c + 1\<bar> < 2 ^ 53" by simp
  qed
  have rh: "representable f64 ?hi"
  proof (rule rep64_int)
    have "ipart c \<le> 2 ^ 52" using assms(3) by (simp add: floor_le_iff)
    from small_sum[OF i(1) this, of 17] show "\<bar>ipart c + 17\<bar> < 2 ^ 53" by simp
  qed
  have p: "(2::rat) ^ 49 = 562949953421312" "(2::rat) ^ 50 = 1125899906842624" by simp_all
  have hb: "?hi < 2 ^ 50" using fl(3) assms(3) p by simp
  have lb: "0 \<le> ?lo" "?lo \<le> ?hi" using i(2) lo hi by (simp, linarith)
  have "\<bar>?lo\<bar> < pow2 (exp_max f64 + 1)" by (rule big64_50[OF lb(1) le_less_trans[OF lb(2) hb]])
  moreover have "\<bar>?hi\<bar> < pow2 (exp_max f64 + 1)" by (rule big64_50[OF order_trans[OF lb] hb])
  ultimately have r: "is_fin (add64 c s)" "?lo \<le> val (add64 c s)" "val (add64 c s) \<le> ?hi"
    unfolding e by (rule fin_of_between[OF lo hi rl rh f64_pos])+
  show "val (add64 c s) \<le> of_int (ipart c) + 17" using r(3) by simp
  show "cursor_ok (add64 c s)"
    unfolding cursor_ok_def
  proof (intro conjI)
    show "fp_wf f64 (add64 c s)" unfolding e by (rule fin_of_wf) simp
    show "0 \<le> val (add64 c s)" using lb(1) r(2) by (rule order_trans)
    show "val (add64 c s) < 2 ^ 50" using r(3) hb by (rule le_less_trans)
  qed (rule r(1))
  have "of_int (eighths c + 1) \<le> 8 * val (add64 c s)" using r(2) by simp
  then show "eighths c < eighths (add64 c s)" by (simp add: less_floor_iff)
qed

lemma capture_step_ok:
  assumes "8000 \<le> rate" "rate \<le> 768000"
  shows "cstep_ok (capture_step rate)"
proof -
  have ex: "is_fin (of_int_fp f64 n) \<and> val (of_int_fp f64 n) = of_int n" if "0 < n" "n \<le> 768000" for n
  proof -
    have "representable f64 (of_int n)" using that by (intro rep64_int) simp
    moreover have "\<bar>of_int n :: rat\<bar> < pow2 (exp_max f64 + 1)" using that by (intro big64) simp_all
    ultimately show ?thesis using fin_of_exact[of f64 "of_int n" False] by (simp add: of_int_fp_def)
  qed
  let ?q = "of_int rate / 48000 :: rat"
  have q: "of_int 1 / 8 \<le> ?q" "?q \<le> of_int 16" using assms by simp_all
  have e: "capture_step rate = fin_of f64 (signbit (of_int_fp f64 rate) \<noteq> signbit (of_int_fp f64 kTargetSampleRate)) ?q"
    using op_fin(4)[of "of_int_fp f64 rate" "of_int_fp f64 48000" f64] ex[of rate] ex[of 48000] assms
    by (simp add: capture_step_def kTargetSampleRate_def)
  have r: "representable f64 (of_int 1 / 8)" "representable f64 (of_int 16)"
    using rep64_eighth[of 1] rep64_int[of 16] by simp_all
  have b: "\<bar>of_int 1 / 8 :: rat\<bar> < pow2 (exp_max f64 + 1)" "\<bar>of_int 16 :: rat\<bar> < pow2 (exp_max f64 + 1)"
    by (rule big64; simp)+
  note w = fin_of_between[OF q r f64_pos b]
  show ?thesis unfolding cstep_ok_def e using w by simp
qed

section \<open>The loop\<close>

text \<open>The cursor never runs further than 17 samples past the end of what was captured.\<close>

definition capture_inv :: "capture \<Rightarrow> bool" where
  "capture_inv c \<longleftrightarrow> cursor_ok (cp_resampleCursor c) \<and>
     val (cp_resampleCursor c) \<le> of_nat (length (cp_nativeMono c)) + 17 \<and>
     length (cp_frameBuffer c) < kTargetFrameSamples"

lemma push_sample_ok:
  assumes "length (cp_frameBuffer c) < kTargetFrameSamples"
  shows "length (cp_frameBuffer (snd (push_sample s c))) < kTargetFrameSamples"
    "\<forall>f \<in> set (fst (push_sample s c)). length f = kTargetFrameSamples"
    "cp_nativeMono (snd (push_sample s c)) = cp_nativeMono c"
    "cp_resampleCursor (snd (push_sample s c)) = cp_resampleCursor c"
    "concat (fst (push_sample s c)) @ cp_frameBuffer (snd (push_sample s c)) = cp_frameBuffer c @ [s]"
  using assms by (auto simp: push_sample_def Let_def kTargetFrameSamples_def kFrameSamples_def)

lemma resample_loop_ok:
  assumes "capture_inv c" "cstep_ok step" "length (cp_nativeMono c) < 2 ^ 48"
  shows "\<exists>frames c'. resample_loop m step c = Some (frames, c') \<and> capture_inv c' \<and>
     cp_nativeMono c' = cp_nativeMono c \<and> (\<forall>f \<in> set frames. length f = kTargetFrameSamples)"
  using assms(1,3)
proof (induction "nat (8 * int (length (cp_nativeMono c)) - eighths (cp_resampleCursor c))" arbitrary: c rule: less_induct)
  case less
  let ?x = "cp_resampleCursor c" and ?n = "length (cp_nativeMono c)"
  have inv: "cursor_ok ?x" "val ?x \<le> of_nat ?n + 17" "length (cp_frameBuffer c) < kTargetFrameSamples"
    using less.prems(1) by (auto simp: capture_inv_def)
  have i: "0 \<le> ipart ?x" using inv(1) by (simp add: cursor_ok_def)
  show ?case
  proof (cases "?n \<le> size_cast m ?x + 1")
    case True
    then show ?thesis using less.prems(1) by (subst resample_loop.simps) simp
  next
    case False
    then have lt: "ipart ?x + 1 < int ?n" using i unfolding size_cast_cursor[OF inv(1)] by linarith
    define c1 where "c1 = c\<lparr>cp_resampleCursor := add64 ?x step\<rparr>"
    define smp where "smp = interpolate (cp_nativeMono c ! size_cast m ?x) (cp_nativeMono c ! (size_cast m ?x + 1))
        (sub64 ?x (index_fp (size_cast m ?x)))"
    obtain em c2 where p: "push_sample smp c1 = (em, c2)" by force
    have b: "val ?x < 2 ^ 49"
    proof -
      have "(of_nat ?n :: rat) < of_nat (2 ^ 48)" using less.prems(2) by (simp only: of_nat_less_iff)
      then show ?thesis using inv(2) by simp
    qed
    note adv = cursor_forward[OF inv(1) assms(2) b]
    have c2: "cp_nativeMono c2 = cp_nativeMono c" "cp_resampleCursor c2 = add64 ?x step"
      "length (cp_frameBuffer c2) < kTargetFrameSamples" "\<forall>f \<in> set em. length f = kTargetFrameSamples"
      using push_sample_ok[of c1 smp] inv(3) p by (simp_all add: c1_def)
    have "(of_int (ipart ?x + 1) :: rat) < of_int (int ?n)" using lt by (simp only: of_int_less_iff)
    then have "capture_inv c2" using adv(1,2) c2 by (simp add: capture_inv_def)
    moreover have "nat (8 * int (length (cp_nativeMono c2)) - eighths (cp_resampleCursor c2)) < nat (8 * int ?n - eighths ?x)"
    proof -
      have "val ?x < of_int (ipart ?x) + 1" by linarith
      then have "8 * val ?x < of_int (8 * (ipart ?x + 1))" by simp
      then have "eighths ?x < 8 * (ipart ?x + 1)" by (simp only: floor_less_iff)
      then show ?thesis using adv(3) lt unfolding c2 by simp
    qed
    ultimately obtain frames c3 where
      r: "resample_loop m step c2 = Some (frames, c3)" "capture_inv c3" "cp_nativeMono c3 = cp_nativeMono c2"
        "\<forall>f \<in> set frames. length f = kTargetFrameSamples"
      using less.hyps[of c2] less.prems(2) c2(1) by auto
    have "resample_loop m step c = Some (em @ frames, c3)"
      using False r(1) p by (subst resample_loop.simps) (simp add: Let_def c1_def smp_def)
    then show ?thesis using r c2 by auto
  qed
qed


lemma drop_native_ok:
  assumes "capture_inv c"
  shows "capture_inv (drop_native m c)" "length (cp_nativeMono (drop_native m c)) \<le> length (cp_nativeMono c)"
    "cp_frameBuffer (drop_native m c) = cp_frameBuffer c"
proof -
  let ?x = "cp_resampleCursor c" and ?n = "length (cp_nativeMono c)"
  have inv: "cursor_ok ?x" "val ?x \<le> of_nat ?n + 17" "length (cp_frameBuffer c) < kTargetFrameSamples"
    using assms by (auto simp: capture_inv_def)
  show "length (cp_nativeMono (drop_native m c)) \<le> length (cp_nativeMono c)"
    "cp_frameBuffer (drop_native m c) = cp_frameBuffer c" by (simp_all add: drop_native_def Let_def)
  show "capture_inv (drop_native m c)"
  proof (cases "0 < nat (ipart ?x) \<and> nat (ipart ?x) \<le> ?n")
    case False
    then have "drop_native m c = c" unfolding drop_native_def size_cast_cursor[OF inv(1)] Let_def by (simp only: if_False)
    then show ?thesis using assms by simp
  next
    case True
    then have d: "drop_native m c = c\<lparr>cp_nativeMono := drop (nat (ipart ?x)) (cp_nativeMono c),
        cp_resampleCursor := sub64 ?x (index_fp (nat (ipart ?x)))\<rparr>"
      unfolding drop_native_def size_cast_cursor[OF inv(1)] Let_def by (simp only: if_True simp_thms)
    note cc = cursor_consume[OF inv(1)]
    have "val ?x - of_int (ipart ?x) \<le> 17" by linarith
    also have "(17::rat) \<le> of_nat (length (drop (nat (ipart ?x)) (cp_nativeMono c))) + 17" by simp
    finally show ?thesis unfolding capture_inv_def d using cc(1,2) inv(3) by simp
  qed
qed

lemma length_downmix_frames [simp]: "length (downmix_frames ch n xs) = n"
  by (induction ch n xs rule: downmix_frames.induct) auto

lemma append_packet_frame:
  "\<exists>ys. append_packet fmt n d c = c\<lparr>cp_nativeMono := cp_nativeMono c @ ys\<rparr> \<and> length ys \<le> n"
proof -
  have a: "\<exists>ys. appendNativeSamples xs n ch c = c\<lparr>cp_nativeMono := cp_nativeMono c @ ys\<rparr> \<and> length ys \<le> n" for xs ch
    by (cases "ch \<le> 1") (auto simp: appendNativeSamples_def)
  moreover have "\<exists>ys. c = c\<lparr>cp_nativeMono := cp_nativeMono c @ ys\<rparr> \<and> length ys \<le> n"
    by (rule exI[of _ "[]"]) simp
  ultimately show ?thesis by (cases d) (simp_all add: append_packet_def Let_def)
qed

lemma append_packet_ok:
  assumes "capture_inv c"
  shows "capture_inv (append_packet fmt n d c)"
    "length (cp_nativeMono (append_packet fmt n d c)) \<le> length (cp_nativeMono c) + n"
proof -
  from append_packet_frame[of fmt n d c] obtain ys where
    y: "append_packet fmt n d c = c\<lparr>cp_nativeMono := cp_nativeMono c @ ys\<rparr>" "length ys \<le> n" by blast
  have "(of_nat (length (cp_nativeMono c)) :: rat) + 17 \<le> of_nat (length (cp_nativeMono c @ ys)) + 17" by simp
  then show "capture_inv (append_packet fmt n d c)"
    using assms unfolding capture_inv_def y(1) by (auto intro: order_trans)
  show "length (cp_nativeMono (append_packet fmt n d c)) \<le> length (cp_nativeMono c) + n" using y by simp
qed

fun packet_frames :: "capturePacket list \<Rightarrow> nat" where
  "packet_frames [] = 0"
| "packet_frames (PacketLost # ps) = 0"
| "packet_frames (Packet n d # ps) = n + packet_frames ps"

lemma drain_ok:
  "capture_inv c \<Longrightarrow> capture_inv (snd (drain_packets fmt ps c)) \<and>
    length (cp_nativeMono (snd (drain_packets fmt ps c))) \<le> length (cp_nativeMono c) + packet_frames ps"
proof (induction fmt ps c rule: drain_packets.induct)
  case (3 fmt n d ps c)
  from 3(1)[OF append_packet_ok(1)[OF 3(2)]] append_packet_ok(2)[OF 3(2), of fmt n d] show ?case by auto
qed simp_all

lemma resampleAndEmit_ok:
  assumes "capture_inv c" "8000 \<le> rate" "rate \<le> 768000" "length (cp_nativeMono c) < 2 ^ 48"
  shows "\<exists>frames c'. resampleAndEmit m rate c = Some (frames, c') \<and> capture_inv c' \<and>
     length (cp_nativeMono c') \<le> length (cp_nativeMono c) \<and> (\<forall>f \<in> set frames. length f = kTargetFrameSamples)"
proof -
  from resample_loop_ok[OF assms(1) capture_step_ok[OF assms(2,3)] assms(4), of m] obtain frames c' where
    r: "resample_loop m (capture_step rate) c = Some (frames, c')" "capture_inv c'"
      "cp_nativeMono c' = cp_nativeMono c" "\<forall>f \<in> set frames. length f = kTargetFrameSamples" by blast
  show ?thesis using r drop_native_ok[OF r(2), of m] assms(1) by (auto simp: resampleAndEmit_def)
qed

text \<open>All the frames a session receives.\<close>

abbreviation session_frames :: "captureWake list \<Rightarrow> nat" where
  "session_frames ws \<equiv> sum_list (map (\<lambda>w. packet_frames (cw_packets w)) ws)"

lemma capture_session_ok:
  assumes "8000 \<le> wf_samplesPerSec fmt" "wf_samplesPerSec fmt \<le> 768000"
  shows "capture_inv c \<Longrightarrow> length (cp_nativeMono c) + session_frames ws < 2 ^ 48 \<Longrightarrow>
    \<exists>frames c'. capture_session m fmt dev t ws c = Some (frames, c') \<and> capture_inv c' \<and>
      (\<forall>f \<in> set frames. length f = kTargetFrameSamples)"
proof (induction ws arbitrary: c t)
  case (Cons w ws)
  define proceed where "proceed = (\<lambda>frames c.
            case device_switched dev t (cw_now w) (cw_default w) of
              (True, _) \<Rightarrow> Some (frames, c)
            | (False, t') \<Rightarrow>
                Option.bind (capture_session m fmt dev t' ws c) (\<lambda>(frames', c). Some (frames @ frames', c)))"
  have go: "\<exists>fs' c'. proceed fs c1 = Some (fs', c') \<and> capture_inv c' \<and> (\<forall>f \<in> set fs'. length f = kTargetFrameSamples)"
    if "capture_inv c1" "length (cp_nativeMono c1) + session_frames ws < 2 ^ 48"
      "\<forall>f \<in> set fs. length f = kTargetFrameSamples" for c1 fs
  proof -
    obtain sw t' where d: "device_switched dev t (cw_now w) (cw_default w) = (sw, t')" by force
    from Cons.IH[OF that(1,2), of t'] obtain fs' c' where
      "capture_session m fmt dev t' ws c1 = Some (fs', c')" "capture_inv c'"
      "\<forall>f \<in> set fs'. length f = kTargetFrameSamples" by blast
    then show ?thesis using that(1,3) by (cases sw) (auto simp: proceed_def d)
  qed
  have e: "capture_session m fmt dev t (w # ws) c = (case cw_wait w of WaitBroken \<Rightarrow> Some ([], c)
         | Timeout \<Rightarrow> proceed [] c
         | Signalled \<Rightarrow>
             (case drain_packets fmt (cw_packets w) c of
                (True, c) \<Rightarrow> Some ([], c)
              | (False, c) \<Rightarrow>
                  Option.bind (resampleAndEmit m (wf_samplesPerSec fmt) c) (\<lambda>(frames, c). proceed frames c)))"
    unfolding capture_session.simps proceed_def Let_def by (rule refl)
  show ?case
  proof (cases "cw_wait w")
    case Signalled
    obtain lost c1 where d: "drain_packets fmt (cw_packets w) c = (lost, c1)" by force
    with drain_ok[OF Cons.prems(1), of fmt "cw_packets w"]
    have c1: "capture_inv c1" "length (cp_nativeMono c1) \<le> length (cp_nativeMono c) + packet_frames (cw_packets w)" by auto
    have n: "length (cp_nativeMono c1) + session_frames ws < 2 ^ 48" using c1(2) Cons.prems(2) by simp
    have "length (cp_nativeMono c1) < 2 ^ 48" using n by linarith
    from resampleAndEmit_ok[OF c1(1) assms this, of m] obtain fs c2 where
      r: "resampleAndEmit m (wf_samplesPerSec fmt) c1 = Some (fs, c2)" "capture_inv c2"
        "length (cp_nativeMono c2) \<le> length (cp_nativeMono c1)" "\<forall>f \<in> set fs. length f = kTargetFrameSamples" by blast
    have "length (cp_nativeMono c2) + session_frames ws < 2 ^ 48" using r(3) n by linarith
    from go[OF r(2) this r(4)] show ?thesis using c1(1) by (cases lost) (simp_all only: e Signalled d r(1) waitResult.case prod.case bool.case Option.bind.simps, auto)
  next
    case Timeout
    have "length (cp_nativeMono c) + session_frames ws < 2 ^ 48" using Cons.prems(2) by simp
    from go[OF Cons.prems(1) this, of "[]"] show ?thesis by (simp only: e Timeout waitResult.case) simp
  next
    case WaitBroken
    then show ?thesis using Cons.prems(1) by (simp only: e waitResult.case) simp
  qed
qed auto

text \<open>Capture never hangs and always cuts frames of exactly 20 ms: for every device format from 8 to
  768 kHz and every sequence of packets, gaps, timeouts and losses, a session returns, every frame it
  hands to the transmit path has 960 samples, and less than one frame is left over.\<close>

theorem capture_session_frames:
  assumes "8000 \<le> wf_samplesPerSec fmt" "wf_samplesPerSec fmt \<le> 768000" "session_frames ws < 2 ^ 48"
  shows "\<exists>frames c. capture_session m fmt dev t ws new_capture = Some (frames, c) \<and>
     list_all (\<lambda>f. length f = 960) frames \<and> length (cp_frameBuffer c) < 960"
proof -
  have "capture_inv new_capture" by (simp add: capture_inv_def new_capture_def kTargetFrameSamples_def kFrameSamples_def)
  from capture_session_ok[OF assms(1,2) this, of ws m dev t] assms(3) show ?thesis
    by (auto simp: new_capture_def capture_inv_def list_all_iff kTargetFrameSamples_def kFrameSamples_def)
qed

lemma capture_session_frames_witness:
  "\<exists>frames c. capture_session flat_libm \<lparr>wf_samplesPerSec = 44100, wf_channels = 2, wf_bitsPerSample = 16, wf_isFloat = False\<rparr>
       ''mic'' 0 [\<lparr>cw_wait = Signalled, cw_packets = [Packet 2000 SilentPacket, Packet 1 (DataPacket [] [5, 7])],
         cw_now = 1, cw_default = ''mic''\<rparr>] new_capture = Some (frames, c) \<and>
     list_all (\<lambda>f. length f = 960) frames"
proof -
  let ?fmt = "\<lparr>wf_samplesPerSec = 44100, wf_channels = 2, wf_bitsPerSample = 16, wf_isFloat = False\<rparr>"
  let ?ws = "[\<lparr>cw_wait = Signalled, cw_packets = [Packet 2000 SilentPacket, Packet 1 (DataPacket [] [5, 7])],
         cw_now = 1, cw_default = ''mic''\<rparr>]"
  have "8000 \<le> wf_samplesPerSec ?fmt" "wf_samplesPerSec ?fmt \<le> 768000" "session_frames ?ws < 2 ^ 48" by simp_all
  from capture_session_frames[OF this, of flat_libm "''mic''" 0] show ?thesis by blast
qed


section \<open>Pass-through at 48 kHz\<close>

lemma rep32_64:
  assumes "representable f32 x"
  shows "representable f64 x"
proof -
  have pos: "representable f64 x" if r: "representable f32 x" and x: "0 < x" for x
  proof -
    let ?e = "max (lsb_min f32) (lg2 x - int (prec f32) + 1)"
    have e: "x = of_int (rne (x / ulp f32 x)) * pow2 ?e"
      using r x by (simp add: representable_def rndq_def ulp_def)
    let ?n = "rne (x / ulp f32 x)"
    have "x < pow2 (lg2 x + 1)" by (rule lg2_bounds(2)[OF x])
    also have "pow2 (lg2 x + 1) \<le> pow2 (?e + int 24)" by (rule pow2_mono) (simp add: f32_def)
    also have "pow2 (?e + int 24) = of_int (2 ^ 24) * pow2 ?e" by (rule pow2_plus_nat)
    finally have "of_int ?n * pow2 ?e < of_int (2 ^ 24) * pow2 ?e" using e by simp
    then have "(of_int ?n :: rat) < of_int (2 ^ 24)" using pow2_pos[of ?e] by (simp only: mult_less_cancel_right_pos)
    then have "?n < 2 ^ 24" by (simp only: of_int_less_iff)
    moreover have "0 \<le> ?n" using x by (intro rne_nonneg) (simp add: less_imp_le)
    ultimately show ?thesis by (intro representableI[OF e]) (simp_all add: f32_def f64_def)
  qed
  consider "x = 0" | "0 < x" | "0 < - x" by linarith
  then show ?thesis using pos[of x] pos[of "- x"] assms by cases auto
qed

lemma fin32_bounds: "fp_wf f32 a \<Longrightarrow> is_fin a \<Longrightarrow> representable f32 (val a) \<and> \<bar>val a\<bar> < pow2 (exp_max f32 + 1) \<and>
    representable f64 (val a) \<and> \<bar>val a\<bar> < pow2 (exp_max f64 + 1)"
proof -
  assume a: "fp_wf f32 a" "is_fin a"
  then have b: "representable f32 (val a)" "\<bar>val a\<bar> < pow2 (exp_max f32 + 1)" by (cases a; simp add: f32_def)+
  have "pow2 (exp_max f32 + 1) \<le> pow2 (exp_max f64 + 1)" by (rule pow2_mono) (simp add: f32_def f64_def)
  with b rep32_64[OF b(1)] show ?thesis by auto
qed

text \<open>At a fraction of zero the interpolation gives its first point.\<close>

lemma interpolate_zero:
  assumes "fp_wf f32 a" "is_fin a" "fp_wf f32 b" "is_fin b" "is_fin fr" "val fr = 0"
  shows "feq (interpolate a b fr) a"
proof -
  note ba = fin32_bounds[OF assms(1,2)] and bb = fin32_bounds[OF assms(3,4)]
  have a64: "is_fin (to64 a)" "val (to64 a) = val a" using assms(2) fin_of_exact ba by (simp_all add: fcvt_def)
  have b64: "is_fin (to64 b)" using assms(4) fin_of_exact bb by (simp add: fcvt_def)
  have one: "representable f64 1" "\<bar>1 :: rat\<bar> < pow2 (exp_max f64 + 1)"
    using rep64_int[of 1] big64[of 1] by simp_all
  have s: "is_fin (sub64 (Fin 1) fr)" "val (sub64 (Fin 1) fr) = 1"
    using op_fin(2)[of "Fin 1" fr f64] assms(5,6) fin_of_exact[OF one] by simp_all
  have p: "is_fin (mul64 (to64 a) (sub64 (Fin 1) fr))" "val (mul64 (to64 a) (sub64 (Fin 1) fr)) = val a"
    using op_fin(3)[OF a64(1) s(1), of f64] a64(2) s(2) fin_of_exact ba by simp_all
  have ex: "is_fin (fin_of f64 q (val a))" "val (fin_of f64 q (val a)) = val a" for q
    using fin_of_exact ba by blast+
  have zero: "is_fin (fin_of f64 q 0)" "val (fin_of f64 q 0) = 0" for q
    using fin_of_exact[of f64 0 q] representable_0 pow2_pos by simp_all
  have z: "is_fin (mul64 (to64 b) fr)" "val (mul64 (to64 b) fr) = 0"
    using op_fin(3)[OF b64 assms(5), of f64] assms(6) zero by simp_all
  have q: "is_fin (add64 (mul64 (to64 a) (sub64 (Fin 1) fr)) (mul64 (to64 b) fr))"
    "val (add64 (mul64 (to64 a) (sub64 (Fin 1) fr)) (mul64 (to64 b) fr)) = val a"
    unfolding op_fin(1)[OF p(1) z(1)] p(2) z(2) add_0_right by (rule ex)+
  have "is_fin (interpolate a b fr)" "val (interpolate a b fr) = val a"
  proof -
    have e: "interpolate a b fr = fin_of f32 (signbit (add64 (mul64 (to64 a) (sub64 (Fin 1) fr)) (mul64 (to64 b) fr))) (val a)"
      unfolding interpolate_def fcvt_def[of f32] using q by simp
    show "is_fin (interpolate a b fr)" "val (interpolate a b fr) = val a"
      unfolding e using fin_of_exact ba by blast+
  qed
  then show ?thesis using assms(2) by (simp add: cmp_fin)
qed

lemma fin_of_int64: "0 < n \<Longrightarrow> n < 2 ^ 50 \<Longrightarrow> fin_of f64 q (of_int n) = Fin (of_int n)"
proof -
  assume n: "0 < n" "n < 2 ^ 50"
  then have "(of_int n :: rat) < of_int (2 ^ 50)" by (simp only: of_int_less_iff)
  then have "\<bar>of_int n :: rat\<bar> < pow2 (exp_max f64 + 1)" using n by (intro big64_50) simp_all
  moreover have "rndq f64 (of_int n) = of_int n" using n rep64_int[of n] by (simp add: representable_def)
  ultimately show ?thesis using n by (simp add: fin_of_def Let_def)
qed

lemma capture_step_48k: "capture_step 48000 = Fin 1"
  using fin_of_int64[of 48000] fin_of_int64[of 1]
  by (simp add: capture_step_def kTargetSampleRate_def of_int_fp_def op_fin(4))

lemma cursor_advance_one:
  assumes "cursor_ok x" "val x = of_nat i" "i < 2 ^ 48"
  shows "cursor_ok (add64 x (Fin 1))" "val (add64 x (Fin 1)) = of_nat (i + 1)"
proof -
  have "is_fin x" using assms(1) by (simp add: cursor_ok_def)
  then have e: "add64 x (Fin 1) = fin_of f64 (signbit x \<and> signbit (Fin 1)) (of_int (int (i + 1)))"
    using op_fin(1)[of x "Fin 1" f64] assms(2) by (simp add: add.commute)
  have le: "int (i + 1) \<le> 2 ^ 48" "0 \<le> int (i + 1)" using assms(3) by simp_all
  then have "(of_int (int (i + 1)) :: rat) \<le> of_int (2 ^ 48)" by (simp only: of_int_le_iff)
  then have b: "(of_int (int (i + 1)) :: rat) < 2 ^ 50" "(0::rat) \<le> of_int (int (i + 1))" by simp_all
  from fin_of_exact[OF rep64_int big64_50[OF b(2,1)]] le b
  show "cursor_ok (add64 x (Fin 1))" "val (add64 x (Fin 1)) = of_nat (i + 1)"
    unfolding e cursor_ok_def by (simp_all add: fin_of_wf)
qed

lemma interpolate_on_sample:
  assumes "cursor_ok x" "val x = of_nat i" "i < 2 ^ 48" "i + 1 < length xs" "\<forall>y \<in> set xs. is_fin y \<and> fp_wf f32 y"
  shows "feq (interpolate (xs ! i) (xs ! (i + 1)) (sub64 x (index_fp i))) (xs ! i)"
proof -
  have "int i < 2 ^ 53" using assms(3) by simp
  note ix = index_fp_cursor[OF this]
  have xf: "is_fin x" using assms(1) by (simp add: cursor_ok_def)
  have fr: "is_fin (sub64 x (index_fp i))" "val (sub64 x (index_fp i)) = 0"
    using op_fin(2)[OF xf ix(1), of f64] ix(2) assms(2) fin_of_exact[of f64 0] pow2_pos by simp_all
  have "xs ! i \<in> set xs" "xs ! (i + 1) \<in> set xs" using assms(4) by simp_all
  with fr assms(5) show ?thesis by (intro interpolate_zero) auto
qed

lemma passthrough_loop:
  assumes "\<forall>x \<in> set (cp_nativeMono c). is_fin x \<and> fp_wf f32 x" "length (cp_nativeMono c) < 2 ^ 48"
    "cursor_ok (cp_resampleCursor c)" "val (cp_resampleCursor c) = of_nat i" "i < length (cp_nativeMono c)"
    "length (cp_frameBuffer c) < kTargetFrameSamples"
  shows "\<exists>frames c' ys. resample_loop m (Fin 1) c = Some (frames, c') \<and>
     concat frames @ cp_frameBuffer c' = cp_frameBuffer c @ ys \<and>
     list_all2 feq ys (butlast (drop i (cp_nativeMono c))) \<and> cp_nativeMono c' = cp_nativeMono c \<and>
     cursor_ok (cp_resampleCursor c') \<and> val (cp_resampleCursor c') = of_nat (length (cp_nativeMono c) - 1)"
  using assms
proof (induction "length (cp_nativeMono c) - i" arbitrary: c i rule: less_induct)
  case less
  let ?x = "cp_resampleCursor c" and ?n = "length (cp_nativeMono c)"
  have ip: "size_cast m ?x = i" using size_cast_cursor[OF less.prems(3)] less.prems(4) by simp
  show ?case
  proof (cases "?n \<le> i + 1")
    case True
    with less.prems(5) have i: "i = ?n - 1" by linarith
    then have "length (drop i (cp_nativeMono c)) = 1" using less.prems(5) by simp
    then have "butlast (drop i (cp_nativeMono c)) = []" by (metis butlast.simps(2) length_0_conv length_Suc_conv One_nat_def)
    then show ?thesis using True ip less.prems i
      by (intro exI[of _ "[]"] exI[of _ c]) (subst resample_loop.simps, simp)
  next
    case False
    define smp where "smp = interpolate (cp_nativeMono c ! i) (cp_nativeMono c ! (i + 1)) (sub64 ?x (index_fp i))"
    define c1 where "c1 = c\<lparr>cp_resampleCursor := add64 ?x (Fin 1)\<rparr>"
    obtain em c2 where p: "push_sample smp c1 = (em, c2)" by force
    have i: "i < 2 ^ 48" using less.prems(2,5) by simp
    have q: "feq smp (cp_nativeMono c ! i)"
      unfolding smp_def using False by (intro interpolate_on_sample[OF less.prems(3,4) i _ less.prems(1)]) simp
    note nx = cursor_advance_one[OF less.prems(3,4) i]
    have c2: "cp_nativeMono c2 = cp_nativeMono c" "cp_resampleCursor c2 = add64 ?x (Fin 1)"
      "length (cp_frameBuffer c2) < kTargetFrameSamples" "concat em @ cp_frameBuffer c2 = cp_frameBuffer c @ [smp]"
      using push_sample_ok[of c1 smp] less.prems(6) p by (simp_all add: c1_def)
    have "length (cp_nativeMono c2) - (i + 1) < ?n - i" using less.prems(5) c2(1) by simp
    from less.hyps[OF this] less.prems c2 nx False obtain frames c3 ys where
      r: "resample_loop m (Fin 1) c2 = Some (frames, c3)" "concat frames @ cp_frameBuffer c3 = cp_frameBuffer c2 @ ys"
        "list_all2 feq ys (butlast (drop (i + 1) (cp_nativeMono c)))" "cp_nativeMono c3 = cp_nativeMono c"
        "cursor_ok (cp_resampleCursor c3)" "val (cp_resampleCursor c3) = of_nat (?n - 1)" by auto
    have l: "resample_loop m (Fin 1) c = Some (em @ frames, c3)"
      using False r(1) p ip by (subst resample_loop.simps) (simp add: Let_def c1_def smp_def)
    have "concat (em @ frames) @ cp_frameBuffer c3 = cp_frameBuffer c @ (smp # ys)"
      using r(2) c2(4) by (metis append.assoc append_Cons append_Nil concat_append)
    moreover have "butlast (drop i (cp_nativeMono c)) = cp_nativeMono c ! i # butlast (drop (i + 1) (cp_nativeMono c))"
      using False by (simp add: Cons_nth_drop_Suc[symmetric])
    then have "list_all2 feq (smp # ys) (butlast (drop i (cp_nativeMono c)))" using q r(3) by simp
    ultimately show ?thesis using l r(4-6) by blast
  qed
qed

text \<open>At a native rate of 48 kHz the resampler is the identity, as its comment says: the samples it adds
  to the frames are the captured ones in order, except for the last, which waits for its successor.\<close>

theorem capture_passthrough:
  assumes "\<forall>x \<in> set (cp_nativeMono c). is_fin x \<and> fp_wf f32 x" "cp_nativeMono c \<noteq> []"
    "length (cp_nativeMono c) < 2 ^ 48" "cp_resampleCursor c = Fin 0" "length (cp_frameBuffer c) < 960"
  shows "\<exists>frames c' ys. resampleAndEmit m 48000 c = Some (frames, c') \<and>
     concat frames @ cp_frameBuffer c' = cp_frameBuffer c @ ys \<and> list_all2 feq ys (butlast (cp_nativeMono c)) \<and>
     cp_nativeMono c' = [last (cp_nativeMono c)] \<and> feq (cp_resampleCursor c') (Fin 0)"
proof -
  let ?n = "length (cp_nativeMono c)"
  from passthrough_loop[of c 0 m] assms obtain frames c' ys where
    r: "resample_loop m (Fin 1) c = Some (frames, c')" "concat frames @ cp_frameBuffer c' = cp_frameBuffer c @ ys"
      "list_all2 feq ys (butlast (cp_nativeMono c))" "cp_nativeMono c' = cp_nativeMono c"
      "cursor_ok (cp_resampleCursor c')" "val (cp_resampleCursor c') = of_nat (?n - 1)"
    by (auto simp: kTargetFrameSamples_def kFrameSamples_def)
  have ip: "ipart (cp_resampleCursor c') = int (?n - 1)" using r(6) by simp
  have sc: "size_cast m (cp_resampleCursor c') = ?n - 1" using size_cast_cursor[OF r(5)] ip by simp
  have last: "drop (?n - 1) (cp_nativeMono c) = [last (cp_nativeMono c)]"
    using assms(2) by (metis append_butlast_last_id append_eq_conv_conj length_butlast)
  have d: "cp_nativeMono (drop_native m c') = [last (cp_nativeMono c)] \<and>
      feq (cp_resampleCursor (drop_native m c')) (Fin 0) \<and> cp_frameBuffer (drop_native m c') = cp_frameBuffer c'"
  proof (cases "?n = 1")
    case True
    then have "drop_native m c' = c'" using sc by (simp add: drop_native_def)
    moreover have "is_fin (cp_resampleCursor c')" using r(5) by (simp add: cursor_ok_def)
    ultimately show ?thesis using True r(4,6) last by (simp add: cmp_fin)
  next
    case False
    then have "0 < ?n - 1 \<and> ?n - 1 \<le> length (cp_nativeMono c')" using assms(2) r(4) by (cases "cp_nativeMono c") auto
    then have "drop_native m c' = c'\<lparr>cp_nativeMono := drop (?n - 1) (cp_nativeMono c'),
        cp_resampleCursor := sub64 (cp_resampleCursor c') (index_fp (?n - 1))\<rparr>"
      unfolding drop_native_def sc Let_def by (simp only: if_True simp_thms)
    moreover have "feq (sub64 (cp_resampleCursor c') (index_fp (?n - 1))) (Fin 0)"
      using cursor_consume[OF r(5)] ip r(6) by (simp add: cursor_ok_def cmp_fin)
    ultimately show ?thesis using last r(4) by simp
  qed
  show ?thesis using r d assms(2) by (auto simp: resampleAndEmit_def capture_step_48k)
qed

lemma capture_passthrough_witness:
  "\<exists>frames c' ys. resampleAndEmit flat_libm 48000 (new_capture\<lparr>cp_nativeMono := [Fin 1, Fin 0, NZero]\<rparr>) = Some (frames, c') \<and>
     concat frames @ cp_frameBuffer c' = ys \<and> list_all2 feq ys [Fin 1, Fin 0] \<and> cp_nativeMono c' = [NZero]"
proof -
  let ?c = "new_capture\<lparr>cp_nativeMono := [Fin 1, Fin 0, NZero]\<rparr>"
  have "\<forall>x \<in> set (cp_nativeMono ?c). is_fin x \<and> fp_wf f32 x"
    using representable_int[of 1 f32] by (simp add: f32_def pow2_def)
  from capture_passthrough[OF this, of flat_libm] show ?thesis by (auto simp: new_capture_def)
qed

end
