(* ===== verification/Session.thy ===== *)
theory Session
  imports NetClient Mixer Transmit Commands
begin

text \<open>
  The orchestrator of \<open>src/Voice/VoiceSession.cpp\<close>: the roster of remote clients, the cache of their
  radio transmissions, the callbacks of the network thread and the per-tick inputs and outputs. A
  callback is one function on the session; the maps keep their iteration order.
\<close>

record audibilityUpdate =
  ud_uid :: string
  ud_nickname :: string
  ud_gain :: fp
  ud_azimuth :: fp
  ud_muted :: bool
  ud_effect :: sourceEffect
  ud_errorLevel :: fp
  ud_stereoMode :: int

record radioTxInfo =
  ri_uid :: string
  ri_active :: bool
  ri_freq :: string
  ri_range :: "16 word"
  ri_subtype :: string

record txCacheEntry =
  ce_info :: radioTxInfo
  ce_receivedAt :: time

record ('d, 'e, 'n) session =
  vs_network :: net
  vs_transmit :: "('e, 'n) transmit"
  vs_playback :: "'d mixer"
  vs_uidToSession :: "(string, 32 word) umap"
  vs_nameToSession :: "(string, 32 word) umap"
  vs_lastActiveSessionIds :: "32 word list"
  vs_txCache :: "(32 word, txCacheEntry) umap"

definition kSessionTxExpiry :: time where "kSessionTxExpiry = ms 1500"

text \<open>A session after \<open>start\<close>: the placeholder identity is set, no server is.\<close>

definition start_session :: "('e, 'n) transmit \<Rightarrow> 'd mixer \<Rightarrow> ('d, 'e, 'n) session" where
  "start_session transmit playback =
     \<lparr>vs_network = setIdentity ''0'' ''TFRS'' init_net, vs_transmit = transmit, vs_playback = playback,
      vs_uidToSession = [], vs_nameToSession = [], vs_lastActiveSessionIds = [], vs_txCache = []\<rparr>"

abbreviation on_playback :: "('d mixer \<Rightarrow> 'd mixer) \<Rightarrow> ('d, 'e, 'n) session \<Rightarrow> ('d, 'e, 'n) session" where
  "on_playback f s \<equiv> s\<lparr>vs_playback := f (vs_playback s)\<rparr>"

abbreviation on_transmit :: "(('e, 'n) transmit \<Rightarrow> ('e, 'n) transmit) \<Rightarrow> ('d, 'e, 'n) session \<Rightarrow> ('d, 'e, 'n) session" where
  "on_transmit f s \<equiv> s\<lparr>vs_transmit := f (vs_transmit s)\<rparr>"

abbreviation on_network :: "(net \<Rightarrow> net) \<Rightarrow> ('d, 'e, 'n) session \<Rightarrow> ('d, 'e, 'n) session" where
  "on_network f s \<equiv> s\<lparr>vs_network := f (vs_network s)\<rparr>"

section \<open>Callbacks of the network thread\<close>

definition onVoiceFrame :: "32 word \<Rightarrow> bool \<Rightarrow> byte list \<Rightarrow> ('d, 'e, 'n) session \<Rightarrow> ('d, 'e, 'n) session" where
  "onVoiceFrame sessionId isLast opus s = on_playback (mixer_enqueue sessionId opus isLast) s"

definition onRemoteJoined :: "32 word \<Rightarrow> string \<Rightarrow> string \<Rightarrow> ('d, 'e, 'n) session \<Rightarrow> ('d, 'e, 'n) session" where
  "onRemoteJoined sessionId uid name s =
     (on_playback (addSource sessionId uid) s)
       \<lparr>vs_uidToSession := uput uid sessionId (vs_uidToSession s),
        vs_nameToSession := (if name \<noteq> [] then uput name sessionId (vs_nameToSession s) else vs_nameToSession s)\<rparr>"

text \<open>The first entry of the session, in iteration order, is erased.\<close>

definition erase_session :: "32 word \<Rightarrow> (string, 32 word) umap \<Rightarrow> (string, 32 word) umap" where
  "erase_session sessionId roster =
     (case ufind_value (\<lambda>v. v = sessionId) roster of None \<Rightarrow> roster | Some k \<Rightarrow> udel k roster)"

definition onRemoteLeft :: "32 word \<Rightarrow> ('d, 'e, 'n) session \<Rightarrow> ('d, 'e, 'n) session" where
  "onRemoteLeft sessionId s =
     (on_playback (removeSource sessionId) s)
       \<lparr>vs_uidToSession := erase_session sessionId (vs_uidToSession s),
        vs_nameToSession := erase_session sessionId (vs_nameToSession s)\<rparr>"

definition onRadioTx :: "(string \<Rightarrow> pcm) \<Rightarrow> time \<Rightarrow> 32 word \<Rightarrow> bool \<Rightarrow> string \<Rightarrow> 16 word \<Rightarrow> string \<Rightarrow>
    ('d, 'e, 'n) session \<Rightarrow> ('d, 'e, 'n) session" where
  "onRadioTx assets now senderSessionId active freq rng sub s =
     (let uid = (case ufind_value (\<lambda>v. v = senderSessionId) (vs_uidToSession s) of None \<Rightarrow> [] | Some u \<Rightarrow> u)
      in if uid = [] then s
         else
           let entry = uget (vs_txCache s) senderSessionId;
               wasActive = (entry \<noteq> None);
               lastSubtype = (case entry of None \<Rightarrow> [] | Some e \<Rightarrow> ri_subtype (ce_info e));
               s' = (if active
                     then s\<lparr>vs_txCache := uput senderSessionId
                         \<lparr>ce_info = \<lparr>ri_uid = uid, ri_active = True, ri_freq = freq, ri_range = rng, ri_subtype = sub\<rparr>,
                          ce_receivedAt = now\<rparr> (vs_txCache s)\<rparr>
                     else s\<lparr>vs_txCache := udel senderSessionId (vs_txCache s)\<rparr>)
           in if active \<and> \<not> wasActive then on_playback (triggerRemoteBeep assets senderSessionId sub True) s'
              else if \<not> active \<and> wasActive then on_playback (triggerRemoteBeep assets senderSessionId lastSubtype False) s'
              else s')"

text \<open>\<open>debug\<close> is the network client's debug flag when the callback runs.\<close>

definition onConnectionStateChanged :: "bool \<Rightarrow> bool \<Rightarrow> ('d, 'e, 'n) session \<Rightarrow> ('d, 'e, 'n) session" where
  "onConnectionStateChanged debug up s =
     (let s' = on_playback (setDebugForceAudible (up \<and> debug)) s
      in if \<not> up
         then (on_playback removeAllSources s')\<lparr>vs_uidToSession := [], vs_nameToSession := [], vs_txCache := []\<rparr>
         else s')"

definition on_event :: "(string \<Rightarrow> pcm) \<Rightarrow> time \<Rightarrow> net_event \<Rightarrow> ('d, 'e, 'n) session \<Rightarrow> ('d, 'e, 'n) session" where
  "on_event assets now ev s =
     (case ev of
        VoiceFrame sid sequence isLast opus \<Rightarrow> onVoiceFrame sid isLast opus s
      | RemoteJoined sid uid name \<Rightarrow> onRemoteJoined sid uid name s
      | RemoteLeft sid \<Rightarrow> onRemoteLeft sid s
      | RadioTx sid active freq rng sub \<Rightarrow> onRadioTx assets now sid active freq rng sub s)"

section \<open>Settings and key binds\<close>

definition session_setServer :: "string \<Rightarrow> 16 word \<Rightarrow> string \<Rightarrow> ('d, 'e, 'n) session \<Rightarrow> ('d, 'e, 'n) session" where
  "session_setServer host port password s = on_network (setServer host port password) s"

definition session_setIdentity :: "string \<Rightarrow> string \<Rightarrow> ('d, 'e, 'n) session \<Rightarrow> ('d, 'e, 'n) session" where
  "session_setIdentity uid name s = on_network (setIdentity uid name) s"

definition session_setPttHeld :: "bool \<Rightarrow> ('d, 'e, 'n) session \<Rightarrow> ('d, 'e, 'n) session" where
  "session_setPttHeld held s = on_transmit (transmit_setPttHeld held) s"

definition session_toggleMicMute :: "('d, 'e, 'n) session \<Rightarrow> ('d, 'e, 'n) session" where
  "session_toggleMicMute s = on_transmit (setMicMuted (\<not> tr_micMuted (vs_transmit s))) s"

definition session_toggleSpeakerMute :: "('d, 'e, 'n) session \<Rightarrow> ('d, 'e, 'n) session" where
  "session_toggleSpeakerMute s = on_playback (setMuted (\<not> mx_muted (vs_playback s))) s"

definition session_setAddonOverride :: "bool \<Rightarrow> bool \<Rightarrow> ('d, 'e, 'n) session \<Rightarrow> ('d, 'e, 'n) session" where
  "session_setAddonOverride hasOverride overrideValue s = on_transmit (setAddonOverride hasOverride overrideValue) s"

section \<open>Per-tick inputs and outputs\<close>

definition resolve_unit :: "audibilityUpdate \<Rightarrow> ('d, 'e, 'n) session \<Rightarrow> 32 word option" where
  "resolve_unit u s =
     (case uget (vs_uidToSession s) (ud_uid u) of
        Some sid \<Rightarrow> Some sid
      | None \<Rightarrow> if ud_nickname u \<noteq> [] then uget (vs_nameToSession s) (ud_nickname u) else None)"

definition path_of :: "audibilityUpdate \<Rightarrow> srcState" where
  "path_of u = \<lparr>rs_gain = ud_gain u, rs_azimuth = ud_azimuth u, rs_muted = ud_muted u, rs_effect = ud_effect u,
     rs_errorLevel = ud_errorLevel u, rs_stereoMode = ud_stereoMode u\<rparr>"

definition add_path :: "('d, 'e, 'n) session \<Rightarrow> audibilityUpdate \<Rightarrow> (32 word, srcState list) umap \<Rightarrow> (32 word, srcState list) umap" where
  "add_path s u paths =
     (case resolve_unit u s of
        None \<Rightarrow> paths
      | Some sid \<Rightarrow>
          uput sid ((case uget paths sid of None \<Rightarrow> [] | Some ps \<Rightarrow> ps) @ [path_of u]) paths)"

definition applyAudibility :: "audibilityUpdate list \<Rightarrow> ('d, 'e, 'n) session \<Rightarrow> ('d, 'e, 'n) session" where
  "applyAudibility units s =
     (if mx_debugForceAudible (vs_playback s) then s
      else
        let pathsBySession = fold (add_path s) units [];
            seenSessionIds = map fst pathsBySession;
            p1 = fold (\<lambda>(sid, paths). setSourceStates sid paths) pathsBySession (vs_playback s);
            p2 = fold (\<lambda>sid. if sid \<in> set seenSessionIds then id else setSourceStates sid [])
                   (vs_lastActiveSessionIds s) p1
        in s\<lparr>vs_playback := p2, vs_lastActiveSessionIds := seenSessionIds\<rparr>)"

definition session_sendRadioTx :: "bool \<Rightarrow> string \<Rightarrow> 16 word \<Rightarrow> string \<Rightarrow> ('d, 'e, 'n) session \<Rightarrow> net_out list result" where
  "session_sendRadioTx active freq rng sub s = sendRadioTx active freq rng sub (vs_network s)"

definition currentRadioTx :: "time \<Rightarrow> ('d, 'e, 'n) session \<Rightarrow> radioTxInfo list" where
  "currentRadioTx now s =
     map (\<lambda>(_, e). ce_info e) (filter (\<lambda>(_, e). now - ce_receivedAt e < kSessionTxExpiry) (vs_txCache s))"

text \<open>What the command processor sees of the session.\<close>

definition flags_of :: "('d, 'e, 'n) session \<Rightarrow> voice_flags" where
  "flags_of s = \<lparr>v_connected = n_connected (vs_network s), v_pttHeld = tr_pttHeld (vs_transmit s),
     v_micMuted = tr_micMuted (vs_transmit s), v_transmitting = tr_isTransmitting (vs_transmit s),
     v_speakerMuted = mx_muted (vs_playback s)\<rparr>"

text \<open>What a \<open>callExtension\<close> input does to the session: the dispatcher of
  \<open>src/CommandProcessor.cpp\<close> calls it for the key binds only.\<close>

definition voice_command :: "string \<Rightarrow> ('d, 'e, 'n) session \<Rightarrow> ('d, 'e, 'n) session" where
  "voice_command payload s =
     (let command = firstToken payload
      in if command = ''MICPTT'' then
           (let tokens = splitLimit payload tab 2
            in if 2 \<le> length tokens then session_setPttHeld (tokens ! 1 = ''PRESSED'') s else s)
         else if command = ''MICMUTE'' then session_toggleMicMute s
         else if command = ''SPEAKERMUTE'' then session_toggleSpeakerMute s
         else s)"

definition voice_input :: "string \<Rightarrow> ('d, 'e, 'n) session \<Rightarrow> ('d, 'e, 'n) session" where
  "voice_input input s = (if input \<noteq> [] \<and> last input = CHR ''~'' then voice_command (butlast input) s else s)"

end
