(* ===== verification/SessionProps.thy ===== *)
theory SessionProps
  imports Session CommandProps NetProps MixerProps TransmitProps
begin

text \<open>
  Properties of the voice session: the order in which the network thread calls back, what is left of
  a session without a connection, the full-replace contract of the per-tick snapshot, and the
  refinement of the key binds the command processor uses.
\<close>

section \<open>The callback protocol\<close>

text \<open>The state of the connection as the receiver of the callbacks knows it; \<open>None\<close> is a callback out
  of order: two equal transitions in a row, or an event without a connection.\<close>

fun protocol :: "bool \<Rightarrow> net_out list \<Rightarrow> bool option" where
  "protocol up [] = Some up"
| "protocol up (Raised e # os) = (if up then protocol up os else None)"
| "protocol up (StateChanged b # os) = (if b = up then None else protocol b os)"
| "protocol up (Sent p # os) = protocol up os"
| "protocol up (Slept t # os) = protocol up os"

lemma protocol_append: "protocol up (xs @ ys) = Option.bind (protocol up xs) (\<lambda>up'. protocol up' ys)"
  by (induction up xs rule: protocol.induct) auto

definition quiet :: "net_out list \<Rightarrow> bool" where
  "quiet os \<longleftrightarrow> (\<forall>x \<in> set os. \<exists>p t. x = Sent p \<or> x = Slept t)"

lemma protocol_quiet: "quiet os \<Longrightarrow> protocol up os = Some up"
  unfolding quiet_def by (induction up os rule: protocol.induct) auto

lemma quiet_simps [simp]:
  "quiet []" "quiet (x # os) \<longleftrightarrow> (\<exists>p t. x = Sent p \<or> x = Slept t) \<and> quiet os" "quiet (xs @ ys) \<longleftrightarrow> quiet xs \<and> quiet ys"
  by (auto simp: quiet_def)

lemma quiet_sendRaw [simp]: "quiet (sendRaw p n)" "quiet (requestRoster n)"
  by (simp_all add: sendRaw_def requestRoster_def)

lemma protocol_sends [simp]: "protocol up (sendRaw p n) = Some up" "protocol up (requestRoster n) = Some up"
  by (simp_all add: protocol_quiet)

lemma quiet_attempts: "attempts packet env i k n = (os, r, n') \<Longrightarrow> quiet os"
  using attempts_frame[of packet env i k n os r n'] by (auto simp: quiet_def)

lemma handshake_quiet:
  assumes "tryHandshake sha256 env config idt n = Inr (os, ok, n')"
  shows "quiet os" "n_connected n' = n_connected n"
proof -
  show "n_connected n' = n_connected n" using tryHandshake_frame[OF assms] by (simp add: same_config_def)
  show "quiet os" using assms by (cases rule: tryHandshake_cases) (auto dest: quiet_attempts)
qed

lemma connect_protocol:
  assumes "connect_step sha256 env config idt n = Inr (os, n')" "\<not> n_connected n"
  shows "protocol False os = Some (n_connected n')"
proof -
  obtain os' ok m where t: "tryHandshake sha256 (te_attempts env) config idt n = Inr (os', ok, m)"
    using assms(1) by (auto simp: connect_step_def rbind_Inr_iff)
  note q = handshake_quiet[OF t]
  show ?thesis
    using assms t protocol_quiet[OF q(1), of False] q(2)
    by (auto simp: connect_step_def setConnected_def closeSocket_def protocol_append Let_def split: if_splits)
qed

lemma pump_protocol:
  assumes "pumpReceive rs n = (os, n')"
  shows "protocol True os = Some True" "n_connected n' = n_connected n"
proof -
  have "protocol True (concat (map raised_by trs)) = Some True" for trs
  proof (induction trs)
    case (Cons tr trs)
    have "protocol True (raised_by tr) = Some True"
      by (simp add: raised_by_def split: recv.split sum.split option.split)
    with Cons show ?case by (simp add: protocol_append)
  qed simp
  then show "protocol True os = Some True" using assms by (auto simp: pumpReceive_def pump_eq)
  show "n_connected n' = n_connected n" using arg_cong[OF pumpReceive_frame(1)[OF assms], of n_connected] by simp
qed

lemma rest_protocol:
  assumes "rest_step env n = Inr (os, n')" "n_connected n"
  shows "protocol True os = Some (n_connected n')"
proof -
  obtain os3 n3 where p: "pumpReceive (te_recvs env) n = (os3, n3)" by force
  note pp = pump_protocol[OF p]
  show ?thesis
    using assms pp rest_step_running[OF _ p]
    by (cases "te_running env")
      (auto simp: rest_step_def p watchdog_step_def setConnected_def closeSocket_def protocol_append Let_def
        split: if_splits)
qed

lemma thread_protocol:
  assumes "thread_step sha256 env n = Inr (os, n')"
  shows "protocol (n_connected n) os = Some (n_connected n')"
proof (cases "NetProps.configured n")
  case False
  then show ?thesis using assms by (auto simp: thread_step_def NetProps.configured_def Let_def)
next
  case True
  obtain os1 n1 where d: "drop_step n = (os1, n1)" by force
  have dr: "protocol (n_connected n) os1 = Some (n_connected n1)"
    using d by (auto simp: drop_step_def setConnected_def closeSocket_def split: if_splits)
  from assms obtain os2 n2 where c:
    "(if \<not> n_connected n1 then connect_step sha256 env (n_config n) (n_identity n) n1 else Inr ([], n1)) = Inr (os2, n2)"
    "(if \<not> n_connected n2 then Inr (os1 @ os2, n2)
      else rbind (rest_step env n2) (\<lambda>(os3, n3). Inr (os1 @ os2 @ os3, n3))) = Inr (os, n')"
    by (auto simp: thread_step_alt[OF True] d rbind_Inr_iff)
  have "protocol (n_connected n1) os2 = Some (n_connected n2)"
    using c(1) connect_protocol by (auto split: if_splits)
  with dr c(2) show ?thesis
    by (auto simp: rbind_Inr_iff protocol_append dest: rest_protocol split: if_splits)
qed

text \<open>The worker's iterations, with what other threads do to the client in between.\<close>

datatype net_op = Iterate thread_env | SetServer string "16 word" string | SetIdentity string string
  | SendVoice "byte list" bool

fun net_run :: "(string \<Rightarrow> byte list option) \<Rightarrow> net_op list \<Rightarrow> net \<Rightarrow> (net_out list \<times> net) result" where
  "net_run sha256 [] n = Inr ([], n)"
| "net_run sha256 (Iterate env # ops) n =
     rbind (thread_step sha256 env n) (\<lambda>(os, n). rbind (net_run sha256 ops n) (\<lambda>(os', n). Inr (os @ os', n)))"
| "net_run sha256 (SetServer host port password # ops) n = net_run sha256 ops (setServer host port password n)"
| "net_run sha256 (SetIdentity uid name # ops) n = net_run sha256 ops (setIdentity uid name n)"
| "net_run sha256 (SendVoice opus isLast # ops) n =
     rbind (sendVoiceFrame opus isLast n) (\<lambda>(os, n). rbind (net_run sha256 ops n) (\<lambda>(os', n). Inr (os @ os', n)))"

lemma sendVoice_protocol:
  assumes "sendVoiceFrame opus isLast n = Inr (os, n')"
  shows "protocol up os = Some up" "n_connected n' = n_connected n"
  using assms by (auto simp: sendVoiceFrame_def Let_def rbind_Inr_iff split: if_splits)

lemma run_protocol:
  "net_run sha256 ops n = Inr (os, n') \<Longrightarrow> protocol (n_connected n) os = Some (n_connected n')"
proof (induction sha256 ops n arbitrary: os rule: net_run.induct)
  case (2 sha256 env ops n)
  then show ?case by (fastforce simp: rbind_Inr_iff protocol_append dest: thread_protocol)
next
  case (5 sha256 opus isLast ops n)
  then obtain os1 m os2 where "sendVoiceFrame opus isLast n = Inr (os1, m)" "net_run sha256 ops m = Inr (os2, n')"
    "os = os1 @ os2" by (auto simp: rbind_Inr_iff)
  with 5(1)[of m os2] sendVoice_protocol[of opus isLast n os1 m] show ?case by (simp add: protocol_append)
qed (simp_all add: setServer_def setIdentity_def)

text \<open>C31. The callbacks come in order: in every run of the worker thread, interleaved with configuration
  changes and voice frames of other threads, "connected" and "disconnected" strictly alternate,
  beginning with "connected", no packet of the server is reported without a connection, and what was
  reported last is whether the client is connected.\<close>

theorem callbacks_alternate:
  assumes "net_run sha256 ops init_net = Inr (os, n)"
  shows "protocol False os = Some (n_connected n)"
  using run_protocol[OF assms] by (simp add: init_net_def)

lemma callbacks_alternate_witness:
  "\<exists>os n. net_run zero_sha [SetServer ''relay'' 9987 [], SetIdentity ''u1'' ''Ann'', Iterate server_env] init_net =
     Inr (os, n) \<and> protocol False os = Some True"
proof -
  obtain os where "thread_step zero_sha server_env client = Inr (os, client_on)"
    using client_connects by (cases "thread_step zero_sha server_env client") auto
  then have "net_run zero_sha [SetServer ''relay'' 9987 [], SetIdentity ''u1'' ''Ann'', Iterate server_env] init_net =
     Inr (os, client_on)" by (simp add: client_def)
  from callbacks_alternate[OF this] this show ?thesis by (auto simp: client_on_def)
qed

section \<open>What a session does between two snapshots\<close>

text \<open>One output of the network client as the session receives it; \<open>debug\<close> is the client's debug flag
  when the callback reads it.\<close>

fun deliver :: "(string \<Rightarrow> pcm) \<Rightarrow> time \<Rightarrow> bool \<Rightarrow> net_out \<Rightarrow> ('d, 'e, 'n) session \<Rightarrow> ('d, 'e, 'n) session" where
  "deliver assets now debug (Raised ev) s = on_event assets now ev s"
| "deliver assets now debug (StateChanged up) s = onConnectionStateChanged debug up s"
| "deliver assets now debug (Sent p) s = s"
| "deliver assets now debug (Slept t) s = s"

text \<open>
  Every interleaving of the threads: callbacks in the order of the protocol, snapshots and settings of
  the sender thread, the render thread, and anything the network client and the capture thread do to
  their own parts. The flag is the connection state last reported.
\<close>

inductive session_step ::
    "libm \<Rightarrow> 'd opus_decode \<Rightarrow> (string \<Rightarrow> pcm) \<Rightarrow> bool \<times> ('d, 'e, 'n) session \<Rightarrow> bool \<times> ('d, 'e, 'n) session \<Rightarrow> bool"
  for m :: libm and dec :: "'d opus_decode" and assets :: "string \<Rightarrow> pcm" where
  callback: "protocol up [out] = Some up' \<Longrightarrow> session_step m dec assets (up, s) (up', deliver assets now debug out s)"
| snapshot: "session_step m dec assets (up, s) (up, applyAudibility units s)"
| network: "session_step m dec assets (up, s) (up, s\<lparr>vs_network := n\<rparr>)"
| capture: "session_step m dec assets (up, s) (up, s\<lparr>vs_transmit := t\<rparr>)"
| render: "fill_buffer m dec fmt k (vs_playback s) = Some (b, x) \<Longrightarrow>
    session_step m dec assets (up, s) (up, s\<lparr>vs_playback := x\<rparr>)"
| reopen: "session_step m dec assets (up, s) (up, on_playback (\<lambda>x. snd (after_session rendered c x)) s)"
| volume: "session_step m dec assets (up, s) (up, on_playback (setMasterVolume v) s)"
| mute: "session_step m dec assets (up, s) (up, on_playback (setMuted b) s)"
| cue: "session_step m dec assets (up, s) (up, on_playback (triggerLocalBeep assets subtype b) s)"

abbreviation session_reaches ::
    "libm \<Rightarrow> 'd opus_decode \<Rightarrow> (string \<Rightarrow> pcm) \<Rightarrow> bool \<times> ('d, 'e, 'n) session \<Rightarrow> bool \<times> ('d, 'e, 'n) session \<Rightarrow> bool" where
  "session_reaches m dec assets \<equiv> (session_step m dec assets)\<^sup>*\<^sup>*"

text \<open>The paths of the sources, the only thing a snapshot sets, by session.\<close>

definition paths :: "'d mixer \<Rightarrow> (32 word \<times> srcState list) list" where
  "paths x = map (\<lambda>(sid, s). (sid, so_states s)) (mx_sources x)"

lemma paths_keys: "ukeys (paths x) = ukeys (mx_sources x)"
  by (simp add: paths_def comp_def case_prod_unfold)

lemma map_sources_put:
  "uget srcs sid = Some v \<Longrightarrow> uwf srcs \<Longrightarrow>
     uput sid (f v) srcs = map (\<lambda>(k, w). (k, if k = sid then f w else w)) srcs"
  by (induction srcs) (auto simp: uwf_def split: if_splits intro!: map_idI[symmetric], metis fst_conv image_eqI)

lemma on_source_sources:
  "uwf (mx_sources x) \<Longrightarrow>
     mx_sources (on_source sid f x) = map (\<lambda>(k, v). (k, if k = sid then f v else v)) (mx_sources x)"
  by (auto simp: on_source_def map_sources_put uget_None_iff image_iff split: option.split intro!: map_idI[symmetric])

text \<open>Rendering leaves the paths alone.\<close>

lemma render_voice_states:
  assumes "render_voice m dec n s = Some r"
  shows "so_states (snd r) = so_states s"
proof (rule render_voice.raw_induct[where P = "\<lambda>m dec n s r. so_states (snd r) = so_states s", OF _ assms], goal_cases)
  case (1 rv m dec n s r)
  have p: "so_states s' = so_states s" if "tryProduceNextFrame m dec s = (b, s')" for b s'
    using produce_states[of m dec s] that by simp
  have ih: "rv m dec n s = Some (out, s') \<Longrightarrow> so_states s' = so_states s" for m dec n s out s'
    using 1(1)[of m dec n s "(out, s')"] by simp
  from 1(2) show ?case
    by (auto simp: Let_def p bind_eq_Some_conv dest!: ih split: if_splits prod.splits bool.splits)
qed

lemma take_beep_states [simp]: "so_states (take_beep s) = so_states s"
  by (simp add: take_beep_def split: option.split)

lemma render_beep_states: "so_states (snd (render_beep m n out s)) = so_states s"
  by (simp add: render_beep_def Let_def split: option.split prod.split)

lemma render_states:
  assumes "render m dec n s = Some (out, s')"
  shows "so_states s' = so_states s"
proof -
  obtain out0 s0 where r: "render_voice m dec n s = Some (out0, s0)" "render_beep m n out0 s0 = (out, s')"
    using assms by (auto simp: render_def bind_eq_Some_conv)
  from render_voice_states[OF r(1)] render_beep_states[of m n out0 s0] r(2) show ?thesis by simp
qed

lemma mix_sources_paths:
  "mix_sources m dec srcs mix = Some (mix', srcs') \<Longrightarrow>
     map (\<lambda>(sid, s). (sid, so_states s)) srcs' = map (\<lambda>(sid, s). (sid, so_states s)) srcs"
  by (induction m dec srcs mix arbitrary: mix' srcs' rule: mix_sources.induct)
    (auto simp: bind_eq_Some_conv dest: render_states)

definition same_paths :: "'d mixer \<Rightarrow> 'd mixer \<Rightarrow> bool" where
  "same_paths x x' \<longleftrightarrow> paths x' = paths x \<and> mx_debugForceAudible x' = mx_debugForceAudible x"

lemma same_paths_refl [simp]: "same_paths x x"
  by (simp add: same_paths_def)

lemma same_paths_trans: "same_paths x y \<Longrightarrow> same_paths y z \<Longrightarrow> same_paths x z"
  by (simp add: same_paths_def)

lemma same_paths_upd [simp]:
  "same_paths x (x'\<lparr>mx_resampleCursor := c\<rparr>) = same_paths x x'"
  "same_paths (x\<lparr>mx_resampleCursor := c\<rparr>) x' = same_paths x x'"
  "same_paths x (x'\<lparr>mx_mixed48k := mix\<rparr>) = same_paths x x'"
  "same_paths x (x'\<lparr>mx_masterVolume := v\<rparr>) = same_paths x x'"
  "same_paths x (x'\<lparr>mx_muted := b\<rparr>) = same_paths x x'"
  "same_paths x (x'\<lparr>mx_localBeepSamples := ps, mx_localBeepTotal := t, mx_localBeepPos := k\<rparr>) = same_paths x x'"
  by (simp_all add: same_paths_def paths_def)

lemma generateChunk_paths:
  assumes "generateChunk m dec x = Some x'"
  shows "same_paths x x'"
proof -
  obtain mix srcs mix1 y where ms: "mix_sources m dec (mx_sources x) (replicate (kChunkFrames * 2) (Fin 0)) = Some (mix, srcs)"
    and y: "mix_local_beep mix (x\<lparr>mx_sources := srcs\<rparr>) = (mix1, y)"
    using assms by (auto simp: generateChunk_def bind_eq_Some_conv) force
  define mix2 where "mix2 = map (limit_sample (mx_masterVolume y) (mx_muted y)) mix1"
  define z where "z = phantom_check mix2 y"
  have x': "x' = z\<lparr>mx_mixed48k := mx_mixed48k z @ mix2\<rparr>"
    using assms ms y by (simp add: generateChunk_def z_def mix2_def Let_def)
  have "same_paths x (x\<lparr>mx_sources := srcs\<rparr>)"
    using mix_sources_paths[OF ms] by (simp add: same_paths_def paths_def)
  moreover have "same_paths (x\<lparr>mx_sources := srcs\<rparr>) y"
    using y by (auto simp: mix_local_beep_def Let_def same_paths_def paths_def split: if_splits)
  moreover have "same_paths y z"
    by (simp add: z_def phantom_check_def same_paths_def paths_def)
  ultimately have "same_paths x z" using same_paths_trans by blast
  then show ?thesis by (simp add: x')
qed

lemma top_up_paths:
  assumes "top_up m dec x = Some x'"
  shows "same_paths x x'"
proof (rule top_up.raw_induct[where P = "\<lambda>m dec. same_paths" and xa = "((m, dec), x)" and y = x', unfolded prod.case],
    goal_cases)
  case (1 tu m dec x x')
  then show ?case
  proof (cases "length (mx_mixed48k x) div 2 \<le> size_cast m (mx_resampleCursor x) + 1")
    case True
    with 1(2) obtain y where "generateChunk m dec x = Some y" "tu m dec y = Some x'"
      by (auto simp: bind_eq_Some_conv)
    then show ?thesis using 1(1) generateChunk_paths same_paths_trans by blast
  qed simp
qed (rule assms)

lemma device_frames_paths: "device_frames m dec step k x = Some (frs, x') \<Longrightarrow> same_paths x x'"
proof (induction k arbitrary: x frs)
  case (Suc k)
  then obtain fr y frs' where "device_frame m dec step x = Some (fr, y)" "device_frames m dec step k y = Some (frs', x')"
    by (auto simp: bind_eq_Some_conv)
  with Suc.IH have "same_paths x y" "same_paths y x'"
    by (auto simp: device_frame_def Let_def bind_eq_Some_conv dest!: top_up_paths)
  then show ?case by (rule same_paths_trans)
qed simp

lemma fill_buffer_paths: "fill_buffer m dec fmt k x = Some (b, x') \<Longrightarrow> same_paths x x'"
  by (auto simp: fill_buffer_def bind_eq_Some_conv drop_consumed_def Let_def dest!: device_frames_paths split: if_splits)

text \<open>What the other operations of the mixer do to the paths.\<close>

lemma uput_absent: "k \<notin> set (ukeys m) \<Longrightarrow> uput k v m = m @ [(k, v)]"
  by (induction k v m rule: uput.induct) auto

lemma paths_addSource:
  "paths (addSource sid uid x) =
     (if sid \<in> set (ukeys (paths x)) then paths x
      else paths x @ [(sid, if mx_debugForceAudible x then [forced_path] else [])])"
  "mx_debugForceAudible (addSource sid uid x) = mx_debugForceAudible x"
  using paths_keys[of x]
  by (auto simp: addSource_def uget_None_iff uput_absent paths_def new_source_def setStates_def Let_def
      split: prod.splits)

lemma same_paths_on_source:
  assumes "\<And>s. so_states (f s) = so_states s" "uwf (mx_sources x)"
  shows "same_paths x (on_source sid f x)"
proof -
  have "mx_debugForceAudible (on_source sid f x) = mx_debugForceAudible x"
    by (simp add: on_source_def split: option.split)
  with assms show ?thesis by (simp add: same_paths_def paths_def on_source_sources case_prod_unfold)
qed

lemma paths_udel: "map (\<lambda>(k, v). (k, g v)) (udel sid m) = udel sid (map (\<lambda>(k, v). (k, g v)) m)"
  by (induction sid m rule: udel.induct) auto

lemma paths_removeSource:
  "paths (removeSource sid x) = udel sid (paths x)" "mx_debugForceAudible (removeSource sid x) = mx_debugForceAudible x"
  by (simp_all add: removeSource_def paths_def paths_udel)

definition session_inv :: "bool \<times> ('d, 'e, 'n) session \<Rightarrow> bool" where
  "session_inv us \<longleftrightarrow> (case us of (up, s) \<Rightarrow>
     uwf (mx_sources (vs_playback s)) \<and>
     (\<not> up \<longrightarrow> mx_sources (vs_playback s) = [] \<and> \<not> mx_debugForceAudible (vs_playback s) \<and>
        vs_uidToSession s = [] \<and> vs_nameToSession s = [] \<and> vs_txCache s = []) \<and>
     (\<not> mx_debugForceAudible (vs_playback s) \<longrightarrow>
        (\<forall>(sid, sts) \<in> set (paths (vs_playback s)). sid \<notin> set (vs_lastActiveSessionIds s) \<longrightarrow> sts = [])))"

lemma uwf_paths: "uwf (paths x) = uwf (mx_sources x)"
  by (simp add: uwf_def paths_keys)

lemma same_paths_sources:
  assumes "same_paths x x'"
  shows "uwf (mx_sources x') = uwf (mx_sources x)" "mx_sources x' = [] \<longleftrightarrow> mx_sources x = []"
    "paths x' = paths x" "mx_debugForceAudible x' = mx_debugForceAudible x"
  using assms uwf_paths[of x] uwf_paths[of x'] by (auto simp: same_paths_def paths_def)

lemma session_inv_same:
  assumes "session_inv (up, s)" "same_paths (vs_playback s) x"
  shows "session_inv (up, s\<lparr>vs_playback := x\<rparr>)"
  using assms(1) same_paths_sources[OF assms(2)] by (simp add: session_inv_def)

lemma set_udel_subset: "set (udel k m) \<subseteq> set m"
  using in_udelD by fast

lemma same_paths_setters:
  "same_paths x (setMasterVolume v x)" "same_paths x (setMuted b x)" "same_paths x (triggerLocalBeep assets st b x)"
  "same_paths x (snd (after_session rendered c x))"
  "uwf (mx_sources x) \<Longrightarrow> same_paths x (triggerRemoteBeep assets sid st b x)"
  "uwf (mx_sources x) \<Longrightarrow> same_paths x (mixer_enqueue sid opus l x)"
  by (auto simp: setMasterVolume_def setMuted_def triggerLocalBeep_def after_session_def triggerRemoteBeep_def
      mixer_enqueue_def enqueueOpusFrame_def triggerBeep_def Let_def split: option.split intro!: same_paths_on_source)

section \<open>The snapshot\<close>

lemma on_source_frame [simp]:
  "mx_debugForceAudible (on_source sid f x) = mx_debugForceAudible x"
  "uwf (mx_sources x) \<Longrightarrow> uwf (mx_sources (on_source sid f x))"
  by (auto simp: on_source_def split: option.split)

lemma fold_states:
  assumes "uwf kvs" "uwf (mx_sources x)"
  shows "mx_sources (fold (\<lambda>(sid, ps). setSourceStates sid ps) kvs x) =
      map (\<lambda>(k, v). (k, case uget kvs k of None \<Rightarrow> v | Some ps \<Rightarrow> setStates ps v)) (mx_sources x) \<and>
    mx_debugForceAudible (fold (\<lambda>(sid, ps). setSourceStates sid ps) kvs x) = mx_debugForceAudible x"
  using assms
proof (induction kvs arbitrary: x)
  case (Cons kv kvs)
  obtain sid ps where kv: "kv = (sid, ps)" by force
  let ?y = "setSourceStates sid ps x"
  have wf: "uwf kvs" "uwf (mx_sources ?y)" "uget kvs sid = None"
    using Cons.prems by (auto simp: kv uwf_def[of "_ # _"] uwf_def[of kvs] uget_None_iff setSourceStates_def)
  have src: "mx_sources ?y = map (\<lambda>(k, v). (k, if k = sid then setStates ps v else v)) (mx_sources x)"
    unfolding setSourceStates_def by (rule on_source_sources[OF Cons.prems(2)])
  have debug: "mx_debugForceAudible ?y = mx_debugForceAudible x" by (simp add: setSourceStates_def)
  from Cons.IH[OF wf(1,2)] wf(3) show ?case
    unfolding src debug by (auto simp: kv split: option.split)
qed (simp add: case_prod_unfold)

lemma fold_silence:
  assumes "uwf (mx_sources x)"
  shows "mx_sources (fold (\<lambda>sid. if sid \<in> S then id else setSourceStates sid []) ids x) =
      map (\<lambda>(k, v). (k, if k \<in> set ids \<and> k \<notin> S then setStates [] v else v)) (mx_sources x) \<and>
    mx_debugForceAudible (fold (\<lambda>sid. if sid \<in> S then id else setSourceStates sid []) ids x) = mx_debugForceAudible x"
  using assms
proof (induction ids arbitrary: x)
  case (Cons sid ids)
  show ?case
  proof (cases "sid \<in> S")
    case True
    with Cons.IH[OF Cons.prems] show ?thesis by auto
  next
    case False
    let ?y = "setSourceStates sid [] x"
    have wf: "uwf (mx_sources ?y)" using Cons.prems by (simp add: setSourceStates_def)
    have src: "mx_sources ?y = map (\<lambda>(k, v). (k, if k = sid then setStates [] v else v)) (mx_sources x)"
      unfolding setSourceStates_def by (rule on_source_sources[OF Cons.prems])
    have debug: "mx_debugForceAudible ?y = mx_debugForceAudible x" by (simp add: setSourceStates_def)
    from Cons.IH[OF wf] False show ?thesis
      unfolding src debug by (auto simp: setStates_def)
  qed
qed (simp add: case_prod_unfold)

text \<open>The paths of one session among the units of a snapshot.\<close>

definition heard_as :: "audibilityUpdate list \<Rightarrow> ('d, 'e, 'n) session \<Rightarrow> 32 word \<Rightarrow> srcState list" where
  "heard_as units s sid = map path_of (filter (\<lambda>u. resolve_unit u s = Some sid) units)"

lemma fold_add_path:
  assumes "uwf acc"
  shows "uwf (fold (add_path s) units acc) \<and>
    uget (fold (add_path s) units acc) sid =
      (if heard_as units s sid = [] then uget acc sid
       else Some ((case uget acc sid of None \<Rightarrow> [] | Some ps \<Rightarrow> ps) @ heard_as units s sid))"
  using assms
proof (induction units arbitrary: acc)
  case (Cons u units)
  have wf: "uwf (add_path s u acc)" using Cons.prems by (simp add: add_path_def split: option.split)
  have "heard_as (u # units) s sid = (if resolve_unit u s = Some sid then [path_of u] else []) @ heard_as units s sid"
    by (simp add: heard_as_def)
  moreover have "uget (add_path s u acc) sid = (if resolve_unit u s = Some sid
      then Some ((case uget acc sid of None \<Rightarrow> [] | Some ps \<Rightarrow> ps) @ [path_of u]) else uget acc sid)"
    by (simp add: add_path_def umap_simps split: option.split)
  ultimately show ?case using Cons.IH[OF wf] by simp
qed (simp add: heard_as_def)

lemma applyAudibility_sources:
  assumes "uwf (mx_sources (vs_playback s))" "\<not> mx_debugForceAudible (vs_playback s)"
  shows "mx_sources (vs_playback (applyAudibility units s)) =
      map (\<lambda>(sid, src). (sid, if heard_as units s sid \<noteq> [] \<or> sid \<in> set (vs_lastActiveSessionIds s)
        then setStates (heard_as units s sid) src else src)) (mx_sources (vs_playback s))"
    "mx_debugForceAudible (vs_playback (applyAudibility units s)) = mx_debugForceAudible (vs_playback s)"
    "sid \<in> set (vs_lastActiveSessionIds (applyAudibility units s)) \<longleftrightarrow> heard_as units s sid \<noteq> []"
proof -
  define kvs where "kvs = fold (add_path s) units []"
  have kvs: "uwf kvs" "\<And>sid. uget kvs sid = (if heard_as units s sid = [] then None else Some (heard_as units s sid))"
    unfolding kvs_def by (simp_all add: fold_add_path)
  have key: "sid \<in> fst ` set kvs \<longleftrightarrow> heard_as units s sid \<noteq> []" for sid
    using kvs(2)[of sid] uget_None_iff[of kvs sid] by (auto split: if_splits)
  let ?x = "fold (\<lambda>(sid, ps). setSourceStates sid ps) kvs (vs_playback s)"
  note st = fold_states[OF kvs(1) assms(1)]
  have wf: "uwf (mx_sources ?x)" using assms(1) by (subst conjunct1[OF st]) (simp add: uwf_def comp_def case_prod_unfold)
  note si = fold_silence[OF wf, where S = "fst ` set kvs" and ids = "vs_lastActiveSessionIds s"]
  have ap: "applyAudibility units s = s\<lparr>vs_playback := fold (\<lambda>sid. if sid \<in> fst ` set kvs then id else setSourceStates sid [])
      (vs_lastActiveSessionIds s) ?x, vs_lastActiveSessionIds := map fst kvs\<rparr>"
    using assms(2) by (simp add: applyAudibility_def Let_def kvs_def)
  have pl: "vs_playback (applyAudibility units s) = fold (\<lambda>sid. if sid \<in> fst ` set kvs then id else setSourceStates sid [])
      (vs_lastActiveSessionIds s) ?x" by (simp add: ap)
  show "mx_sources (vs_playback (applyAudibility units s)) =
      map (\<lambda>(sid, src). (sid, if heard_as units s sid \<noteq> [] \<or> sid \<in> set (vs_lastActiveSessionIds s)
        then setStates (heard_as units s sid) src else src)) (mx_sources (vs_playback s))"
    unfolding pl conjunct1[OF si] conjunct1[OF st] by (auto simp: key kvs(2) setStates_def)
  show "mx_debugForceAudible (vs_playback (applyAudibility units s)) = mx_debugForceAudible (vs_playback s)"
    unfolding ap by (simp add: si st)
  show "sid \<in> set (vs_lastActiveSessionIds (applyAudibility units s)) \<longleftrightarrow> heard_as units s sid \<noteq> []"
    unfolding ap by (simp add: key)
qed

lemma applyAudibility_inv:
  assumes "session_inv (up, s)"
  shows "session_inv (up, applyAudibility units s)"
proof (cases "mx_debugForceAudible (vs_playback s)")
  case True
  then show ?thesis using assms by (simp add: applyAudibility_def)
next
  case False
  have inv: "uwf (mx_sources (vs_playback s))"
    "\<And>sid src. (sid, src) \<in> set (mx_sources (vs_playback s)) \<Longrightarrow> sid \<notin> set (vs_lastActiveSessionIds s) \<Longrightarrow> so_states src = []"
    using assms False by (auto simp: session_inv_def paths_def)
  note ap = applyAudibility_sources[OF inv(1) False, where units = units]
  have roster: "vs_uidToSession (applyAudibility units s) = vs_uidToSession s"
    "vs_nameToSession (applyAudibility units s) = vs_nameToSession s" "vs_txCache (applyAudibility units s) = vs_txCache s"
    by (simp_all add: applyAudibility_def Let_def)
  have "uwf (mx_sources (vs_playback (applyAudibility units s)))"
    using inv(1) by (simp add: ap(1) uwf_def comp_def case_prod_unfold)
  with assms roster inv(2) show ?thesis
    by (auto simp: session_inv_def ap paths_def setStates_def split: if_splits)
qed

lemma addSource_inv:
  assumes "session_inv (True, s)"
  shows "session_inv (True, onRemoteJoined sid uid name s)"
proof -
  have "uwf (mx_sources (addSource sid uid (vs_playback s)))"
    using assms by (auto simp: session_inv_def addSource_def Let_def split: prod.split)
  with assms show ?thesis
    by (auto simp: session_inv_def onRemoteJoined_def paths_addSource)
qed

lemma removeSource_inv:
  assumes "session_inv (True, s)"
  shows "session_inv (True, onRemoteLeft sid s)"
proof -
  have "uwf (mx_sources (removeSource sid (vs_playback s)))"
    using assms by (simp add: session_inv_def removeSource_def)
  with assms set_udel_subset[of sid "paths (vs_playback s)"] show ?thesis
    by (auto simp: session_inv_def onRemoteLeft_def paths_removeSource)
qed

lemma deliver_inv:
  assumes "session_inv (up, s)" "protocol up [out] = Some up'"
  shows "session_inv (up', deliver assets now debug out s)"
proof (cases out)
  case (Raised ev)
  with assms have up: "session_inv (True, s)" "up' = True" by (auto split: if_splits)
  have wf: "uwf (mx_sources (vs_playback s))" using up(1) by (simp add: session_inv_def)
  have tx: "session_inv (True, s\<lparr>vs_playback := x, vs_txCache := c\<rparr>)" if "same_paths (vs_playback s) x" for x c
    using session_inv_same[OF up(1) that] by (simp add: session_inv_def)
  have tx': "session_inv (True, s\<lparr>vs_txCache := c\<rparr>)" for c using up(1) by (simp add: session_inv_def)
  show ?thesis
    unfolding Raised up(2) deliver.simps
    by (cases ev) (auto simp: on_event_def onVoiceFrame_def onRadioTx_def Let_def
        intro!: addSource_inv removeSource_inv session_inv_same up(1) tx tx' same_paths_setters wf
        split: option.split)
next
  case (StateChanged b)
  with assms show ?thesis
    by (auto simp: onConnectionStateChanged_def session_inv_def removeAllSources_def setDebugForceAudible_def
        paths_def Let_def split: if_splits)
qed (use assms in simp_all)

lemma session_step_inv: "session_step m dec assets us us' \<Longrightarrow> session_inv us \<Longrightarrow> session_inv us'"
proof (induction rule: session_step.induct)
  case (callback up out up' s now debug)
  then show ?case using deliver_inv by blast
next
  case (snapshot up s units)
  then show ?case by (rule applyAudibility_inv)
qed (auto intro: session_inv_same same_paths_setters fill_buffer_paths, simp_all add: session_inv_def)

interpretation session_system:
  transition_system "session_step m dec assets" "\<lambda>us. \<exists>t spawn. us = (False, start_session t (new_mixer spawn))" session_inv
  for m dec assets
proof
  fix us :: "bool \<times> ('d, 'e, 'n) session"
  assume "\<exists>t spawn. us = (False, start_session t (new_mixer spawn))"
  then show "session_inv us" by (auto simp: session_inv_def start_session_def new_mixer_def paths_def)
qed (rule session_step_inv)

lemma session_reaches_inv:
  "session_reaches m dec assets (False, start_session t (new_mixer spawn)) us \<Longrightarrow> session_inv us"
  by (rule session_system.reachable_inv) blast+

text \<open>C32. Whatever happened before, in whatever interleaving of the threads, a snapshot replaces
  everything: afterwards each remote speaker is heard through exactly the paths of its units in the
  snapshot, in their order, and a speaker without a unit through none. The code only touches the
  speakers of this snapshot and of the previous one; that this is enough is the invariant of the
  session. (Off while the server forces everybody audible.)\<close>

theorem snapshot_replaces_audibility:
  assumes "session_reaches m dec assets (False, start_session t (new_mixer spawn)) (up, s)"
    and "\<not> mx_debugForceAudible (vs_playback s)"
  shows "mx_sources (vs_playback (applyAudibility units s)) =
    map (\<lambda>(sid, src). (sid, setStates (heard_as units s sid) src)) (mx_sources (vs_playback s))"
proof -
  have inv: "session_inv (up, s)" by (rule session_reaches_inv[OF assms(1)])
  then have "uwf (mx_sources (vs_playback s))"
    and last: "\<And>sid src. (sid, src) \<in> set (mx_sources (vs_playback s)) \<Longrightarrow> sid \<notin> set (vs_lastActiveSessionIds s) \<Longrightarrow> so_states src = []"
    using assms(2) by (auto simp: session_inv_def paths_def)
  from applyAudibility_sources(1)[OF this(1) assms(2), of units] show ?thesis
    by (auto simp: setStates_def dest: last)
qed

text \<open>A session connected to a server, with one remote speaker, Ann.\<close>

definition with_ann :: "(unit, unit, unit) session" where
  "with_ann = onRemoteJoined 7 ''u7'' ''Ann'' (onConnectionStateChanged False True
     (start_session (new_transmit None None) (new_mixer (\<lambda>_. (Some (), \<lambda>_ _. Fin 0)))))"

lemma with_ann_reached:
  "session_reaches flat_libm flat_decoder (\<lambda>_. []) (False, start_session (new_transmit None None) (new_mixer (\<lambda>_. (Some (), \<lambda>_ _. Fin 0))))
     (True, with_ann)"
proof -
  let ?s = "start_session (new_transmit None None) (new_mixer (\<lambda>_. (Some (), \<lambda>_ _. Fin 0))) :: (unit, unit, unit) session"
  have "session_step flat_libm flat_decoder (\<lambda>_. []) (False, ?s) (True, onConnectionStateChanged False True ?s)"
    using session_step.callback[of False "StateChanged True" True flat_libm flat_decoder "\<lambda>_. []" ?s 0 False] by simp
  moreover have "session_step flat_libm flat_decoder (\<lambda>_. []) (True, onConnectionStateChanged False True ?s) (True, with_ann)"
    using session_step.callback[of True "Raised (RemoteJoined 7 ''u7'' ''Ann'')" True flat_libm flat_decoder "\<lambda>_. []"
        "onConnectionStateChanged False True ?s" 0 False]
    by (simp add: on_event_def with_ann_def)
  ultimately show ?thesis by (meson r_into_rtranclp rtranclp.rtrancl_into_rtrancl)
qed

definition ann_near :: audibilityUpdate where
  "ann_near = \<lparr>ud_uid = ''u7'', ud_nickname = ''Ann'', ud_gain = Fin 1, ud_azimuth = Fin 0, ud_muted = False,
     ud_effect = Direct, ud_errorLevel = Fin 0, ud_stereoMode = 0\<rparr>"

lemma snapshot_replaces_audibility_witness:
  "paths (vs_playback (applyAudibility [ann_near] with_ann)) = [(7, [path_of ann_near])]"
proof -
  have d: "\<not> mx_debugForceAudible (vs_playback with_ann)"
    by (simp add: with_ann_def onRemoteJoined_def paths_addSource onConnectionStateChanged_def setDebugForceAudible_def)
  have h: "heard_as [ann_near] with_ann 7 = [path_of ann_near]"
    by (simp add: heard_as_def resolve_unit_def with_ann_def onRemoteJoined_def ann_near_def umap_simps)
  have k: "ukeys (mx_sources (vs_playback with_ann)) = [7]"
    by (simp add: with_ann_def onRemoteJoined_def onConnectionStateChanged_def setDebugForceAudible_def
        addSource_def start_session_def new_mixer_def Let_def)
  then obtain src where "mx_sources (vs_playback with_ann) = [(7, src)]"
    by (cases "mx_sources (vs_playback with_ann)") auto
  with snapshot_replaces_audibility[OF with_ann_reached d, of "[ann_near]"] h show ?thesis
    by (simp add: paths_def setStates_def)
qed

text \<open>C33. A client without a connection plays and knows nobody: once the disconnect was reported, and
  until the next connect, under every interleaving of the threads, there is no source, no unit of a
  snapshot resolves, and no remote transmission is passed on.\<close>

theorem offline_session_empty:
  assumes "session_reaches m dec assets (False, start_session t (new_mixer spawn)) (False, s)"
  shows "mx_sources (vs_playback s) = [] \<and> resolve_unit u s = None \<and> currentRadioTx now s = []"
  using session_reaches_inv[OF assms] by (simp add: session_inv_def resolve_unit_def currentRadioTx_def)

lemma offline_session_empty_witness:
  "mx_sources (vs_playback (onConnectionStateChanged False False with_ann)) = [] \<and>
   resolve_unit ann_near (onConnectionStateChanged False False with_ann) = None"
proof -
  have "session_step flat_libm flat_decoder (\<lambda>_. []) (True, with_ann) (False, onConnectionStateChanged False False with_ann)"
    using session_step.callback[of True "StateChanged False" False flat_libm flat_decoder "\<lambda>_. []" with_ann 0 False] by simp
  with with_ann_reached have "session_reaches flat_libm flat_decoder (\<lambda>_. [])
      (False, start_session (new_transmit None None) (new_mixer (\<lambda>_. (Some (), \<lambda>_ _. Fin 0))))
      (False, onConnectionStateChanged False False with_ann)"
    by (rule rtranclp.rtrancl_into_rtrancl)
  from offline_session_empty[OF this, of ann_near] show ?thesis by simp
qed

section \<open>Key binds\<close>

lemma flags_of_commands:
  "flags_of (session_setPttHeld b s) = setPttHeld b (flags_of s)"
  "flags_of (session_toggleMicMute s) = toggleMicMute (flags_of s)"
  "flags_of (session_toggleSpeakerMute s) = toggleSpeakerMute (flags_of s)"
  by (simp_all add: flags_of_def session_setPttHeld_def session_toggleMicMute_def session_toggleSpeakerMute_def
      setPttHeld_def toggleMicMute_def toggleSpeakerMute_def transmit_setPttHeld_def setMicMuted_def setMuted_def)

lemma processAsync_voice:
  assumes "p_voice p = flags_of s"
  shows "p_voice (processAsync m now (firstToken payload) payload p) = flags_of (voice_command payload s)"
  using assms by (simp add: processAsync_def voice_command_def Let_def flags_of_commands)

lemma process_voice:
  assumes "p_voice p = flags_of s"
  shows "p_voice (snd (process m ov now input p)) = flags_of (voice_input input s)"
proof (cases "input \<noteq> [] \<and> last input = CHR ''~''")
  case True
  define payload where "payload = butlast input"
  have "input = payload @ ''~''" using True append_butlast_last_id[of input] by (simp add: payload_def)
  with processAsync_voice[OF assms, of m now payload] show ?thesis
    by (auto simp: process_async voice_input_def Let_def split: prod.split)
qed (auto simp: process_def voice_input_def Let_def assms)

interpretation voice_view:
  simulation "\<lambda>s p. p_voice p = flags_of s" "\<lambda>(now, input). voice_input input" "\<lambda>(now, input) p. snd (process m ov now input p)"
  for m ov
  by unfold_locales (auto simp: process_voice)

text \<open>How often a key bind was reported, and what a report says of the talk key.\<close>

definition presses :: "string \<Rightarrow> (time \<times> string) list \<Rightarrow> nat" where
  "presses command calls = length (filter (\<lambda>(now, input).
     input \<noteq> [] \<and> last input = CHR ''~'' \<and> firstToken (butlast input) = command) calls)"

definition talk_key :: "time \<times> string \<Rightarrow> bool option" where
  "talk_key call = (case call of (now, input) \<Rightarrow>
     let payload = butlast input; tokens = splitLimit payload tab 2
     in if input \<noteq> [] \<and> last input = CHR ''~'' \<and> firstToken payload = ''MICPTT'' \<and> 2 \<le> length tokens
        then Some (tokens ! 1 = ''PRESSED'') else None)"

definition last_or :: "'a \<Rightarrow> 'a list \<Rightarrow> 'a" where
  "last_or a xs = (if xs = [] then a else last xs)"

definition toggled :: "bool \<Rightarrow> nat \<Rightarrow> bool" where
  "toggled b n \<longleftrightarrow> b \<noteq> odd n"

definition keyed :: "(time \<times> string) list \<Rightarrow> ('d, 'e, 'n) session \<Rightarrow> ('d, 'e, 'n) session" where
  "keyed calls s = s
     \<lparr>vs_transmit := (vs_transmit s)
        \<lparr>tr_micMuted := toggled (tr_micMuted (vs_transmit s)) (presses ''MICMUTE'' calls),
         tr_pttHeld := last_or (tr_pttHeld (vs_transmit s)) (List.map_filter talk_key calls)\<rparr>,
      vs_playback := (vs_playback s)\<lparr>mx_muted := toggled (mx_muted (vs_playback s)) (presses ''SPEAKERMUTE'' calls)\<rparr>\<rparr>"

lemma presses_Cons: "presses c (call # calls) = presses c [call] + presses c calls"
  by (simp add: presses_def)

lemma last_or_Cons: "last_or a (x # xs) = last_or x xs"
  by (simp add: last_or_def)

lemma toggled_simps [simp]: "toggled b 0 = b" "toggled b (Suc 0) = (\<not> b)" "toggled b (m + n) = toggled (toggled b m) n"
  by (auto simp: toggled_def)

lemma keyed_one: "voice_input (snd call) s = keyed [call] s"
  by (cases call) (auto simp: voice_input_def voice_command_def keyed_def presses_def talk_key_def last_or_def Let_def
      List.map_filter_def session_setPttHeld_def session_toggleMicMute_def session_toggleSpeakerMute_def
      transmit_setPttHeld_def setMicMuted_def setMuted_def)

lemma keyed_Cons: "keyed (call # calls) s = keyed calls (keyed [call] s)"
  by (cases "talk_key call")
    (simp_all add: keyed_def presses_Cons[of _ call calls] map_filter_simps last_or_Cons last_or_def)

lemma voice_input_run: "fold (\<lambda>(now, input). voice_input input) calls s = keyed calls s"
proof (induction calls arbitrary: s)
  case (Cons call calls)
  then show ?case using keyed_one[of call s] by (simp add: keyed_Cons[of call calls] case_prod_unfold)
qed (simp add: keyed_def presses_def last_or_def map_filter_simps)

text \<open>C34. The key binds: whatever the game calls, the microphone is muted in the end exactly when it was
  muted at first and \<open>MICMUTE\<close> was called an even number of times, or was not and the number is odd; the
  speaker likewise with \<open>SPEAKERMUTE\<close>; the talk key is held as the last \<open>MICPTT\<close> with an argument said; and
  no call touches anything else of the voice session. \<open>MUTE_STATE\<close> answers with just these two mutes and
  whether the session is transmitting.\<close>

theorem voice_keys:
  assumes "p_voice p = flags_of s"
  shows "let s' = fold (\<lambda>(now, input). voice_input input) calls s;
             mic = toggled (tr_micMuted (vs_transmit s)) (presses ''MICMUTE'' calls);
             speaker = toggled (mx_muted (vs_playback s)) (presses ''SPEAKERMUTE'' calls);
             held = last_or (tr_pttHeld (vs_transmit s)) (List.map_filter talk_key calls)
    in s' = s\<lparr>vs_transmit := (vs_transmit s)\<lparr>tr_micMuted := mic, tr_pttHeld := held\<rparr>,
              vs_playback := (vs_playback s)\<lparr>mx_muted := speaker\<rparr>\<rparr> \<and>
       fst (process m ov now ''MUTE_STATE'' (fold (\<lambda>(now, input) p. snd (process m ov now input p)) calls p)) =
         [bool_char mic, bool_char speaker, bool_char (tr_isTransmitting (vs_transmit s))]"
proof -
  note voice_view.run_simulates[OF assms, where m = m and ov = ov and xs = calls]
  moreover have "firstToken ''MUTE_STATE'' = ''MUTE_STATE''" by (simp add: firstToken_def tab_char)
  ultimately show ?thesis
    by (simp add: process_def processSync_def flags_of_def Let_def voice_input_run keyed_def)
qed

lemma voice_keys_witness:
  "fst (process flat_libm [] 2 ''MUTE_STATE''
      (fold (\<lambda>(now, input) p. snd (process flat_libm [] now input p)) [(0, ''MICMUTE~''), (1, ''SPEAKERMUTE~''), (1, ''MICMUTE~'')]
         (start (flags_of with_ann)))) = ''010''"
proof -
  have "p_voice (start (flags_of with_ann)) = flags_of with_ann" by (simp add: start_def)
  from voice_keys[OF this, of "[(0, ''MICMUTE~''), (1, ''SPEAKERMUTE~''), (1, ''MICMUTE~'')]" flat_libm "[]" 2]
  show ?thesis
    by (simp add: Let_def presses_def toggled_def firstToken_def tab_char bool_char_def with_ann_def onRemoteJoined_def
      onConnectionStateChanged_def setDebugForceAudible_def addSource_def start_session_def new_mixer_def new_transmit_def)
qed

end
