(* ===== verification/ExtTick.thy ===== *)
theory ExtTick
  imports Session
begin

text \<open>
  The extension's entry point and sender thread, \<open>src/Extension.cpp\<close>: the only place where the game
  state and the voice session meet. One pass of \<open>senderMain\<close>'s loop is \<open>tick\<close>; \<open>now\<close> stands for the
  readings of the clock during the pass. \<open>None\<close> means that the pass does not come back: an angle loop
  that does not end, or an exception, which would end the process.
\<close>

definition parseSourceEffect :: "string \<Rightarrow> sourceEffect" where
  "parseSourceEffect fx =
     (if fx = ''sw'' then Sw
      else if fx = ''lr'' then Lr
      else if fx = ''airborne'' then Airborne
      else if fx = ''dd'' then Dd
      else if fx = ''phone'' then Phone
      else if fx = ''speaker'' then Speaker
      else if fx = ''intercom'' then Intercom
      else Direct)"

definition parseTransmitMode :: "fp \<Rightarrow> transmitMode" where
  "parseTransmitMode v =
     (if flt v (Fin (1 / 2)) then PushToTalk else if flt v (Fin (3 / 2)) then VoiceActivation else AlwaysOn)"

text \<open>\<open>static_cast<uint16_t>\<close> of a \<open>float\<close>.\<close>

definition uint16_cast :: "libm \<Rightarrow> fp \<Rightarrow> 16 word" where
  "uint16_cast m x = (case cast_int 0 65535 x of Some n \<Rightarrow> word_of_int n | None \<Rightarrow> ucast (cast_oob m x))"

definition parsePort :: "libm \<Rightarrow> fp \<Rightarrow> 16 word" where
  "parsePort m v = (if \<not> (fle (Fin 0) v \<and> fle v (Fin 65535)) then 0 else uint16_cast m v)"

section \<open>The radio-transmit relay\<close>

text \<open>The function-local statics of the relay, and of the local beep.\<close>

record relay =
  rl_sentActive :: bool
  rl_sentFreq :: string
  rl_sentSubtype :: string
  rl_sentRange :: "16 word"
  rl_lastSend :: time
  rl_inactiveRepeatsLeft :: int

definition new_relay :: relay where
  "new_relay = \<lparr>rl_sentActive = False, rl_sentFreq = [], rl_sentSubtype = [], rl_sentRange = 0,
     rl_lastSend = 0, rl_inactiveRepeatsLeft = 0\<rparr>"

definition relay_step :: "time \<Rightarrow> localTxState \<Rightarrow> 16 word \<Rightarrow> relay \<Rightarrow> bool \<times> relay" where
  "relay_step now tx clampedRange r =
     (let changed = (lt_active tx \<noteq> rl_sentActive r \<or>
            (lt_active tx \<and> (lt_freq tx \<noteq> rl_sentFreq r \<or> clampedRange \<noteq> rl_sentRange r \<or>
                             lt_subtype tx \<noteq> rl_sentSubtype r)));
          left0 = (if changed \<and> \<not> lt_active tx then 2 else rl_inactiveRepeatsLeft r);
          repeat = (\<not> changed \<and> \<not> lt_active tx \<and> 0 < left0);
          left1 = (if repeat then left0 - 1 else left0);
          refresh = (\<not> (changed \<or> repeat) \<and> lt_active tx \<and> ms 500 \<le> now - rl_lastSend r);
          send = (changed \<or> repeat \<or> refresh);
          r' = r\<lparr>rl_inactiveRepeatsLeft := left1\<rparr>
      in (send,
          if send then r'\<lparr>rl_sentActive := lt_active tx, rl_sentFreq := lt_freq tx,
                        rl_sentSubtype := lt_subtype tx, rl_sentRange := clampedRange, rl_lastSend := now\<rparr>
          else r'))"

record beepEdge =
  be_lastActive :: bool
  be_lastSubtype :: string

definition beep_step :: "localTxState \<Rightarrow> beepEdge \<Rightarrow> (string \<times> bool) option \<times> beepEdge" where
  "beep_step tx b =
     (let cue = (if lt_active tx \<noteq> be_lastActive b
                 then Some (if lt_active tx then lt_subtype tx else be_lastSubtype b, lt_active tx) else None);
          b' = b\<lparr>be_lastActive := lt_active tx\<rparr>
      in (cue, if lt_active tx then b'\<lparr>be_lastSubtype := lt_subtype tx\<rparr> else b'))"

section \<open>One tick\<close>

record ('d, 'e, 'n) world =
  w_state :: ext_state
  w_voice :: "('d, 'e, 'n) session"
  w_relay :: relay
  w_beep :: beepEdge

definition apply_settings :: "libm \<Rightarrow> ext_state \<Rightarrow> ('d, 'e, 'n) session \<Rightarrow> ('d, 'e, 'n) session" where
  "apply_settings m st v =
     (let v = session_setServer (voiceConfigString st ''voice_serverHost'' [])
                (parsePort m (voiceConfigFloat st ''voice_serverPort'' (Fin 9987)))
                (voiceConfigString st ''voice_serverPassword'' []) v;
          v = on_transmit (setMicVolume (voiceConfigFloat st ''voice_micVolume'' (Fin 1))) v;
          v = on_playback (setMasterVolume (voiceConfigFloat st ''voice_speakerVolume'' (Fin 1))) v;
          v = on_transmit (setVadThreshold (voiceConfigFloat st ''voice_vadThreshold'' (lit32 (5 / 1000)))) v;
          v = on_transmit (setNoiseSuppressionEnabled (voiceConfigBool st ''voice_noiseSuppression'' True)) v
      in on_transmit (setMode (parseTransmitMode (voiceConfigFloat st ''voice_transmitMode'' (Fin 1)))) v)"

definition clamped_range :: "libm \<Rightarrow> localTxState \<Rightarrow> 16 word" where
  "clamped_range m tx = uint16_cast m (clampf (lt_range tx) (Fin 0) (Fin 65535))"

definition pull_remote_tx :: "time \<Rightarrow> ('d, 'e, 'n) session \<Rightarrow> ext_state \<Rightarrow> ext_state" where
  "pull_remote_tx now v st =
     fold (\<lambda>tx. setRemoteTx now (ri_uid tx) (ri_active tx) (ri_freq tx) (int32_fp (uint (ri_range tx))) (ri_subtype tx))
       (currentRadioTx now v) st"

definition apply_override :: "bool option option \<Rightarrow> ('d, 'e, 'n) session \<Rightarrow> ('d, 'e, 'n) session" where
  "apply_override change v =
     (case change of
        None \<Rightarrow> v
      | Some newOverride \<Rightarrow>
          session_setAddonOverride (newOverride \<noteq> None) (case newOverride of None \<Rightarrow> False | Some b \<Rightarrow> b) v)"

definition update_of :: "audibleUnit \<Rightarrow> audibilityUpdate" where
  "update_of u = \<lparr>ud_uid = au_uid u, ud_nickname = au_nickname u, ud_gain = au_gain u, ud_azimuth = au_az u,
     ud_muted = au_muted u, ud_effect = parseSourceEffect (au_fx u), ud_errorLevel = au_err u,
     ud_stereoMode = au_stereoMode u\<rparr>"

definition tick :: "libm \<Rightarrow> (string \<Rightarrow> pcm) \<Rightarrow> time \<Rightarrow> ('d, 'e, 'n) world \<Rightarrow> (net_out list \<times> ('d, 'e, 'n) world) option" where
  "tick m assets now w =
     (let st = setVoiceConnected (n_connected (vs_network (w_voice w))) (w_state w);
          v = apply_settings m st (w_voice w);
          st = setLocalTransmitting (tr_isTransmitting (vs_transmit v)) st;
          v = session_setIdentity (myUid st) (m_myNickname st) v;
          tx = get_localTxState st;
          rng = clamped_range m tx
      in case relay_step now tx rng (w_relay w) of (send, rl) \<Rightarrow>
         case (if send then session_sendRadioTx (lt_active tx) (lt_freq tx) rng (lt_subtype tx) v else Inr []) of
           Inl _ \<Rightarrow> None
         | Inr out \<Rightarrow>
             (let st = pull_remote_tx now v st
              in case beep_step tx (w_beep w) of (cue, be) \<Rightarrow>
                 let v = (case cue of None \<Rightarrow> v
                        | Some (subtype, start) \<Rightarrow> on_playback (triggerLocalBeep assets subtype start) v)
                 in case takeTransmitOverride st of (change, st) \<Rightarrow>
                    let v = apply_override change v
                    in Option.bind (computeAudibleUnits m now st) (\<lambda>(units, st).
                         Some (out, w\<lparr>w_state := st, w_voice := applyAudibility (map update_of units) v,
                                      w_relay := rl, w_beep := be\<rparr>))))"

section \<open>The exported function\<close>

text \<open>\<open>RVExtension\<close> on an initialised extension: what is in the output buffer afterwards (up to the
  terminating zero), or nothing when it is left alone.\<close>

definition RVExtension :: "libm \<Rightarrow> string \<Rightarrow> time \<Rightarrow> bool \<Rightarrow> int \<Rightarrow> string \<Rightarrow> processor \<Rightarrow> string option \<times> processor" where
  "RVExtension m opusVersion now shuttingDown outputSize input p =
     (if outputSize \<le> 0 then (None, p)
      else if input = [] then (Some [], p)
      else if shuttingDown then (Some [], p)
      else (case process m opusVersion now input p of
              (answer, p') \<Rightarrow> (Some (take (nat outputSize - 1) answer), p')))"

end
