(* ===== verification/TickProps.thy ===== *)
theory TickProps
  imports ExtTick SessionProps
begin

text \<open>
  Properties of the sender thread, where the game state and the voice session meet: the relay of the
  local transmission, what remote announcements do to the solver's state, the server settings, and
  that a pass always completes.
\<close>

section \<open>The relay of the local transmission\<close>

text \<open>What one pass hands to the relay: the clock, the local transmission and its clamped range.\<close>

type_synonym relayInput = "time \<times> localTxState \<times> 16 word"

text \<open>The announcements of a run of passes, with the input each was made from.\<close>

fun relay_run :: "relayInput list \<Rightarrow> relay \<Rightarrow> relayInput list \<times> relay" where
  "relay_run [] r = ([], r)"
| "relay_run ((now, tx, rng) # ins) r =
     (case relay_step now tx rng r of
        (send, r') \<Rightarrow> (case relay_run ins r' of
          (outs, r'') \<Rightarrow> ((if send then [(now, tx, rng)] else []) @ outs, r'')))"

definition same_transmission :: "localTxState \<Rightarrow> localTxState \<Rightarrow> bool" where
  "same_transmission tx tx' \<longleftrightarrow> lt_active tx' \<and> lt_freq tx' = lt_freq tx \<and> lt_subtype tx' = lt_subtype tx"

text \<open>The relay remembers its last announcement.\<close>

definition remembers :: "relayInput list \<Rightarrow> relay \<Rightarrow> bool" where
  "remembers outs r \<longleftrightarrow>
     (if outs = [] then \<not> rl_sentActive r
      else case last outs of (t, tx, rng) \<Rightarrow> rl_lastSend r = t \<and> rl_sentActive r = lt_active tx \<and>
        rl_sentFreq r = lt_freq tx \<and> rl_sentSubtype r = lt_subtype tx \<and> rl_sentRange r = rng)"

lemma relay_step_remembers:
  assumes "relay_step now tx rng r = (send, r')" "remembers outs r"
  shows "remembers (outs @ (if send then [(now, tx, rng)] else [])) r'"
  using assms by (auto simp: relay_step_def remembers_def Let_def split: if_splits)

lemma relay_run_remembers:
  "remembers outs r \<Longrightarrow> remembers (outs @ fst (relay_run ins r)) (snd (relay_run ins r))"
proof (induction ins r arbitrary: outs rule: relay_run.induct)
  case (2 now tx rng ins r)
  obtain send r' where s: "relay_step now tx rng r = (send, r')" by force
  from 2(1)[OF s[symmetric] relay_step_remembers[OF s 2(2)]] show ?case
    by (cases "relay_run ins r'"; cases send) (simp_all add: s)
qed simp

lemma relay_run_append:
  "relay_run (xs @ ys) r = (case relay_run xs r of (os, r') \<Rightarrow> case relay_run ys r' of (os', r'') \<Rightarrow> (os @ os', r''))"
  by (induction xs r rule: relay_run.induct) (auto split: prod.split)

text \<open>C35. The other clients are never left with a stale announcement: after every run of passes, whatever
  the local player pressed, retuned and released in between, the last announcement sent agrees with
  the current transmission. While transmitting it carries the current frequency, range and subtype and
  is less than 500 ms old; while silent it is a stop, or nothing was ever announced.\<close>

theorem relay_in_sync:
  assumes "fst (relay_run (ins @ [(now, tx, rng)]) new_relay) = outs"
  shows "if lt_active tx
    then outs \<noteq> [] \<and> (case last outs of (t, tx', rng') \<Rightarrow> same_transmission tx tx' \<and> rng' = rng \<and> now - t < ms 500)
    else outs = [] \<or> (case last outs of (t, tx', rng') \<Rightarrow> \<not> lt_active tx')"
proof -
  obtain os r where r: "relay_run ins new_relay = (os, r)" by force
  obtain send r' where s: "relay_step now tx rng r = (send, r')" by force
  have outs: "outs = os @ (if send then [(now, tx, rng)] else [])"
    using assms by (simp add: relay_run_append r s split: if_splits)
  have "remembers [] new_relay" by (simp add: remembers_def new_relay_def)
  then have "remembers os r" using relay_run_remembers[of "[]" new_relay ins] by (simp add: r)
  with s show ?thesis unfolding outs
    by (auto simp: relay_step_def remembers_def same_transmission_def Let_def split: if_splits)
qed

definition press :: localTxState where
  "press = \<lparr>lt_active = True, lt_freq = ''51'', lt_range = Fin 5000, lt_subtype = ''digital''\<rparr>"

definition release :: localTxState where
  "release = \<lparr>lt_active = False, lt_freq = [], lt_range = Fin 0, lt_subtype = []\<rparr>"

lemma relay_in_sync_witness:
  "fst (relay_run ([(ms 66, press, 5000)] @ [(ms 132, press, 5000)]) new_relay) = [(ms 66, press, 5000)] \<and>
   ms 132 - ms 66 < ms 500"
proof -
  have o: "fst (relay_run ([(ms 66, press, 5000)] @ [(ms 132, press, 5000)]) new_relay) = [(ms 66, press, 5000)]"
    by code_simp
  from relay_in_sync[OF o] o show ?thesis by (simp add: press_def)
qed

section \<open>The end of a transmission\<close>

definition relay_sends :: "relayInput list \<Rightarrow> relay \<Rightarrow> bool list" where
  "relay_sends ins r = fst (mapS (\<lambda>(now, tx, rng) r. relay_step now tx rng r) ins r)"

lemma relay_sends_simps:
  "relay_sends [] r = []"
  "relay_sends ((now, tx, rng) # ins) r =
     (case relay_step now tx rng r of (send, r') \<Rightarrow> send # relay_sends ins r')"
  by (auto simp: relay_sends_def split: prod.split)

lemma silent_sends:
  assumes "\<forall>(now, tx, rng) \<in> set ins. \<not> lt_active tx" "\<not> rl_sentActive r" "rl_inactiveRepeatsLeft r = int k"
  shows "relay_sends ins r = map (\<lambda>i. i < k) [0..<length ins]"
  using assms
proof (induction ins arbitrary: r k)
  case (Cons x ins)
  obtain now tx rng where x: "x = (now, tx, rng)" by (cases x)
  have tx: "\<not> lt_active tx" "\<forall>(now, tx, rng) \<in> set ins. \<not> lt_active tx" using Cons.prems(1) by (auto simp: x)
  obtain r' where s: "relay_step now tx rng r = (0 < k, r')" "\<not> rl_sentActive r'" "rl_inactiveRepeatsLeft r' = int (k - 1)"
    using tx Cons.prems(2,3) by (simp add: relay_step_def Let_def)
  have "map (\<lambda>i. i < k) [0..<length (x # ins)] = (0 < k) # map (\<lambda>i. i < k - 1) [0..<length ins]"
    by (subst upt_conv_Cons) (auto simp: map_Suc_upt[symmetric] simp del: upt_Suc)
  with Cons.IH[OF tx(2) s(2,3)] show ?case by (simp add: x relay_sends_simps s(1))
qed (simp add: relay_sends_simps)

text \<open>C36. Idle clients are quiet: a released transmission is announced as stopped in the same pass and in
  the next two, and after that, as from the start of the extension, a silent client announces nothing,
  however long it stays silent. \<open>README.md\<close> of the extension, \<open>State.h\<close> and \<open>VoiceSession.h\<close> say instead that
  the state is announced in every pass, changed or not; the code does not, and the manifest lists the
  difference as a finding. A stop whose three announcements are all lost is not announced again.\<close>

theorem stop_announced_thrice:
  assumes "\<forall>(now, tx, rng) \<in> set ins. \<not> lt_active tx"
  shows "(rl_sentActive r \<longrightarrow> relay_sends ins r = map (\<lambda>i. i < 3) [0..<length ins]) \<and>
    relay_sends ins new_relay = replicate (length ins) False"
proof
  show "relay_sends ins new_relay = replicate (length ins) False"
    using silent_sends[OF assms, of new_relay 0] by (simp add: new_relay_def map_replicate_const)
  show "rl_sentActive r \<longrightarrow> relay_sends ins r = map (\<lambda>i. i < 3) [0..<length ins]"
  proof (cases ins)
    case (Cons x rest)
    obtain now tx rng where x: "x = (now, tx, rng)" by (cases x)
    have tx: "\<not> lt_active tx" "\<forall>(now, tx, rng) \<in> set rest. \<not> lt_active tx" using assms by (auto simp: x Cons)
    have m: "map (\<lambda>i. i < 3) [0..<length ins] = True # map (\<lambda>i. i < 2) [0..<length rest]"
      unfolding Cons by (subst upt_conv_Cons) (auto simp: map_Suc_upt[symmetric] simp del: upt_Suc)
    {
      assume "rl_sentActive r"
      then obtain r' where s: "relay_step now tx rng r = (True, r')" "\<not> rl_sentActive r'" "rl_inactiveRepeatsLeft r' = int 2"
        using tx by (simp add: relay_step_def Let_def)
      with silent_sends[OF tx(2) s(2,3)] have "relay_sends ins r = map (\<lambda>i. i < 3) [0..<length ins]"
        unfolding m by (simp add: Cons x relay_sends_simps)
    }
    then show ?thesis by blast
  qed (simp add: relay_sends_simps)
qed

lemma stop_announced_thrice_witness:
  "relay_sends [(ms 66, release, 0), (ms 132, release, 0), (ms 198, release, 0), (ms 264, release, 0)]
     (snd (relay_step 0 press 5000 new_relay)) = [True, True, True, False]"
proof -
  have a: "rl_sentActive (snd (relay_step 0 press 5000 new_relay))"
    by (simp add: relay_step_def new_relay_def press_def Let_def)
  have "\<forall>(now, tx, rng) \<in> set [(ms 66, release, 0), (ms 132, release, 0), (ms 198, release, 0), (ms 264, release, 0 :: 16 word)]. \<not> lt_active tx"
    by (simp add: release_def)
  from conjunct1[OF stop_announced_thrice[OF this]] a show ?thesis by (simp add: upt_rec)
qed

section \<open>Announcements of other players\<close>

text \<open>A uid that names exactly the player \<open>n\<close>.\<close>

definition uid_of :: "ext_state \<Rightarrow> string \<Rightarrow> string \<Rightarrow> bool" where
  "uid_of st n uid \<longleftrightarrow> uid \<noteq> [] \<and> (n, uid) \<in> set (m_nameToUid st) \<and>
     (\<forall>(n', u) \<in> set (m_nameToUid st). u = uid \<longrightarrow> n' = n)"

lemma setRemoteTx_roster [simp]:
  "m_nameToUid (setRemoteTx now u a f r sub st) = m_nameToUid st"
  "uid_of (setRemoteTx now u a f r sub st) n uid = uid_of st n uid"
  by (simp_all add: setRemoteTx_def uid_of_def Let_def)

lemma setRemoteTx_same:
  assumes "ext_inv st" "uid_of st n uid"
  shows "fresh_tx (setRemoteTx now uid a f r sub st) t n =
    (if a \<and> f \<noteq> [] \<and> t - now < kTxExpiry
     then Some \<lparr>tx_nickname = n, tx_frequency = f, tx_range = r, tx_subtype = sub, tx_received = now\<rparr> else None)"
proof -
  have "ufind_value (\<lambda>u. u = uid) (m_nameToUid st) = Some n"
    using assms(2) by (intro ufind_value_unique) (auto simp: uid_of_def)
  moreover have "n \<noteq> []" "uwf (m_remoteTx st)"
    using assms by (auto simp: inv_defs uid_ok_def uid_of_def list_all_iff)
  ultimately show ?thesis using assms(2)
    by (auto simp: setRemoteTx_def fresh_tx_def umap_simps uid_of_def Let_def)
qed

lemma setRemoteTx_other:
  assumes "ext_inv st" "uid_of st n uid" "u \<noteq> uid" "u \<noteq> n"
  shows "fresh_tx (setRemoteTx now u a f r sub st) t n = fresh_tx st t n"
proof -
  have wf: "uwf (m_nameToUid st)" "uwf (m_remoteTx st)" using assms(1) by (simp_all add: inv_defs)
  have n: "n' \<noteq> n" if "ufind_value (\<lambda>x. x = u) (m_nameToUid st) = Some n'" for n'
  proof
    assume "n' = n"
    with ufind_value_Some[OF that] have "(n, u) \<in> set (m_nameToUid st)" by auto
    with assms(2,3) wf(1) show False by (auto simp: uid_of_def simp flip: uget_iff)
  qed
  then show ?thesis using assms(4) wf(2)
    by (auto simp: setRemoteTx_def fresh_tx_def umap_simps Let_def split: option.splits)
qed

abbreviation push_tx :: "time \<Rightarrow> radioTxInfo \<Rightarrow> ext_state \<Rightarrow> ext_state" where
  "push_tx now tx \<equiv> setRemoteTx now (ri_uid tx) (ri_active tx) (ri_freq tx) (int32_fp (uint (ri_range tx))) (ri_subtype tx)"

lemma pull_inv: "ext_inv st \<Longrightarrow> ext_inv (fold (push_tx now) infos st)"
  by (induction infos arbitrary: st) (simp_all add: step_inv)

lemma pull_uid [simp]: "uid_of (fold (push_tx now) infos st) n uid = uid_of st n uid"
  by (induction infos arbitrary: st) simp_all

lemma pull_fresh:
  assumes "ext_inv st" "uid_of st n uid" "\<forall>tx \<in> set infos. ri_uid tx \<noteq> uid \<longrightarrow> ri_uid tx \<noteq> n"
  shows "fresh_tx (fold (push_tx now) infos st) t n =
    (case find (\<lambda>tx. ri_uid tx = uid) (rev infos) of
       None \<Rightarrow> fresh_tx st t n
     | Some tx \<Rightarrow>
         if ri_active tx \<and> ri_freq tx \<noteq> [] \<and> t - now < kTxExpiry
         then Some \<lparr>tx_nickname = n, tx_frequency = ri_freq tx, tx_range = int32_fp (uint (ri_range tx)),
                    tx_subtype = ri_subtype tx, tx_received = now\<rparr>
         else None)"
  using assms(3)
proof (induction infos rule: rev_induct)
  case (snoc tx infos)
  let ?st = "fold (push_tx now) infos st"
  have inv: "ext_inv ?st" "uid_of ?st n uid" using assms(1,2) by (simp_all add: pull_inv)
  show ?case
  proof (cases "ri_uid tx = uid")
    case True
    with setRemoteTx_same[OF inv] show ?thesis by simp
  next
    case False
    with snoc.prems setRemoteTx_other[OF inv False] snoc.IH show ?thesis by simp
  qed
qed simp

text \<open>C37. What one pass tells the solver about a player: the announcement the session holds for the
  player's uid and received less than 1.5 seconds ago becomes the player's transmission, with its
  frequency, range and subtype, fresh for another 1.5 seconds from this pass; without one the solver's
  view is left as it was. So a stop, which only drops the announcement from the session, is not passed
  on: the transmission is heard until it expires, and a lost stop is heard for up to three seconds.\<close>

theorem pull_remote_transmission:
  assumes "ext_inv st" "uid_of st n uid" "\<forall>(k, e) \<in> set (vs_txCache v). ri_uid (ce_info e) \<noteq> n \<or> n = uid"
  shows "fresh_tx (pull_remote_tx now v st) t n =
    (case find (\<lambda>tx. ri_uid tx = uid) (rev (currentRadioTx now v)) of
       None \<Rightarrow> fresh_tx st t n
     | Some tx \<Rightarrow>
         if ri_active tx \<and> ri_freq tx \<noteq> [] \<and> t - now < ms 1500
         then Some \<lparr>tx_nickname = n, tx_frequency = ri_freq tx, tx_range = int32_fp (uint (ri_range tx)),
                    tx_subtype = ri_subtype tx, tx_received = now\<rparr>
         else None)"
proof -
  have "\<forall>tx \<in> set (currentRadioTx now v). ri_uid tx \<noteq> uid \<longrightarrow> ri_uid tx \<noteq> n"
    using assms(3) by (auto simp: currentRadioTx_def)
  from pull_fresh[OF assms(1,2) this] show ?thesis
    unfolding pull_remote_tx_def kTxExpiry_def .
qed

text \<open>Ann announces a transmission, and stops it 100 ms later: the passes before and after.\<close>

definition ann_state :: ext_state where
  "ann_state = handleUid ''Ann'' ''u7'' init_state"

definition ann_sends :: "(unit, unit, unit) session" where
  "ann_sends = onRadioTx (\<lambda>_. []) (ms 1000) 7 True ''51'' 5000 ''digital'' with_ann"

definition ann_stopped :: "(unit, unit, unit) session" where
  "ann_stopped = onRadioTx (\<lambda>_. []) (ms 1100) 7 False [] 0 [] ann_sends"

lemma ann_cache:
  "currentRadioTx (ms 1066) ann_sends = [\<lparr>ri_uid = ''u7'', ri_active = True, ri_freq = ''51'', ri_range = 5000, ri_subtype = ''digital''\<rparr>]"
  "vs_txCache ann_stopped = []"
  "\<forall>(k, e) \<in> set (vs_txCache ann_sends). ri_uid (ce_info e) = ''u7''"
  by (simp_all add: ann_sends_def ann_stopped_def with_ann_def onRadioTx_def onRemoteJoined_def onConnectionStateChanged_def
      start_session_def currentRadioTx_def kSessionTxExpiry_def Let_def)

lemma ann_uid: "uid_of ann_state ''Ann'' ''u7''" "ext_inv ann_state"
proof -
  have "m_nameToUid ann_state = [(''Ann'', ''u7'')]"
    by (simp add: ann_state_def handleUid_def init_state_def convertNickname_def)
  then show "uid_of ann_state ''Ann'' ''u7''" by (simp add: uid_of_def)
  show "ext_inv ann_state" unfolding ann_state_def by (rule handleUid_inv[OF ext_inv_init])
qed

lemma pull_remote_transmission_witness:
  "\<exists>tx. fresh_tx (pull_remote_tx (ms 1132) ann_stopped (pull_remote_tx (ms 1066) ann_sends ann_state)) (ms 2500) ''Ann'' = Some tx"
proof -
  let ?st = "pull_remote_tx (ms 1066) ann_sends ann_state"
  have st: "ext_inv ?st" "uid_of ?st ''Ann'' ''u7''" using ann_uid by (simp_all add: pull_remote_tx_def pull_inv)
  have "\<forall>(k, e) \<in> set (vs_txCache ann_sends). ri_uid (ce_info e) \<noteq> ''Ann'' \<or> ''Ann'' = ''u7''"
    using ann_cache(3) by auto
  from pull_remote_transmission[OF ann_uid(2,1) this, of "ms 1066" "ms 2500"]
  have "\<exists>tx. fresh_tx ?st (ms 2500) ''Ann'' = Some tx" unfolding ann_cache(1) by simp
  with pull_remote_transmission[OF st, of ann_stopped "ms 1132" "ms 2500"] ann_cache(2)
  show ?thesis by (simp add: currentRadioTx_def[of _ ann_stopped])
qed

section \<open>A whole pass\<close>

lemma sendRadioTx_total: "\<exists>out. session_sendRadioTx a f r sub v = Inr out"
  by (simp add: session_sendRadioTx_def sendRadioTx_def radio_tx_packet_eq)

lemma case_total:
  "\<exists>y. x = Inr y \<Longrightarrow> (\<And>y. \<exists>r. f y = Some r) \<Longrightarrow> \<exists>r. (case x of Inl e \<Rightarrow> None | Inr y \<Rightarrow> f y) = Some r"
  "(\<And>a b. \<exists>r. g a b = Some r) \<Longrightarrow> \<exists>r. (case p of (a, b) \<Rightarrow> g a b) = Some r"
  "\<exists>us s. o' = Some (us, s) \<Longrightarrow> \<exists>r. Option.bind o' (\<lambda>(us, s). Some (h us s)) = Some r"
  by (auto split: prod.split)

lemma tick_total:
  assumes "atan2_doc m"
  shows "\<exists>out w'. tick m assets now w = Some (out, w')"
proof -
  have snap: "\<exists>us s'. computeAudibleUnits m now s = Some (us, s')" for s
    using client_results_total[OF assms, of now s] by (auto simp: computeAudibleUnits_eq)
  have send: "\<exists>out. (if b then session_sendRadioTx a f r sub v else Inr []) = Inr out" for b a f r sub v
    using sendRadioTx_total[of a f r sub v] by (cases b) auto
  have "\<exists>r. tick m assets now w = Some r"
    unfolding tick_def Let_def by (intro case_total send snap)
  then show ?thesis by auto
qed

text \<open>The sender thread never dies and never hangs: with the documented \<open>atan2f\<close> every pass completes,
  for every game state, session, radio name, range and clock. (An exception would end the game.)\<close>

theorem tick_completes:
  assumes "atan2_doc m"
  shows "\<exists>out w'. tick m assets now w = Some (out, w')"
  by (rule tick_total[OF assms])

lemma tick_completes_witness:
  "\<exists>out w'. tick axis_libm (\<lambda>_. []) (ms 2000)
     \<lparr>w_state = world, w_voice = with_ann, w_relay = new_relay, w_beep = \<lparr>be_lastActive = False, be_lastSubtype = []\<rparr>\<rparr> =
     Some (out, w')"
  by (rule tick_completes[OF axis_libm_doc])

section \<open>The server settings\<close>

text \<open>What a pass leaves in the network client's configuration.\<close>

lemma apply_settings_server:
  "n_config (vs_network (apply_settings m st v)) =
     \<lparr>sc_host = voiceConfigString st ''voice_serverHost'' [],
      sc_port = parsePort m (voiceConfigFloat st ''voice_serverPort'' (Fin 9987)),
      sc_password = voiceConfigString st ''voice_serverPassword'' []\<rparr>"
  "n_connected (vs_network (apply_settings m st v)) = n_connected (vs_network v)"
  by (simp_all add: apply_settings_def session_setServer_def setServer_def Let_def)

lemma applyAudibility_network [simp]: "vs_network (applyAudibility units v) = vs_network v"
  by (simp add: applyAudibility_def Let_def)

lemma apply_override_network [simp]: "vs_network (apply_override c v) = vs_network v"
  by (simp add: apply_override_def session_setAddonOverride_def split: option.split)

lemma tick_network:
  assumes "tick m assets now w = Some (out, w')"
  shows "n_config (vs_network (w_voice w')) =
     \<lparr>sc_host = voiceConfigString (w_state w) ''voice_serverHost'' [],
      sc_port = parsePort m (voiceConfigFloat (w_state w) ''voice_serverPort'' (Fin 9987)),
      sc_password = voiceConfigString (w_state w) ''voice_serverPassword'' []\<rparr>"
    "n_connected (vs_network (w_voice w')) = n_connected (vs_network (w_voice w))"
proof -
  have c: "voiceConfigString (setVoiceConnected b s) = voiceConfigString s"
    "voiceConfigFloat (setVoiceConnected b s) = voiceConfigFloat s" for b s
    by (simp_all add: fun_eq_iff voiceConfigString_def voiceConfigFloat_def setVoiceConnected_def)
  have "n_config (vs_network (w_voice w')) = n_config (vs_network (apply_settings m
        (setVoiceConnected (n_connected (vs_network (w_voice w))) (w_state w)) (w_voice w))) \<and>
      n_connected (vs_network (w_voice w')) = n_connected (vs_network (w_voice w))"
    using assms
    by (auto simp: tick_def Let_def bind_eq_Some_conv session_setIdentity_def setIdentity_def apply_settings_server(2)
        split: prod.splits sum.splits option.splits)
  then show "n_config (vs_network (w_voice w')) =
     \<lparr>sc_host = voiceConfigString (w_state w) ''voice_serverHost'' [],
      sc_port = parsePort m (voiceConfigFloat (w_state w) ''voice_serverPort'' (Fin 9987)),
      sc_password = voiceConfigString (w_state w) ''voice_serverPassword'' []\<rparr>"
    "n_connected (vs_network (w_voice w')) = n_connected (vs_network (w_voice w))"
    by (simp_all add: apply_settings_server c)
qed

lemma parsePort_in_range:
  assumes "fle (Fin 1) v" "fle v (Fin 65535)"
  shows "uint (parsePort m v) = \<lfloor>val v\<rfloor>"
proof -
  obtain q where q: "v = Fin q" "1 \<le> q" "q \<le> 65535" using assms by (cases v) (auto simp: fle_def)
  then have "0 \<le> \<lfloor>q\<rfloor>" "\<lfloor>q\<rfloor> \<le> 65535" by linarith+
  moreover from this have "word_of_int \<lfloor>q\<rfloor> = (word_of_int \<lfloor>q\<rfloor> :: 16 word) \<and> uint (word_of_int \<lfloor>q\<rfloor> :: 16 word) = \<lfloor>q\<rfloor>"
    by (simp add: uint_word_of_int)
  ultimately show ?thesis using q by (simp add: parsePort_def uint16_cast_def cast_int_def rtrunc_def fle_def)
qed

lemma parsePort_garbage:
  assumes "\<not> (fle (Fin 1) v \<and> fle v (Fin 65535))"
  shows "parsePort m v = 0"
proof (cases v)
  case (Fin q)
  show ?thesis
  proof (cases "0 \<le> q \<and> q \<le> 65535")
    case True
    with assms Fin have "0 \<le> q" "q < 1" by (auto simp: fle_def)
    then have "\<lfloor>q\<rfloor> = 0" by linarith
    with Fin True show ?thesis by (simp add: parsePort_def uint16_cast_def cast_int_def rtrunc_def)
  qed (auto simp: parsePort_def fle_def Fin)
qed (auto simp: parsePort_def uint16_cast_def cast_int_def fle_def rtrunc_def)

text \<open>C38. A port the player mistyped does no harm: after a pass the configured port is the integral part
  of the setting when that is a number from 1 to 65535, and for anything else (no number, NaN, zero,
  negative, too large) the worker thread only waits, sending nothing. The same holds for a client that
  was connected: it keeps the connection it can no longer serve.\<close>

theorem server_port_setting:
  assumes "tick m assets now w = Some (out, w')"
  shows "let v = voiceConfigFloat (w_state w) ''voice_serverPort'' (Fin 9987); net = vs_network (w_voice w')
    in if fle (Fin 1) v \<and> fle v (Fin 65535) then uint (sc_port (n_config net)) = \<lfloor>val v\<rfloor>
       else thread_step sha256 env net =
         Inr ([Slept (ms 2000)], net\<lparr>n_notConfiguredLogCount := n_notConfiguredLogCount net + 1\<rparr>)"
  using parsePort_garbage[of _ m]
  by (auto simp: Let_def tick_network(1)[OF assms] parsePort_in_range thread_step_def kReconnectInterval_def)

definition mistyped :: "(unit, unit, unit) world" where
  "mistyped = \<lparr>w_state = init_state\<lparr>m_config := [''voice_serverHost'' \<mapsto> ''relay'', ''voice_serverPort'' \<mapsto> ''abc'']\<rparr>,
     w_voice = with_ann, w_relay = new_relay, w_beep = \<lparr>be_lastActive = False, be_lastSubtype = []\<rparr>\<rparr>"

lemma server_port_setting_witness:
  "\<exists>out w'. tick axis_libm (\<lambda>_. []) (ms 66) mistyped = Some (out, w') \<and>
     map_sum id fst (thread_step zero_sha server_env (vs_network (w_voice w'))) = Inr [Slept (ms 2000)]"
proof -
  obtain out w' where t: "tick axis_libm (\<lambda>_. []) (ms 66) mistyped = Some (out, w')"
    using tick_total[OF axis_libm_doc] by blast
  have "\<not> fle (Fin 1) (voiceConfigFloat (w_state mistyped) ''voice_serverPort'' (Fin 9987))" by code_simp
  with server_port_setting[OF t, of zero_sha server_env] t show ?thesis by (simp add: Let_def)
qed

end
