(* ===== verification/Program.thy ===== *)
theory Program
  imports TickProps
begin

text \<open>
  The whole program: the game's calls, the sender thread, the network thread, the microphone thread and
  the loudspeaker thread on the one state they share, in every interleaving. The invariants of the
  components hold together, so that no thread ever gets stuck, and what the mixer plays is what the game
  state justifies.
\<close>

section \<open>The shared state and the threads\<close>

text \<open>What the program is linked against.\<close>

record ('d, 'e, 'n) platform =
  pf_libm :: libm
  pf_decode :: "'d opus_decode"
  pf_encode :: "'e opus_encode"
  pf_denoise :: "'n rnnoise"
  pf_assets :: "string \<Rightarrow> pcm"
  pf_opusVersion :: string
  pf_sha256 :: "string \<Rightarrow> byte list option"

text \<open>The globals of \<open>Extension.cpp\<close>, the command processor's own field, and what the network thread has
  still to report of its current iteration.\<close>

record ('d, 'e, 'n) program =
  g_world :: "('d, 'e, 'n) world"
  g_disconnectedSince :: time
  g_reports :: "net_out list"

abbreviation g_state :: "('d, 'e, 'n) program \<Rightarrow> ext_state" where
  "g_state g \<equiv> w_state (g_world g)"

abbreviation g_voice :: "('d, 'e, 'n) program \<Rightarrow> ('d, 'e, 'n) session" where
  "g_voice g \<equiv> w_voice (g_world g)"

abbreviation g_playback :: "('d, 'e, 'n) program \<Rightarrow> 'd mixer" where
  "g_playback g \<equiv> vs_playback (g_voice g)"

definition with_voice :: "('d, 'e, 'n) session \<Rightarrow> ('d, 'e, 'n) program \<Rightarrow> ('d, 'e, 'n) program" where
  "with_voice v g = g\<lparr>g_world := (g_world g)\<lparr>w_voice := v\<rparr>\<rparr>"

definition program_start :: "('e, 'n) transmit \<Rightarrow> 'd mixer \<Rightarrow> ('d, 'e, 'n) program" where
  "program_start t x = \<lparr>g_world = \<lparr>w_state = init_state, w_voice = start_session t x, w_relay = new_relay,
     w_beep = \<lparr>be_lastActive = False, be_lastSubtype = []\<rparr>\<rparr>, g_disconnectedSince = 0, g_reports = []\<rparr>"

text \<open>The game thread: a call reads the voice session's flags and acts on both sides.\<close>

definition processor_of :: "('d, 'e, 'n) program \<Rightarrow> processor" where
  "processor_of g = \<lparr>p_state = g_state g, p_voice = flags_of (g_voice g), p_disconnectedSince = g_disconnectedSince g\<rparr>"

definition game_call :: "('d, 'e, 'n) platform \<Rightarrow> time \<Rightarrow> string \<Rightarrow> ('d, 'e, 'n) program \<Rightarrow> string \<times> ('d, 'e, 'n) program" where
  "game_call pf now input g =
     (case process (pf_libm pf) (pf_opusVersion pf) now input (processor_of g) of
        (answer, p) \<Rightarrow>
          (answer, g\<lparr>g_world := (g_world g)\<lparr>w_state := p_state p, w_voice := voice_input input (g_voice g)\<rparr>,
                     g_disconnectedSince := p_disconnectedSince p\<rparr>))"

text \<open>The sender thread.\<close>

definition sender_pass :: "('d, 'e, 'n) platform \<Rightarrow> time \<Rightarrow> ('d, 'e, 'n) program \<Rightarrow> (net_out list \<times> ('d, 'e, 'n) program) option" where
  "sender_pass pf now g =
     map_option (\<lambda>(out, w). (out, g\<lparr>g_world := w\<rparr>)) (tick (pf_libm pf) (pf_assets pf) now (g_world g))"

text \<open>The network thread: an iteration, whose reports it then delivers one by one.\<close>

definition network_iteration :: "('d, 'e, 'n) platform \<Rightarrow> thread_env \<Rightarrow> ('d, 'e, 'n) program \<Rightarrow> ('d, 'e, 'n) program result" where
  "network_iteration pf env g =
     rbind (thread_step (pf_sha256 pf) env (vs_network (g_voice g))) (\<lambda>(outs, n).
       Inr ((with_voice ((g_voice g)\<lparr>vs_network := n\<rparr>) g)\<lparr>g_reports := outs\<rparr>))"

definition network_report :: "('d, 'e, 'n) platform \<Rightarrow> time \<Rightarrow> bool \<Rightarrow> ('d, 'e, 'n) program \<Rightarrow> ('d, 'e, 'n) program" where
  "network_report pf now debug g =
     (case g_reports g of
        [] \<Rightarrow> g
      | out # rest \<Rightarrow> (with_voice (deliver (pf_assets pf) now debug out (g_voice g)) g)\<lparr>g_reports := rest\<rparr>)"

text \<open>The microphone thread: what a captured frame makes the controller send goes to the network client.\<close>

definition capture_frame :: "('d, 'e, 'n) platform \<Rightarrow> time \<Rightarrow> fp list \<Rightarrow> ('d, 'e, 'n) program \<Rightarrow> (net_out list \<times> ('d, 'e, 'n) program) result" where
  "capture_frame pf now raw g =
     (case onFrameCaptured (pf_libm pf) (pf_encode pf) (pf_denoise pf) now raw (vs_transmit (g_voice g)) of
        (sends, t) \<Rightarrow>
          rbind (send_frames sends (vs_network (g_voice g))) (\<lambda>(out, n).
            Inr (out, with_voice ((g_voice g)\<lparr>vs_transmit := t, vs_network := n\<rparr>) g)))"

text \<open>The loudspeaker thread: a device buffer, and the change to another device.\<close>

definition render_buffer :: "('d, 'e, 'n) platform \<Rightarrow> waveFormat \<Rightarrow> nat \<Rightarrow> ('d, 'e, 'n) program \<Rightarrow> (deviceBuffer \<times> ('d, 'e, 'n) program) option" where
  "render_buffer pf fmt k g =
     map_option (\<lambda>(b, x). (b, with_voice ((g_voice g)\<lparr>vs_playback := x\<rparr>) g))
       (fill_buffer (pf_libm pf) (pf_decode pf) fmt k (g_playback g))"

definition next_device :: "bool \<Rightarrow> 32 word \<Rightarrow> ('d, 'e, 'n) program \<Rightarrow> ('d, 'e, 'n) program" where
  "next_device rendered failures g =
     with_voice ((g_voice g)\<lparr>vs_playback := snd (after_session rendered failures (g_playback g))\<rparr>) g"

inductive program_step :: "('d, 'e, 'n) platform \<Rightarrow> ('d, 'e, 'n) program \<Rightarrow> ('d, 'e, 'n) program \<Rightarrow> bool"
  for pf :: "('d, 'e, 'n) platform" where
  game: "game_call pf now input g = (answer, g') \<Longrightarrow> program_step pf g g'"
| pass: "sender_pass pf now g = Some (out, g') \<Longrightarrow> program_step pf g g'"
| iterate: "g_reports g = [] \<Longrightarrow> network_iteration pf env g = Inr g' \<Longrightarrow> program_step pf g g'"
| report: "program_step pf g (network_report pf now debug g)"
| capture: "capture_frame pf now raw g = Inr (out, g') \<Longrightarrow> program_step pf g g'"
| render: "format_ok fmt \<Longrightarrow> k < 2 ^ 32 \<Longrightarrow> render_buffer pf fmt k g = Some (b, g') \<Longrightarrow> program_step pf g g'"
| device: "program_step pf g (next_device rendered failures g)"

abbreviation program_reaches :: "('d, 'e, 'n) platform \<Rightarrow> ('d, 'e, 'n) program \<Rightarrow> ('d, 'e, 'n) program \<Rightarrow> bool" where
  "program_reaches pf \<equiv> (program_step pf)\<^sup>*\<^sup>*"

section \<open>The invariant\<close>

text \<open>The reports still to be delivered continue the protocol of the callbacks from the connection state
  last reported to the one the client is in.\<close>

definition program_inv :: "('d, 'e, 'n) program \<Rightarrow> bool" where
  "program_inv g \<longleftrightarrow>
     ext_inv (g_state g) \<and> mixer_ok (g_playback g) \<and> gain_ok (tr_autoGain (vs_transmit (g_voice g))) \<and>
     (\<exists>up. session_inv (up, g_voice g) \<and> protocol up (g_reports g) = Some (n_connected (vs_network (g_voice g))))"

lemma with_voice_simps [simp]:
  "g_world (with_voice v g) = (g_world g)\<lparr>w_voice := v\<rparr>"
  "g_reports (with_voice v g) = g_reports g" "g_disconnectedSince (with_voice v g) = g_disconnectedSince g"
  by (simp_all add: with_voice_def)

lemma program_invI:
  "ext_inv (g_state g) \<Longrightarrow> mixer_ok (g_playback g) \<Longrightarrow> gain_ok (tr_autoGain (vs_transmit (g_voice g))) \<Longrightarrow>
   session_inv (up, g_voice g) \<Longrightarrow> protocol up (g_reports g) = Some (n_connected (vs_network (g_voice g))) \<Longrightarrow>
   program_inv g"
  by (auto simp: program_inv_def)

lemma program_invE:
  assumes "program_inv g"
  obtains up where "ext_inv (g_state g)" "mixer_ok (g_playback g)" "gain_ok (tr_autoGain (vs_transmit (g_voice g)))"
    "session_inv (up, g_voice g)" "protocol up (g_reports g) = Some (n_connected (vs_network (g_voice g)))"
  using assms by (auto simp: program_inv_def)

text \<open>The session's invariant does not speak of the network client and the transmit controller.\<close>

lemma session_inv_parts [simp]:
  "session_inv (up, s\<lparr>vs_network := n\<rparr>) = session_inv (up, s)"
  "session_inv (up, s\<lparr>vs_transmit := t\<rparr>) = session_inv (up, s)"
  "session_inv (up, s\<lparr>vs_transmit := t, vs_network := n\<rparr>) = session_inv (up, s)"
  by (simp_all add: session_inv_def)

lemma voice_input_parts:
  "vs_network (voice_input input s) = vs_network s"
  "session_inv (up, s) \<Longrightarrow> session_inv (up, voice_input input s)"
  "mixer_ok (vs_playback s) \<Longrightarrow> mixer_ok (vs_playback (voice_input input s))"
  "tr_autoGain (vs_transmit (voice_input input s)) = tr_autoGain (vs_transmit s)"
  by (auto simp: voice_input_def voice_command_def Let_def session_setPttHeld_def session_toggleMicMute_def
      session_toggleSpeakerMute_def transmit_setPttHeld_def setMicMuted_def
      intro!: step_inv session_inv_same same_paths_setters)

lemma deliver_parts:
  assumes "mixer_ok (vs_playback s)"
  shows "mixer_ok (vs_playback (deliver assets now debug out s))"
    "vs_network (deliver assets now debug out s) = vs_network s" "vs_transmit (deliver assets now debug out s) = vs_transmit s"
proof -
  show "mixer_ok (vs_playback (deliver assets now debug out s))"
  proof (cases out)
    case (Raised ev)
    with assms show ?thesis
      by (cases ev) (auto simp: on_event_def onVoiceFrame_def onRemoteJoined_def onRemoteLeft_def onRadioTx_def Let_def
          split: option.split intro!: step_inv)
  qed (auto simp: onConnectionStateChanged_def Let_def assms intro!: step_inv)
  show "vs_network (deliver assets now debug out s) = vs_network s" "vs_transmit (deliver assets now debug out s) = vs_transmit s"
    by (cases out; simp add: on_event_def onVoiceFrame_def onRemoteJoined_def onRemoteLeft_def onRadioTx_def
        onConnectionStateChanged_def Let_def split: net_event.split option.split)+
qed

text \<open>A pass taken apart: what it does to the session before the snapshot, and the state the snapshot sees.\<close>

definition before_snapshot :: "(string \<Rightarrow> pcm) \<Rightarrow> fp \<Rightarrow> (string \<times> bool) option \<Rightarrow> 'd mixer \<Rightarrow> 'd mixer" where
  "before_snapshot assets volume cue x =
     (case cue of None \<Rightarrow> id | Some (subtype, begins) \<Rightarrow> triggerLocalBeep assets subtype begins) (setMasterVolume volume x)"

lemma apply_settings_parts [simp]:
  "vs_playback (apply_settings m st v) = setMasterVolume (voiceConfigFloat st ''voice_speakerVolume'' (Fin 1)) (vs_playback v)"
  "vs_uidToSession (apply_settings m st v) = vs_uidToSession v" "vs_nameToSession (apply_settings m st v) = vs_nameToSession v"
  "vs_lastActiveSessionIds (apply_settings m st v) = vs_lastActiveSessionIds v" "vs_txCache (apply_settings m st v) = vs_txCache v"
  "tr_autoGain (vs_transmit (apply_settings m st v)) = tr_autoGain (vs_transmit v)"
  "n_connected (vs_network (apply_settings m st v)) = n_connected (vs_network v)"
  by (simp_all add: apply_settings_def Let_def session_setServer_def setter_defs setServer_def)

lemma apply_override_parts [simp]:
  "vs_playback (apply_override c v) = vs_playback v"
  "vs_uidToSession (apply_override c v) = vs_uidToSession v" "vs_nameToSession (apply_override c v) = vs_nameToSession v"
  "vs_lastActiveSessionIds (apply_override c v) = vs_lastActiveSessionIds v" "vs_txCache (apply_override c v) = vs_txCache v"
  "tr_autoGain (vs_transmit (apply_override c v)) = tr_autoGain (vs_transmit v)"
  by (auto simp: apply_override_def session_setAddonOverride_def setter_defs split: option.split)

lemma session_setIdentity_parts [simp]:
  "vs_playback (session_setIdentity u n v) = vs_playback v" "vs_transmit (session_setIdentity u n v) = vs_transmit v"
  "vs_uidToSession (session_setIdentity u n v) = vs_uidToSession v" "vs_nameToSession (session_setIdentity u n v) = vs_nameToSession v"
  "vs_lastActiveSessionIds (session_setIdentity u n v) = vs_lastActiveSessionIds v" "vs_txCache (session_setIdentity u n v) = vs_txCache v"
  "n_connected (vs_network (session_setIdentity u n v)) = n_connected (vs_network v)"
  by (simp_all add: session_setIdentity_def setIdentity_def)

lemma before_snapshot_parts:
  "mixer_ok x \<Longrightarrow> mixer_ok (before_snapshot assets volume cue x)"
  "same_paths x (before_snapshot assets volume cue x)"
  by (auto simp: before_snapshot_def split: option.split intro!: step_inv intro: same_paths_trans same_paths_setters)

lemma pull_remote_tx_inv: "ext_inv st \<Longrightarrow> ext_inv (pull_remote_tx now v st)"
  unfolding pull_remote_tx_def by (rule pull_inv)

lemma tick_cases:
  assumes "tick m assets now w = Some (out, w')"
  obtains n t volume cue st units where
    "n_connected n = n_connected (vs_network (w_voice w))"
    "tr_autoGain t = tr_autoGain (vs_transmit (w_voice w))"
    "w_voice w' = applyAudibility (map update_of units)
       ((w_voice w)\<lparr>vs_network := n, vs_transmit := t, vs_playback := before_snapshot assets volume cue (vs_playback (w_voice w))\<rparr>)"
    "computeAudibleUnits m now st = Some (units, w_state w')"
    "ext_inv (w_state w) \<longrightarrow> ext_inv st"
proof -
  define st0 where "st0 = setVoiceConnected (n_connected (vs_network (w_voice w))) (w_state w)"
  define v0 where "v0 = apply_settings m st0 (w_voice w)"
  define st1 where "st1 = setLocalTransmitting (tr_isTransmitting (vs_transmit v0)) st0"
  define v1 where "v1 = session_setIdentity (myUid st1) (m_myNickname st1) v0"
  from assms[unfolded tick_def Let_def, folded st0_def, folded v0_def, folded st1_def, folded v1_def]
  obtain cue change st3 units where
    t: "takeTransmitOverride (pull_remote_tx now v1 st1) = (change, st3)" "computeAudibleUnits m now st3 = Some (units, w_state w')"
      "w_voice w' = applyAudibility (map update_of units) (apply_override change
         (case cue of None \<Rightarrow> v1 | Some (subtype, begins) \<Rightarrow> on_playback (triggerLocalBeep assets subtype begins) v1))"
    by (auto simp: bind_eq_Some_conv split: prod.splits sum.splits)
  let ?v = "apply_override change
      (case cue of None \<Rightarrow> v1 | Some (subtype, begins) \<Rightarrow> on_playback (triggerLocalBeep assets subtype begins) v1)"
  show ?thesis
  proof (rule that)
    show "n_connected (vs_network ?v) = n_connected (vs_network (w_voice w))"
      "tr_autoGain (vs_transmit ?v) = tr_autoGain (vs_transmit (w_voice w))"
      by (simp_all add: v1_def v0_def split: option.split)
    have "?v = (w_voice w)\<lparr>vs_network := vs_network ?v, vs_transmit := vs_transmit ?v, vs_playback := before_snapshot assets
        (voiceConfigFloat st0 ''voice_speakerVolume'' (Fin 1)) cue (vs_playback (w_voice w))\<rparr>"
      by (rule session.equality) (simp_all add: v1_def v0_def before_snapshot_def split: option.split)
    from trans[OF t(3) arg_cong[OF this, of "applyAudibility (map update_of units)"]]
    show "w_voice w' = applyAudibility (map update_of units) ((w_voice w)\<lparr>vs_network := vs_network ?v,
        vs_transmit := vs_transmit ?v, vs_playback := before_snapshot assets
          (voiceConfigFloat st0 ''voice_speakerVolume'' (Fin 1)) cue (vs_playback (w_voice w))\<rparr>)"
      .
    show "computeAudibleUnits m now st3 = Some (units, w_state w')" by (rule t(2))
    show "ext_inv (w_state w) \<longrightarrow> ext_inv st3"
    proof
      assume "ext_inv (w_state w)"
      then have "ext_inv (pull_remote_tx now v1 st1)" by (simp add: st1_def st0_def pull_remote_tx_inv step_inv)
      from takeTransmitOverride_inv[OF this] t(1) show "ext_inv st3" by simp
    qed
  qed
qed

lemma applyAudibility_mixer_ok:
  assumes "mixer_ok (vs_playback v)"
  shows "mixer_ok (vs_playback (applyAudibility units v))"
proof -
  have states: "mixer_ok (fold (\<lambda>(sid, ps). setSourceStates sid ps) kvs x)" if "mixer_ok x" for kvs and x :: "'a mixer"
    using that by (induction kvs arbitrary: x) (auto intro: step_inv)
  have silence: "mixer_ok (fold (\<lambda>sid. if sid \<in> S then id else setSourceStates sid []) ids x)" if "mixer_ok x"
    for ids S and x :: "'a mixer"
    using that by (induction ids arbitrary: x) (auto intro: step_inv)
  show ?thesis using assms by (simp add: applyAudibility_def Let_def states silence)
qed

lemma applyAudibility_parts [simp]:
  "vs_transmit (applyAudibility units v) = vs_transmit v"
  "vs_uidToSession (applyAudibility units v) = vs_uidToSession v" "vs_nameToSession (applyAudibility units v) = vs_nameToSession v"
  by (simp_all add: applyAudibility_def Let_def)

lemma pass_inv:
  assumes "program_inv g" "sender_pass pf now g = Some (out, g')"
  shows "program_inv g'"
proof -
  from assms(2) obtain w' where w': "tick (pf_libm pf) (pf_assets pf) now (g_world g) = Some (out, w')"
    "g' = g\<lparr>g_world := w'\<rparr>" by (auto simp: sender_pass_def)
  from assms(1) obtain up where inv: "ext_inv (g_state g)" "mixer_ok (g_playback g)"
    "gain_ok (tr_autoGain (vs_transmit (g_voice g)))" "session_inv (up, g_voice g)"
    "protocol up (g_reports g) = Some (n_connected (vs_network (g_voice g)))" by (rule program_invE)
  from w'(1) obtain n t volume cue st units where c: "n_connected n = n_connected (vs_network (g_voice g))"
    "tr_autoGain t = tr_autoGain (vs_transmit (g_voice g))"
    "w_voice w' = applyAudibility (map update_of units) ((g_voice g)\<lparr>vs_network := n, vs_transmit := t,
       vs_playback := before_snapshot (pf_assets pf) volume cue (g_playback g)\<rparr>)"
    "computeAudibleUnits (pf_libm pf) now st = Some (units, w_state w')" "ext_inv (g_state g) \<longrightarrow> ext_inv st"
    by (rule tick_cases)
  let ?v = "(g_voice g)\<lparr>vs_network := n, vs_transmit := t, vs_playback := before_snapshot (pf_assets pf) volume cue (g_playback g)\<rparr>"
  have "session_inv (up, ?v)"
    using session_inv_same[of up "(g_voice g)\<lparr>vs_network := n, vs_transmit := t\<rparr>"] inv(4)
      before_snapshot_parts(2)[of "g_playback g" "pf_assets pf" volume cue] by simp
  then have "session_inv (up, w_voice w')" unfolding c(3) by (rule applyAudibility_inv)
  moreover have "mixer_ok (vs_playback (w_voice w'))"
    unfolding c(3) by (intro applyAudibility_mixer_ok) (simp add: before_snapshot_parts inv(2))
  moreover have "ext_inv (w_state w')" using computeAudibleUnits_inv[OF _ c(4)] c(5) inv(1) by blast
  ultimately show ?thesis using inv(3,5) c(1,2)
    by (intro program_invI[of g' up]) (simp_all add: w'(2) c(3))
qed

lemma send_frames_connected:
  "send_frames fs n = Inr (os, n') \<Longrightarrow> n_connected n' = n_connected n"
  by (induction fs n arbitrary: os rule: send_frames.induct) (fastforce simp: rbind_Inr_iff dest: sendVoice_protocol(2))+

lemma report_inv:
  assumes "program_inv g"
  shows "program_inv (network_report pf now debug g)"
proof (cases "g_reports g")
  case Nil
  then show ?thesis using assms by (simp add: network_report_def)
next
  case (Cons r rs)
  from assms obtain up where inv: "ext_inv (g_state g)" "mixer_ok (g_playback g)"
    "gain_ok (tr_autoGain (vs_transmit (g_voice g)))" "session_inv (up, g_voice g)"
    "protocol up (g_reports g) = Some (n_connected (vs_network (g_voice g)))" by (rule program_invE)
  have "Option.bind (protocol up [r]) (\<lambda>up'. protocol up' rs) = Some (n_connected (vs_network (g_voice g)))"
    using inv(5) protocol_append[of up "[r]" rs] by (simp add: Cons)
  then obtain up' where up': "protocol up [r] = Some up'" "protocol up' rs = Some (n_connected (vs_network (g_voice g)))"
    by (auto simp: bind_eq_Some_conv)
  from deliver_inv[OF inv(4) up'(1)] deliver_parts[OF inv(2)] inv(1,3) up'(2) show ?thesis
    by (intro program_invI[where up = up']) (simp_all add: network_report_def Cons)
qed

lemma game_inv:
  assumes "program_inv g"
  shows "program_inv (snd (game_call pf now input g))"
proof -
  from assms(1) obtain up where inv: "ext_inv (g_state g)" "mixer_ok (g_playback g)"
    "gain_ok (tr_autoGain (vs_transmit (g_voice g)))" "session_inv (up, g_voice g)"
    "protocol up (g_reports g) = Some (n_connected (vs_network (g_voice g)))" by (rule program_invE)
  obtain answer p where p: "process (pf_libm pf) (pf_opusVersion pf) now input (processor_of g) = (answer, p)" by force
  have "ext_inv (p_state p)"
    using process_inv[of "processor_of g" "pf_libm pf" "pf_opusVersion pf" now input] inv(1) p
    by (simp add: processor_of_def)
  with inv show ?thesis by (intro program_invI[where up = up]) (simp_all add: game_call_def p voice_input_parts)
qed

lemma iterate_inv:
  assumes "program_inv g" "g_reports g = []" "network_iteration pf env g = Inr g'"
  shows "program_inv g'"
proof -
  from assms(1) obtain up where inv: "ext_inv (g_state g)" "mixer_ok (g_playback g)"
    "gain_ok (tr_autoGain (vs_transmit (g_voice g)))" "session_inv (up, g_voice g)"
    "protocol up (g_reports g) = Some (n_connected (vs_network (g_voice g)))" by (rule program_invE)
  from assms(3) obtain outs n where n: "thread_step (pf_sha256 pf) env (vs_network (g_voice g)) = Inr (outs, n)"
    "g' = (with_voice ((g_voice g)\<lparr>vs_network := n\<rparr>) g)\<lparr>g_reports := outs\<rparr>"
    by (auto simp: network_iteration_def rbind_Inr_iff)
  have "up = n_connected (vs_network (g_voice g))" using inv(5) assms(2) by simp
  with thread_protocol[OF n(1)] inv show ?thesis by (intro program_invI[of g' up]) (simp_all add: n(2))
qed

lemma capture_inv:
  assumes "program_inv g" "capture_frame pf now raw g = Inr (out, g')"
  shows "program_inv g'"
proof -
  from assms(1) obtain up where inv: "ext_inv (g_state g)" "mixer_ok (g_playback g)"
    "gain_ok (tr_autoGain (vs_transmit (g_voice g)))" "session_inv (up, g_voice g)"
    "protocol up (g_reports g) = Some (n_connected (vs_network (g_voice g)))" by (rule program_invE)
  obtain sends t where f: "onFrameCaptured (pf_libm pf) (pf_encode pf) (pf_denoise pf) now raw (vs_transmit (g_voice g)) = (sends, t)"
    by force
  from assms(2) f obtain n where n: "send_frames sends (vs_network (g_voice g)) = Inr (out, n)"
    "g' = with_voice ((g_voice g)\<lparr>vs_transmit := t, vs_network := n\<rparr>) g"
    by (auto simp: capture_frame_def rbind_Inr_iff)
  have "gain_ok (tr_autoGain t)"
    using gain_step[OF inv(3), of "pf_libm pf" "pf_encode pf" "pf_denoise pf" "Frame now raw"] by (simp add: f)
  with inv send_frames_connected[OF n(1)] show ?thesis by (intro program_invI[of g' up]) (simp_all add: n(2))
qed

lemma render_inv:
  assumes "program_inv g" "format_ok fmt" "k < 2 ^ 32" "render_buffer pf fmt k g = Some (b, g')"
  shows "program_inv g'"
proof -
  from assms(1) obtain up where inv: "ext_inv (g_state g)" "mixer_ok (g_playback g)"
    "gain_ok (tr_autoGain (vs_transmit (g_voice g)))" "session_inv (up, g_voice g)"
    "protocol up (g_reports g) = Some (n_connected (vs_network (g_voice g)))" by (rule program_invE)
  from assms(4) obtain x where x: "fill_buffer (pf_libm pf) (pf_decode pf) fmt k (g_playback g) = Some (b, x)"
    "g' = with_voice ((g_voice g)\<lparr>vs_playback := x\<rparr>) g" by (auto simp: render_buffer_def)
  have "mixer_ok x" using fill_buffer_ok[OF inv(2) assms(2,3), of "pf_libm pf" "pf_decode pf"] x(1) by auto
  with inv session_inv_same[OF inv(4) fill_buffer_paths[OF x(1)]] show ?thesis
    by (intro program_invI[of g' up]) (simp_all add: x(2))
qed

lemma device_inv:
  assumes "program_inv g"
  shows "program_inv (next_device rendered failures g)"
proof -
  from assms(1) obtain up where inv: "ext_inv (g_state g)" "mixer_ok (g_playback g)"
    "gain_ok (tr_autoGain (vs_transmit (g_voice g)))" "session_inv (up, g_voice g)"
    "protocol up (g_reports g) = Some (n_connected (vs_network (g_voice g)))" by (rule program_invE)
  with session_inv_same[OF inv(4) same_paths_setters(4)] show ?thesis
    by (intro program_invI[where up = up]) (simp_all add: next_device_def step_inv)
qed

lemma program_step_inv: "program_step pf g g' \<Longrightarrow> program_inv g \<Longrightarrow> program_inv g'"
  by (induction rule: program_step.induct)
    (metis game_inv snd_conv, metis pass_inv, metis iterate_inv, metis report_inv, metis capture_inv, metis render_inv,
     metis device_inv)

interpretation program_system:
  transition_system "program_step pf" "\<lambda>g. \<exists>e n spawn. g = program_start (new_transmit e n) (new_mixer spawn)" program_inv
  for pf
proof
  fix g :: "('d, 'e, 'n) program"
  assume "\<exists>e n spawn. g = program_start (new_transmit e n) (new_mixer spawn)"
  then obtain e n spawn where g: "g = program_start (new_transmit e n) (new_mixer spawn)" by blast
  have "session_inv (False, start_session (new_transmit e n) (new_mixer spawn))"
    using session_system.init_inv by blast
  moreover have "gain_ok (tr_autoGain (new_transmit e n))"
    using agc_limits(1) by (simp add: new_transmit_def kAgcMinGain_def)
  ultimately show "program_inv g"
    by (intro program_invI[where up = False])
      (simp_all add: g program_start_def ext_inv_init start_session_def mixer_ok_new setIdentity_def init_net_def)
qed (rule program_step_inv)

lemma program_reaches_inv:
  "program_reaches pf (program_start (new_transmit e n) (new_mixer spawn)) g \<Longrightarrow> program_inv g"
  by (rule program_system.reachable_inv) blast+

text \<open>A run: the player joins as a spectator, beside another spectator, Ann; the server is configured; a pass
  hands the settings over, the client connects and learns of Ann.\<close>

definition test_platform :: "(unit, unit, unit) platform" where
  "test_platform = \<lparr>pf_libm = axis_libm, pf_decode = (\<lambda>d p. (0, [], d)), pf_encode = (\<lambda>e p n. (0, [], e)),
     pf_denoise = (\<lambda>s x. (x, s)), pf_assets = (\<lambda>_. []), pf_opusVersion = [], pf_sha256 = zero_sha\<rparr>"

definition game_calls :: "string list" where
  "game_calls = map (\<lambda>ts. join tab ts @ ''~'')
     [[''FREQ'', ''[]'', ''[]'', ''true'', ''20'', ''Bob'', ''0'', ''7'', ''1'', ''1'', ''20''],
      [''POS'', ''Bob'', ''[1,2,3]'', ''[0,1,0]'', ''true'', ''false'', ''false'', ''false'', ''no'', ''0'', ''1'', ''0'', ''true'', ''false''],
      [''POS'', ''Ann'', ''[1,2,3]'', ''[0,1,0]'', ''true'', ''false'', ''false'', ''false'', ''no'', ''0'', ''1'', ''0'', ''true'', ''false''],
      [''SETCFG'', ''voice_serverHost'', ''relay'', ''STRING'']]"

definition join_env :: thread_env where
  "join_env = \<lparr>te_attempts = (\<lambda>i. \<lparr>at_resolved = True, at_opened = True, at_sent = True,
       at_recvs = [Datagram (packet_code ConnectAccept # enc32 9)]\<rparr>),
     te_connectTime = ms 100, te_recvs = [(ms 120, Datagram (event_bytes (RemoteJoined 7 ''u7'' ''Ann'')))],
     te_running = True, te_now = ms 130\<rparr>"

definition lobby :: "(unit, unit, unit) program option" where
  "lobby = Option.bind
     (sender_pass test_platform (ms 66)
       (fold (\<lambda>input g. snd (game_call test_platform (ms 1) input g)) game_calls
         (program_start (new_transmit None None) (new_mixer (\<lambda>_. (Some (), \<lambda>_ _. Fin 0))))))
     (\<lambda>(out, g). case network_iteration test_platform join_env g of
        Inl _ \<Rightarrow> None
      | Inr g \<Rightarrow> Some (((network_report test_platform (ms 130) False) ^^ 4) g))"

lemma lobby_heard:
  "Option.bind lobby (\<lambda>g. map_option (\<lambda>(out, g'). (mx_debugForceAudible (g_playback g),
       map (\<lambda>(sid, src). (sid, length (so_states src))) (mx_sources (g_playback g')))) (sender_pass test_platform (ms 132) g)) =
   Some (False, [(7, 1)])"
  by code_simp

lemma game_calls_reach:
  "program_reaches pf g (fold (\<lambda>input g. snd (game_call pf now input g)) inputs g)"
  "g_reports (fold (\<lambda>input g. snd (game_call pf now input g)) inputs g) = g_reports g"
proof -
  have step: "program_step pf g (snd (game_call pf now input g))" for input g
    by (rule program_step.game[of pf now input g "fst (game_call pf now input g)"]) simp
  show "program_reaches pf g (fold (\<lambda>input g. snd (game_call pf now input g)) inputs g)"
    by (induction inputs arbitrary: g) (auto intro: step converse_rtranclp_into_rtranclp)
  have "g_reports (snd (game_call pf now input g)) = g_reports g" for input g
    by (simp add: game_call_def split: prod.split)
  then show "g_reports (fold (\<lambda>input g. snd (game_call pf now input g)) inputs g) = g_reports g"
    by (induction inputs arbitrary: g) simp_all
qed

lemma reports_reach: "program_reaches pf g ((network_report pf now debug ^^ k) g)"
  by (induction k) (auto intro: rtranclp.rtrancl_into_rtrancl program_step.report)

lemma lobby_reached:
  assumes "lobby = Some g"
  shows "program_reaches test_platform (program_start (new_transmit None None) (new_mixer (\<lambda>_. (Some (), \<lambda>_ _. Fin 0)))) g"
proof -
  let ?s = "program_start (new_transmit None None) (new_mixer (\<lambda>_. (Some (), \<lambda>_ _. Fin 0))) :: (unit, unit, unit) program"
  define g1 where "g1 = fold (\<lambda>input g. snd (game_call test_platform (ms 1) input g)) game_calls ?s"
  from assms obtain out g2 where p: "sender_pass test_platform (ms 66) g1 = Some (out, g2)"
    "(case network_iteration test_platform join_env g2 of Inl _ \<Rightarrow> None
      | Inr g \<Rightarrow> Some ((network_report test_platform (ms 130) False ^^ 4) g)) = Some g"
    unfolding lobby_def g1_def[symmetric] bind_eq_Some_conv by auto
  then obtain g3 where s: "sender_pass test_platform (ms 66) g1 = Some (out, g2)"
    "network_iteration test_platform join_env g2 = Inr g3" "g = (network_report test_platform (ms 130) False ^^ 4) g3"
    by (cases "network_iteration test_platform join_env g2") auto
  have "g_reports g1 = []" unfolding g1_def game_calls_reach(2) by (simp add: program_start_def)
  then have r: "g_reports g2 = []" using s(1) by (auto simp: sender_pass_def)
  have "program_reaches test_platform ?s g1" unfolding g1_def by (rule game_calls_reach(1))
  also have "program_step test_platform g1 g2" by (rule program_step.pass[OF s(1)])
  also have "program_step test_platform g2 g3" by (rule program_step.iterate[OF r s(2)])
  also have "program_reaches test_platform g3 g" unfolding s(3) by (rule reports_reach)
  finally show ?thesis .
qed

section \<open>No thread gets stuck\<close>

lemma send_frames_total: "\<exists>out n'. send_frames fs n = Inr (out, n')"
proof (induction fs arbitrary: n)
  case (Cons f fs)
  obtain opus isLast where f: "f = (opus, isLast)" by force
  obtain os m where "sendVoiceFrame opus isLast n = Inr (os, m)"
    by (cases "sendVoiceFrame opus isLast n") (auto simp: sendVoiceFrame_def voice_packet_eq Let_def split: if_splits)
  with Cons[of m] show ?case by (auto simp: f rbind_Inr_iff)
qed simp

text \<open>C4. Whatever the game, the server, the devices and the player do, and however the five threads
  interleave, none of them gets stuck: the next pass of the sender thread, iteration of the network
  thread and captured frame complete, and the next device buffer is filled completely. A client whose
  network thread reported the loss of the connection plays nobody.\<close>

theorem program_never_stuck:
  assumes "program_reaches pf (program_start (new_transmit e n) (new_mixer spawn)) g"
    and "atan2_doc (pf_libm pf)" "sha_doc (pf_sha256 pf)" "format_ok fmt" "k < 2 ^ 32"
  shows "(\<exists>out g'. sender_pass pf now g = Some (out, g')) \<and> (\<exists>g'. network_iteration pf env g = Inr g') \<and>
    (\<exists>out g'. capture_frame pf now raw g = Inr (out, g')) \<and>
    (\<exists>b g'. render_buffer pf fmt k g = Some (b, g') \<and> buffer_length b = k * wf_channels fmt) \<and>
    (g_reports g = [] \<and> \<not> n_connected (vs_network (g_voice g)) \<longrightarrow> mx_sources (g_playback g) = [])"
proof (intro conjI)
  from program_reaches_inv[OF assms(1)] obtain up where inv: "mixer_ok (g_playback g)" "session_inv (up, g_voice g)"
    "protocol up (g_reports g) = Some (n_connected (vs_network (g_voice g)))" by (rule program_invE)
  show "\<exists>out g'. sender_pass pf now g = Some (out, g')"
    using tick_total[OF assms(2), of "pf_assets pf" now "g_world g"] by (auto simp: sender_pass_def)
  show "\<exists>g'. network_iteration pf env g = Inr g'"
    using thread_step_total[OF assms(3), of env "vs_network (g_voice g)"] by (auto simp: network_iteration_def)
  show "\<exists>out g'. capture_frame pf now raw g = Inr (out, g')"
    using send_frames_total by (auto simp: capture_frame_def rbind_Inr_iff split: prod.split)
  show "\<exists>b g'. render_buffer pf fmt k g = Some (b, g') \<and> buffer_length b = k * wf_channels fmt"
    using fill_buffer_ok[OF inv(1) assms(4,5), of "pf_libm pf" "pf_decode pf"] by (auto simp: render_buffer_def)
  show "g_reports g = [] \<and> \<not> n_connected (vs_network (g_voice g)) \<longrightarrow> mx_sources (g_playback g) = []"
    using inv(2,3) by (auto simp: session_inv_def)
qed

lemma program_never_stuck_witness:
  "\<exists>g out g' b g''. lobby = Some g \<and> sender_pass test_platform (ms 132) g = Some (out, g') \<and>
     render_buffer test_platform stereo_48k 480 g = Some (b, g'') \<and> buffer_length b = 960"
proof -
  from lobby_heard obtain g where g: "lobby = Some g" by (auto simp: bind_eq_Some_conv)
  have "atan2_doc (pf_libm test_platform)" "sha_doc (pf_sha256 test_platform)"
    by (simp_all add: test_platform_def axis_libm_doc zero_sha_doc)
  from program_never_stuck[OF lobby_reached[OF g] this, of stereo_48k 480 "ms 132"] g show ?thesis
    by (simp add: format_ok_def stereo_48k_def) blast
qed

section \<open>Who is heard\<close>

lemma receiving_setting_cong:
  assumes "m_lrFrequencies s' = m_lrFrequencies s" "m_swFrequencies s' = m_swFrequencies s" "m_tangentPressed s' = m_tangentPressed s"
    "m_txRadioClassname s' = m_txRadioClassname s" "configBool s' = configBool s"
  shows "receiving_setting s' = receiving_setting s"
  by (intro ext) (unfold receiving_setting_def assms, rule refl)

lemma computeAudibleUnits_frame:
  assumes "computeAudibleUnits m now s = Some (us, s')"
  shows "m_clients s' = m_clients s" "m_myNickname s' = m_myNickname s" "uidFor s' = uidFor s" "fresh_tx s' = fresh_tx s"
    "receiving_setting s' = receiving_setting s"
proof -
  from assms obtain rs where s': "s' = snapshot_state s now rs" by (auto simp: computeAudibleUnits_eq)
  show "m_clients s' = m_clients s" "m_myNickname s' = m_myNickname s" "uidFor s' = uidFor s" "fresh_tx s' = fresh_tx s"
    by (simp_all add: s' snapshot_state_def fun_eq_iff uidFor_def fresh_tx_def)
  show "receiving_setting s' = receiving_setting s"
    by (rule receiving_setting_cong) (simp_all add: s' snapshot_state_def fun_eq_iff configBool_def)
qed

lemma radio_effect: "parseSourceEffect fx \<in> {Sw, Lr, Airborne, Dd, Phone} \<Longrightarrow> fx \<in> radio_fx"
  by (auto simp: parseSourceEffect_def radio_fx_def split: if_splits)

text \<open>After a pass, every path of a source is that of a unit of the snapshot that resolves to it.\<close>

lemma pass_paths:
  assumes "program_inv g" "sender_pass pf now g = Some (out, g')" "\<not> mx_debugForceAudible (g_playback g)"
    and "(sid, src) \<in> set (mx_sources (g_playback g'))" "path \<in> set (so_states src)"
  obtains st units u where "computeAudibleUnits (pf_libm pf) now st = Some (units, g_state g')" "ext_inv st" "u \<in> set units"
    "path = path_of (update_of u)" "resolve_unit (update_of u) (g_voice g') = Some sid"
proof -
  from assms(2) obtain w' where w': "tick (pf_libm pf) (pf_assets pf) now (g_world g) = Some (out, w')"
    "g' = g\<lparr>g_world := w'\<rparr>" by (auto simp: sender_pass_def)
  from assms(1) obtain up where inv: "ext_inv (g_state g)" "session_inv (up, g_voice g)" by (rule program_invE)
  from w'(1) obtain n t volume cue st units where c:
    "w_voice w' = applyAudibility (map update_of units) ((g_voice g)\<lparr>vs_network := n, vs_transmit := t,
       vs_playback := before_snapshot (pf_assets pf) volume cue (g_playback g)\<rparr>)"
    "computeAudibleUnits (pf_libm pf) now st = Some (units, w_state w')" "ext_inv (g_state g) \<longrightarrow> ext_inv st"
    by (rule tick_cases)
  let ?x = "before_snapshot (pf_assets pf) volume cue (g_playback g)"
  let ?v = "(g_voice g)\<lparr>vs_network := n, vs_transmit := t, vs_playback := ?x\<rparr>"
  note same = before_snapshot_parts(2)[of "g_playback g" "pf_assets pf" volume cue]
  have "session_inv (up, ?v)"
    using session_inv_same[of up "(g_voice g)\<lparr>vs_network := n, vs_transmit := t\<rparr>"] inv(2) same by simp
  then have x: "uwf (mx_sources ?x)" "\<not> mx_debugForceAudible ?x"
    "\<And>sid src. (sid, src) \<in> set (mx_sources ?x) \<Longrightarrow> sid \<notin> set (vs_lastActiveSessionIds (g_voice g)) \<Longrightarrow> so_states src = []"
    using assms(3) same_paths_sources(4)[OF same] by (auto simp: session_inv_def paths_def)
  from applyAudibility_sources(1)[of ?v "map update_of units"] x(1,2) assms(4) obtain src0 where
    "(sid, src0) \<in> set (mx_sources ?x)"
    "src = (if heard_as (map update_of units) ?v sid \<noteq> [] \<or> sid \<in> set (vs_lastActiveSessionIds (g_voice g))
       then setStates (heard_as (map update_of units) ?v sid) src0 else src0)"
    by (auto simp: w'(2) c(1))
  with x(3) assms(5) have "path \<in> set (heard_as (map update_of units) ?v sid)"
    by (auto simp: setStates_def split: if_splits)
  then obtain u where u: "u \<in> set units" "path = path_of (update_of u)" "resolve_unit (update_of u) ?v = Some sid"
    by (auto simp: heard_as_def)
  have "resolve_unit (update_of u) (g_voice g') = resolve_unit (update_of u) ?v"
    by (simp add: w'(2) c(1) resolve_unit_def split: option.split)
  with u c(2,3) inv(1) show ?thesis by (intro that) (simp_all add: w'(2))
qed

text \<open>C3. End to end: after any pass of the sender thread, in any run of the program, each path through which
  the mixer plays a remote speaker belongs to another player whose position is less than six seconds
  old and who is on the roster under that session; its gain is not negative and its error level a
  fraction. A radio path needs a transmission of that player less than 1.5 seconds old on a frequency of
  a radio the local player has and, with \<open>full_duplex\<close> off, is not itself transmitting with. (Off while
  the server forces everybody audible.)\<close>

theorem heard_only_as_solved:
  assumes "program_reaches pf (program_start (new_transmit e n) (new_mixer spawn)) g"
    and "sender_pass pf now g = Some (out, g')" "\<not> mx_debugForceAudible (g_playback g)"
    and "(sid, src) \<in> set (mx_sources (g_playback g'))" "path \<in> set (so_states src)"
  shows "\<exists>name c. uget (m_clients (g_state g')) name = Some c \<and> name \<noteq> m_myNickname (g_state g') \<and>
      now - rc_lastUpdate c < kClientExpiry \<and>
      (uget (vs_uidToSession (g_voice g')) (uidFor (g_state g') name) = Some sid \<or>
       uget (vs_nameToSession (g_voice g')) name = Some sid) \<and>
      \<not> flt (rs_gain path) (Fin 0) \<and> err_ok (rs_errorLevel path) \<and>
      (rs_effect path \<in> {Sw, Lr, Airborne, Dd, Phone} \<longrightarrow>
        (\<exists>tx me setting viaLr. fresh_tx (g_state g') now name = Some tx \<and>
           receiving_setting (g_state g') me tx = Some (setting, viaLr)))"
proof -
  from pass_paths[OF program_reaches_inv[OF assms(1)] assms(2-5)] obtain st units u where
    p: "computeAudibleUnits (pf_libm pf) now st = Some (units, g_state g')" "ext_inv st" "u \<in> set units"
      "path = path_of (update_of u)" "resolve_unit (update_of u) (g_voice g') = Some sid" .
  note frame = computeAudibleUnits_frame[OF p(1)]
  from snapshot_unit[OF p(1,3,2)] obtain me other u0 where
    h: "uget (m_clients st) (au_nickname u) = Some other" "other \<in> set (considered st now)" "rc_nickname other = au_nickname u"
      "u = finish_unit st u0" "unit_ok other u0" "path_ok st now me other u0" by blast
  have path: "rs_gain path = au_gain u" "rs_errorLevel path = au_err u" "rs_effect path = parseSourceEffect (au_fx u)"
    by (simp_all add: p(4) path_of_def update_of_def)
  have fin: "au_err u = au_err u0" "au_fx u = au_fx u0" "au_uid u = uidFor st (au_nickname u)" "\<not> flt (au_gain u) (Fin 0)"
    by (auto simp: h(4) finish_unit_def Let_def)
  have "uget (vs_uidToSession (g_voice g')) (uidFor st (au_nickname u)) = Some sid \<or>
      uget (vs_nameToSession (g_voice g')) (au_nickname u) = Some sid"
    using p(5) fin(3) by (auto simp: resolve_unit_def update_of_def split: option.splits if_splits)
  moreover have "\<exists>tx setting viaLr. fresh_tx st now (au_nickname u) = Some tx \<and> receiving_setting st me tx = Some (setting, viaLr)"
    if "rs_effect path \<in> {Sw, Lr, Airborne, Dd, Phone}"
    using h(3,6) radio_effect that unfolding path fin(2) by (auto simp: path_ok_def heard_on_def)
  ultimately show ?thesis
    using h(1,3,5) consideredD[OF h(2) p(2)] fin unfolding frame path
    by (intro exI[of _ "au_nickname u"] exI[of _ other]) (auto simp: unit_ok_def)
qed

lemma heard_only_as_solved_witness:
  "\<exists>g out g' name c. lobby = Some g \<and> sender_pass test_platform (ms 132) g = Some (out, g') \<and>
     uget (m_clients (g_state g')) name = Some c \<and> name \<noteq> m_myNickname (g_state g') \<and>
     (uget (vs_uidToSession (g_voice g')) (uidFor (g_state g') name) = Some 7 \<or> uget (vs_nameToSession (g_voice g')) name = Some 7)"
proof -
  from lobby_heard obtain g out g' where g: "lobby = Some g" "sender_pass test_platform (ms 132) g = Some (out, g')"
    "\<not> mx_debugForceAudible (g_playback g)"
    "map (\<lambda>(sid, src). (sid, length (so_states src))) (mx_sources (g_playback g')) = [(7, 1)]"
    by (auto simp: bind_eq_Some_conv)
  then obtain src path where "(7, src) \<in> set (mx_sources (g_playback g'))" "path \<in> set (so_states src)"
    by (auto simp: length_Suc_conv)
  from heard_only_as_solved[OF lobby_reached[OF g(1)] g(2,3) this] g(1,2) show ?thesis by blast
qed

end
