(* ===== verification/Platform.thy ===== *)
theory Platform
  imports Mixer
begin

text \<open>
  The thin wrappers around the operating system: \<open>src/Voice/AudioDeviceUtil.cpp\<close>, the device query of
  \<open>src/Voice/WasapiCaptureEngine.cpp\<close> and the text \<open>src/Voice/Log.cpp\<close> writes. What the COM calls
  answer is data: a missing value is a failed call or a null pointer.
\<close>

section \<open>Audio endpoints\<close>

datatype audioFlow = Capture | Render

text \<open>A device as its interfaces answer; the volume interface has a mute flag and a level, each of which
  may fail to be read.\<close>

record mmDevice =
  dv_id :: "string option"
  dv_volume :: "(bool option \<times> fp option) option"

text \<open>The enumerator, when it could be created: the default endpoint of each flow.\<close>

type_synonym enumerator = "audioFlow \<Rightarrow> mmDevice option"

definition getDefaultDevice :: "enumerator option \<Rightarrow> audioFlow \<Rightarrow> mmDevice option" where
  "getDefaultDevice e flow = (case e of None \<Rightarrow> None | Some endpoint \<Rightarrow> endpoint flow)"

definition getDeviceId :: "mmDevice option \<Rightarrow> string" where
  "getDeviceId device = (case device of None \<Rightarrow> [] | Some d \<Rightarrow> (case dv_id d of None \<Rightarrow> [] | Some i \<Rightarrow> i))"

definition getDefaultDeviceId :: "enumerator option \<Rightarrow> audioFlow \<Rightarrow> string" where
  "getDefaultDeviceId e flow =
     (case getDefaultDevice e flow of None \<Rightarrow> [] | Some d \<Rightarrow> getDeviceId (Some d))"

definition isMutedOrZeroVolume :: "mmDevice option \<Rightarrow> bool" where
  "isMutedOrZeroVolume device =
     (case device of
        None \<Rightarrow> False
      | Some d \<Rightarrow>
          (case dv_volume d of
             None \<Rightarrow> False
           | Some (mute, vol) \<Rightarrow>
               let muted = (case mute of None \<Rightarrow> False | Some b \<Rightarrow> b);
                   level = (case vol of None \<Rightarrow> Fin 1 | Some l \<Rightarrow> l)
               in muted \<or> flt level (lit32 (1 / 100))))"

definition isDeviceMutedAtOsLevel :: "enumerator option \<Rightarrow> bool" where
  "isDeviceMutedAtOsLevel e = isMutedOrZeroVolume (getDefaultDevice e Capture)"

section \<open>Mix formats\<close>

text \<open>\<open>WAVEFORMATEX\<close> with, behind it, the sub-format an extensible format carries.\<close>

record waveFormatEx =
  fx_wFormatTag :: "16 word"
  fx_nChannels :: "16 word"
  fx_nSamplesPerSec :: "32 word"
  fx_wBitsPerSample :: "16 word"
  fx_cbSize :: "16 word"
  fx_subFormat :: "byte list"

definition kWaveFormatIeeeFloat :: "16 word" where "kWaveFormatIeeeFloat = 3"
definition kWaveFormatExtensible :: "16 word" where "kWaveFormatExtensible = 0xFFFE"

text \<open>The 16 bytes of the GUID in memory.\<close>

definition kSubtypeIeeeFloat :: "byte list" where
  "kSubtypeIeeeFloat = [3, 0, 0, 0, 0, 0, 0x10, 0, 0x80, 0, 0, 0xAA, 0, 0x38, 0x9B, 0x71]"

text \<open>\<open>sizeof(WAVEFORMATEXTENSIBLE) - sizeof(WAVEFORMATEX)\<close>.\<close>

definition kExtensibleExtra :: "16 word" where "kExtensibleExtra = 22"

definition isFloatFormat :: "waveFormatEx \<Rightarrow> bool" where
  "isFloatFormat f =
     (if fx_wFormatTag f = kWaveFormatIeeeFloat then True
      else if fx_wFormatTag f = kWaveFormatExtensible \<and> kExtensibleExtra \<le> fx_cbSize f
      then fx_subFormat f = kSubtypeIeeeFloat
      else False)"

text \<open>What the device sessions read off the mix format.\<close>

definition read_format :: "waveFormatEx \<Rightarrow> waveFormat" where
  "read_format f = \<lparr>wf_samplesPerSec = uint (fx_nSamplesPerSec f), wf_channels = unat (fx_nChannels f),
     wf_bitsPerSample = unat (fx_wBitsPerSample f), wf_isFloat = isFloatFormat f\<rparr>"

section \<open>Log lines\<close>

fun digits :: "nat \<Rightarrow> nat \<Rightarrow> nat list" where
  "digits b n = (if b < 2 \<or> n < b then [n] else digits b (n div b) @ [n mod b])"

declare digits.simps [simp del]

definition digit_char :: "nat \<Rightarrow> char" where
  "digit_char d = (if d < 10 then char_of (48 + d) else char_of (55 + d))"

text \<open>\<open>%0wd\<close> and \<open>%0wX\<close>: padded with zeros on the left, never cut.\<close>

definition padded :: "nat \<Rightarrow> nat \<Rightarrow> nat \<Rightarrow> string" where
  "padded b width n = (let s = map digit_char (digits b n) in replicate (width - length s) (CHR ''0'') @ s)"

definition toHex :: "32 word \<Rightarrow> string" where
  "toHex value = padded 16 8 (unat value)"

record systemTime =
  st_year :: "16 word"
  st_month :: "16 word"
  st_day :: "16 word"
  st_hour :: "16 word"
  st_minute :: "16 word"
  st_second :: "16 word"

text \<open>\<open>snprintf\<close> into 32 bytes keeps 31 characters.\<close>

definition log_prefix :: "systemTime \<Rightarrow> string" where
  "log_prefix st = take 31 (''['' @ padded 10 4 (unat (st_year st)) @ ''-'' @ padded 10 2 (unat (st_month st)) @
     ''-'' @ padded 10 2 (unat (st_day st)) @ '' '' @ padded 10 2 (unat (st_hour st)) @ '':'' @
     padded 10 2 (unat (st_minute st)) @ '':'' @ padded 10 2 (unat (st_second st)) @ ''] '')"

definition log_line :: "systemTime \<Rightarrow> string \<Rightarrow> string" where
  "log_line st message = log_prefix st @ message @ [char_of (13 :: nat), char_of (10 :: nat)]"

section \<open>Facts\<close>

text \<open>A failed device query never ends a running session: the poll only reacts to another device's id.\<close>

lemma failed_query_keeps_session:
  "getDefaultDevice e flow = None \<Longrightarrow>
     fst (device_switched deviceId lastCheck now (getDefaultDeviceId e flow)) = False"
  by (simp add: getDefaultDeviceId_def device_switched_def)

lemma length_digits: "1 < b \<Longrightarrow> n < b ^ k \<Longrightarrow> 0 < k \<Longrightarrow> length (digits b n) \<le> k"
proof (induction b n arbitrary: k rule: digits.induct)
  case (1 b n)
  show ?case
  proof (cases "n < b")
    case False
    then obtain k' where k: "k = Suc k'" "0 < k'" using 1(3,4) by (cases k; cases "k - 1") auto
    have "n div b < b ^ k'" using 1(2,3) by (simp add: k div_less_iff_less_mult mult.commute)
    with 1(1)[OF _ 1(2) this k(2)] 1(2) False show ?thesis by (subst digits.simps) (simp add: k)
  qed (use 1 in \<open>subst digits.simps; simp\<close>)
qed

definition undigits :: "nat \<Rightarrow> nat list \<Rightarrow> nat" where
  "undigits b ds = foldl (\<lambda>a d. a * b + d) 0 ds"

lemma undigits_digits: "undigits b (digits b n) = n"
proof (induction b n rule: digits.induct)
  case (1 b n)
  then show ?case by (subst digits.simps) (auto simp: undigits_def)
qed

lemma digits_less: "1 < b \<Longrightarrow> d \<in> set (digits b n) \<Longrightarrow> d < b"
proof (induction b n rule: digits.induct)
  case (1 b n)
  then show ?case by (subst (asm) (2) digits.simps) (auto split: if_splits)
qed

text \<open>An error code is logged as exactly eight digits, which say which code it was.\<close>

definition hex_val :: "char \<Rightarrow> nat" where
  "hex_val c = (if of_char c < (58 :: nat) then of_char c - 48 else of_char c - 55)"

lemma hex_val_digit: "d < 16 \<Longrightarrow> hex_val (digit_char d) = d"
  by (simp add: hex_val_def digit_char_def)

lemma undigits_zeros: "undigits b (replicate k 0 @ ds) = undigits b ds"
  by (induction k) (simp_all add: undigits_def)

lemma toHex_faithful: "length (toHex v) = 8 \<and> undigits 16 (map hex_val (toHex v)) = unat v"
proof -
  have len: "length (digits 16 (unat v)) \<le> 8"
  proof (rule length_digits)
    have "unat v < 2 ^ LENGTH(32)" by (rule unsigned_less)
    then show "unat v < 16 ^ 8" by simp
  qed simp_all
  have "map (hex_val \<circ> digit_char) (digits 16 (unat v)) = digits 16 (unat v)"
    using digits_less[of 16 _ "unat v"] by (intro map_idI) (auto simp: hex_val_digit)
  moreover have "hex_val (CHR ''0'') = 0" by (simp add: hex_val_def)
  ultimately show ?thesis
    using len by (simp add: toHex_def padded_def Let_def undigits_zeros undigits_digits)
qed

end
