(* ===== verification/Lifecycle.thy ===== *)
theory Lifecycle
  imports ExtTick
begin

text \<open>
  Starting and stopping: the worker threads of \<open>src/Voice/PlaybackMixer.cpp\<close>,
  \<open>src/Voice/WasapiCaptureEngine.cpp\<close> and \<open>src/Voice/VoiceNetworkClient.cpp\<close>, the session that owns
  them, and the first call and the unloading of the extension (\<open>src/Extension.cpp\<close>).
\<close>

section \<open>Workers\<close>

text \<open>A worker object: its two flags and whether its \<open>std::thread\<close> is joinable. \<open>None\<close> is
  \<open>std::terminate\<close>, which assigning to a joinable thread means. A \<open>join\<close> returns because every worker's
  loop ends on its flag.\<close>

record worker =
  wo_running :: bool
  wo_stopRequested :: bool
  wo_joinable :: bool

definition new_worker :: worker where
  "new_worker = \<lparr>wo_running = False, wo_stopRequested = False, wo_joinable = False\<rparr>"

definition spawn :: "worker \<Rightarrow> worker option" where
  "spawn w = (if wo_joinable w then None else Some (w\<lparr>wo_joinable := True\<rparr>))"

text \<open>\<open>PlaybackMixer\<close> and \<open>WasapiCaptureEngine\<close>.\<close>

definition engine_start :: "worker \<Rightarrow> worker option" where
  "engine_start w =
     (if wo_running w then Some w
      else spawn (w\<lparr>wo_running := True, wo_stopRequested := False\<rparr>))"

definition engine_stop :: "worker \<Rightarrow> worker" where
  "engine_stop w =
     (if \<not> wo_running w then w
      else w\<lparr>wo_stopRequested := True, wo_joinable := False, wo_running := False\<rparr>)"

text \<open>\<open>VoiceNetworkClient\<close>: the first flag is \<open>m_running\<close>, and \<open>m_started\<close> guards the start.\<close>

record client_worker = worker +
  wo_started :: bool

definition new_client_worker :: client_worker where
  "new_client_worker = \<lparr>wo_running = False, wo_stopRequested = False, wo_joinable = False, wo_started = False\<rparr>"

definition client_start :: "client_worker \<Rightarrow> client_worker option" where
  "client_start w =
     (if wo_started w then Some w
      else
        let w = w\<lparr>wo_started := True, wo_running := True\<rparr>
        in if wo_joinable w then None else Some (w\<lparr>wo_joinable := True\<rparr>))"

definition client_stop :: "client_worker \<Rightarrow> client_worker" where
  "client_stop w = w\<lparr>wo_running := False, wo_joinable := False\<rparr>"

text \<open>\<open>TransmitController\<close> sets its callback and starts the engine that captures for it; capture delivers no
  frame before that.\<close>

definition transmit_start :: "worker \<Rightarrow> worker option" where "transmit_start capture = engine_start capture"
definition transmit_stop :: "worker \<Rightarrow> worker" where "transmit_stop capture = engine_stop capture"

text \<open>\<open>VoiceSession\<close> starts playback, network and capture in this order and stops them in the reverse
  order of the last two.\<close>

record session_workers =
  sw_playback :: worker
  sw_network :: client_worker
  sw_capture :: worker

definition new_session_workers :: session_workers where
  "new_session_workers = \<lparr>sw_playback = new_worker, sw_network = new_client_worker, sw_capture = new_worker\<rparr>"

definition workers_start :: "session_workers \<Rightarrow> session_workers option" where
  "workers_start s =
     Option.bind (engine_start (sw_playback s)) (\<lambda>p.
     Option.bind (client_start (sw_network s)) (\<lambda>n.
     Option.bind (transmit_start (sw_capture s)) (\<lambda>c.
       Some \<lparr>sw_playback = p, sw_network = n, sw_capture = c\<rparr>)))"

definition workers_stop :: "session_workers \<Rightarrow> session_workers" where
  "workers_stop s = \<lparr>sw_playback = engine_stop (sw_playback s), sw_network = client_stop (sw_network s),
     sw_capture = transmit_stop (sw_capture s)\<rparr>"

section \<open>The extension\<close>

text \<open>The globals of \<open>Extension.cpp\<close>; the processor exists once \<open>initialize\<close> has run. \<open>ex_inits\<close> counts
  its runs.\<close>

record extension =
  ex_processor :: "processor option"
  ex_workers :: session_workers
  ex_senderRunning :: bool
  ex_shuttingDown :: bool
  ex_ready :: bool
  ex_initOnce :: bool
  ex_inits :: nat

definition unloaded :: extension where
  "unloaded = \<lparr>ex_processor = None, ex_workers = new_session_workers, ex_senderRunning = False,
     ex_shuttingDown = False, ex_ready = False, ex_initOnce = False, ex_inits = 0\<rparr>"

definition first_processor :: processor where
  "first_processor = \<lparr>p_state = init_state,
     p_voice = \<lparr>v_connected = False, v_pttHeld = False, v_micMuted = False, v_transmitting = False, v_speakerMuted = False\<rparr>,
     p_disconnectedSince = 0\<rparr>"

definition initialize :: "extension \<Rightarrow> extension option" where
  "initialize e =
     Option.bind (workers_start (ex_workers e)) (\<lambda>ws.
       Some (e\<lparr>ex_processor := Some first_processor, ex_workers := ws, ex_senderRunning := True,
         ex_ready := True, ex_inits := ex_inits e + 1\<rparr>))"

definition ensureStarted :: "extension \<Rightarrow> extension option" where
  "ensureStarted e = (if ex_initOnce e then Some e else initialize (e\<lparr>ex_initOnce := True\<rparr>))"

text \<open>An exported call; the output buffer is untouched, or holds a string up to its terminating zero.\<close>

definition exported_call :: "libm \<Rightarrow> string \<Rightarrow> time \<Rightarrow> int \<Rightarrow> string \<Rightarrow> extension \<Rightarrow> (string option \<times> extension) option" where
  "exported_call m opusVersion now outputSize input e =
     (if outputSize \<le> 0 then Some (None, e)
      else if input = [] then Some (Some [], e)
      else if ex_shuttingDown e then Some (Some [], e)
      else
        Option.bind (ensureStarted e) (\<lambda>e.
          if \<not> ex_ready e then Some (Some [], e)
          else (case ex_processor e of
                  None \<Rightarrow> None
                | Some p \<Rightarrow>
                    (case RVExtension m opusVersion now False outputSize input p of
                       (out, p') \<Rightarrow> Some (out, e\<lparr>ex_processor := Some p'\<rparr>)))))"

datatype dllReason = ProcessAttach | ProcessDetach | OtherReason

definition DllMain :: "dllReason \<Rightarrow> extension \<Rightarrow> extension" where
  "DllMain reason e =
     (case reason of
        ProcessDetach \<Rightarrow> e\<lparr>ex_shuttingDown := True, ex_senderRunning := False\<rparr>
      | _ \<Rightarrow> e)"

section \<open>Properties\<close>

datatype life_op = Start | Stop

fun life_run :: "life_op list \<Rightarrow> session_workers \<Rightarrow> session_workers option" where
  "life_run [] s = Some s"
| "life_run (Start # ops) s = Option.bind (workers_start s) (life_run ops)"
| "life_run (Stop # ops) s = life_run ops (workers_stop s)"

lemma life_run_append: "life_run (xs @ ys) s = Option.bind (life_run xs s) (life_run ys)"
  by (induction xs s rule: life_run.induct) (auto split: Option.bind_split)

text \<open>Whether the network client has been started, and stopped after that.\<close>

definition started_once :: "life_op list \<Rightarrow> bool" where
  "started_once ops \<longleftrightarrow> Start \<in> set ops"

definition stopped_after :: "life_op list \<Rightarrow> bool" where
  "stopped_after ops \<longleftrightarrow> Stop \<in> set (dropWhile (\<lambda>x. x = Stop) ops)"

definition life_inv :: "life_op list \<Rightarrow> session_workers \<Rightarrow> bool" where
  "life_inv ops s \<longleftrightarrow>
     wo_running (sw_playback s) = (ops \<noteq> [] \<and> last ops = Start) \<and> wo_joinable (sw_playback s) = wo_running (sw_playback s) \<and>
     wo_running (sw_capture s) = (ops \<noteq> [] \<and> last ops = Start) \<and> wo_joinable (sw_capture s) = wo_running (sw_capture s) \<and>
     wo_started (sw_network s) = started_once ops \<and> wo_running (sw_network s) = wo_joinable (sw_network s) \<and>
     wo_joinable (sw_network s) = (started_once ops \<and> \<not> stopped_after ops)"

lemma not_started: "\<not> started_once ops \<Longrightarrow> \<not> stopped_after ops"
proof -
  assume "\<not> started_once ops"
  then have "\<forall>x \<in> set ops. x = Stop" by (auto simp: started_once_def) (metis life_op.exhaust)
  then have d: "dropWhile (\<lambda>x. x = Stop) ops = []" by simp
  show ?thesis unfolding stopped_after_def d by simp
qed

lemma stopped_after_snoc:
  "stopped_after (ops @ [Start]) = stopped_after ops" "stopped_after (ops @ [Stop]) = (stopped_after ops \<or> started_once ops)"
proof -
  have "Stop \<in> set (dropWhile (\<lambda>x. x = Stop) (ops @ [Start])) \<longleftrightarrow> Stop \<in> set (dropWhile (\<lambda>x. x = Stop) ops)"
  proof (cases "\<forall>x \<in> set ops. x = Stop")
    case True
    then have d: "dropWhile (\<lambda>x. x = Stop) ops = []" by simp
    from True show ?thesis unfolding d by (simp add: dropWhile_append)
  qed (auto simp: dropWhile_append)
  then show "stopped_after (ops @ [Start]) = stopped_after ops" by (simp add: stopped_after_def)
  have all: "(\<forall>x \<in> set ops. x = Stop) \<longleftrightarrow> \<not> started_once ops" by (auto simp: started_once_def) (metis life_op.exhaust)
  show "stopped_after (ops @ [Stop]) = (stopped_after ops \<or> started_once ops)"
    using all not_started[of ops]
    by (cases "started_once ops") (auto simp: stopped_after_def dropWhile_append)
qed

lemma life_run_inv: "\<exists>s. life_run ops new_session_workers = Some s \<and> life_inv ops s"
proof (induction ops rule: rev_induct)
  case Nil
  show ?case
    by (simp add: life_inv_def new_session_workers_def new_worker_def new_client_worker_def started_once_def stopped_after_def)
next
  case (snoc x ops)
  then obtain s where s: "life_run ops new_session_workers = Some s" "life_inv ops s" by blast
  show ?case
  proof (cases x)
    case Start
    have "\<exists>s'. workers_start s = Some s' \<and> life_inv (ops @ [Start]) s'"
      using s(2) stopped_after_snoc(1)[of ops] not_started[of ops]
      by (auto simp: life_inv_def workers_start_def transmit_start_def engine_start_def client_start_def spawn_def Let_def
          started_once_def[of "ops @ [Start]"])
    with s(1) show ?thesis by (auto simp: Start life_run_append)
  next
    case Stop
    have "life_inv (ops @ [Stop]) (workers_stop s)"
      using s(2) stopped_after_snoc(2)[of ops]
      by (auto simp: life_inv_def workers_stop_def transmit_stop_def engine_stop_def client_stop_def started_once_def)
    with s(1) show ?thesis by (simp add: Stop life_run_append)
  qed
qed

text \<open>C39. Starting and stopping a session in any order never terminates the process: no thread is ever
  started over a running one. Playback and capture run exactly while the last call was a start; the
  network client runs from its first start to the first stop after it and cannot be started again.\<close>

theorem start_stop_safe:
  "\<exists>s. life_run ops new_session_workers = Some s \<and>
     (wo_joinable (sw_playback s) \<longleftrightarrow> ops \<noteq> [] \<and> last ops = Start) \<and>
     (wo_joinable (sw_capture s) \<longleftrightarrow> ops \<noteq> [] \<and> last ops = Start) \<and>
     (wo_joinable (sw_network s) \<longleftrightarrow> Start \<in> set ops \<and> Stop \<notin> set (dropWhile (\<lambda>x. x = Stop) ops))"
  using life_run_inv[of ops] by (auto simp: life_inv_def started_once_def stopped_after_def)

text \<open>The exported functions, called by the game and the loader.\<close>

datatype ext_op = Exported time int string | Loader dllReason

fun ext_run :: "libm \<Rightarrow> string \<Rightarrow> ext_op list \<Rightarrow> extension \<Rightarrow> ((int \<times> string option) list \<times> extension) option" where
  "ext_run m ov [] e = Some ([], e)"
| "ext_run m ov (Exported now cap input # ops) e =
     Option.bind (exported_call m ov now cap input e) (\<lambda>(out, e).
       Option.bind (ext_run m ov ops e) (\<lambda>(outs, e). Some ((cap, out) # outs, e)))"
| "ext_run m ov (Loader reason # ops) e = ext_run m ov ops (DllMain reason e)"

definition ext_ok :: "extension \<Rightarrow> bool" where
  "ext_ok e \<longleftrightarrow>
     (if ex_initOnce e then ex_ready e \<and> ex_processor e \<noteq> None \<and> ex_inits e = 1
      else ex_workers e = new_session_workers \<and> \<not> ex_ready e \<and> ex_inits e = 0)"

definition reply_fits :: "int \<Rightarrow> string option \<Rightarrow> bool" where
  "reply_fits cap out \<longleftrightarrow> (case out of None \<Rightarrow> cap \<le> 0 | Some s \<Rightarrow> int (length s) < cap)"

lemma RVExtension_fits: "reply_fits cap (fst (RVExtension m ov now b cap input p))"
  by (auto simp: RVExtension_def reply_fits_def split: prod.split)

lemma ensureStarted_ok:
  assumes "ext_ok e"
  shows "\<exists>e'. ensureStarted e = Some e' \<and> ext_ok e' \<and> ex_initOnce e' \<and> ex_shuttingDown e' = ex_shuttingDown e"
proof -
  have "\<exists>ws. workers_start new_session_workers = Some ws"
    by (simp add: workers_start_def transmit_start_def new_session_workers_def new_worker_def new_client_worker_def engine_start_def
        client_start_def spawn_def Let_def)
  with assms show ?thesis by (auto simp: ensureStarted_def initialize_def ext_ok_def)
qed

lemma exported_call_ok:
  assumes "ext_ok e"
  shows "\<exists>out e'. exported_call m ov now cap input e = Some (out, e') \<and> ext_ok e' \<and> reply_fits cap out \<and>
    ex_shuttingDown e' = ex_shuttingDown e \<and>
    (ex_shuttingDown e \<longrightarrow> e' = e \<and> (out = None \<or> out = Some []))"
proof (cases "cap \<le> 0 \<or> input = [] \<or> ex_shuttingDown e")
  case True
  then show ?thesis using assms by (auto simp: exported_call_def reply_fits_def)
next
  case False
  from ensureStarted_ok[OF assms] obtain e1 p where e1: "ensureStarted e = Some e1" "ext_ok e1" "ex_initOnce e1"
    "ex_shuttingDown e1 = ex_shuttingDown e" "ex_processor e1 = Some p" "ex_ready e1"
    by (auto simp: ext_ok_def)
  obtain out p' where r: "RVExtension m ov now False cap input p = (out, p')" by force
  have "reply_fits cap out" using RVExtension_fits[of cap m ov now False input p] by (simp add: r)
  with False e1 r show ?thesis by (auto simp: exported_call_def ext_ok_def)
qed

lemma DllMain_ok: "ext_ok e \<Longrightarrow> ext_ok (DllMain reason e)"
  by (cases reason) (auto simp: DllMain_def ext_ok_def)

lemma ext_run_ok:
  assumes "ext_ok e"
  shows "\<exists>outs e'. ext_run m ov ops e = Some (outs, e') \<and> ext_ok e' \<and> (\<forall>(cap, out) \<in> set outs. reply_fits cap out) \<and>
    (ex_shuttingDown e \<longrightarrow> ex_processor e' = ex_processor e \<and> (\<forall>(cap, out) \<in> set outs. out = None \<or> out = Some [])) \<and>
    (ex_shuttingDown e \<or> Loader ProcessDetach \<in> set ops \<longrightarrow> ex_shuttingDown e')"
  using assms
proof (induction m ov ops e rule: ext_run.induct)
  case (2 m ov now cap input ops e)
  from exported_call_ok[OF 2(2), of m ov now cap input] obtain out e1 where
    c: "exported_call m ov now cap input e = Some (out, e1)" "ext_ok e1" "reply_fits cap out"
      "ex_shuttingDown e1 = ex_shuttingDown e" "ex_shuttingDown e \<longrightarrow> e1 = e \<and> (out = None \<or> out = Some [])" by blast
  from 2(1)[OF c(1) refl c(2)] c show ?case by auto
next
  case (3 m ov reason ops e)
  from 3(1)[OF DllMain_ok[OF 3(2)]] show ?case
    by (cases reason) (auto simp: DllMain_def)
qed simp

text \<open>C40. The exported function is safe whatever the game passes and whenever: the extension is
  initialised at most once, every reply fits the caller's buffer with its terminating zero, and once
  the loader announced the unloading all answers are empty and nothing changes any more.\<close>

theorem exported_calls_safe:
  "\<exists>outs e. ext_run m ov ops unloaded = Some (outs, e) \<and> ex_inits e \<le> 1 \<and>
     (\<forall>(cap, out) \<in> set outs. case out of None \<Rightarrow> cap \<le> 0 | Some s \<Rightarrow> int (length s) < cap) \<and>
     (Loader ProcessDetach \<in> set ops \<longrightarrow>
        (\<exists>outs' e'. ext_run m ov ops' e = Some (outs', e') \<and> ex_processor e' = ex_processor e \<and>
           (\<forall>(cap, out) \<in> set outs'. out = None \<or> out = Some [])))"
proof -
  have "ext_ok unloaded" by (simp add: ext_ok_def unloaded_def)
  from ext_run_ok[OF this, of m ov ops] obtain outs e where
    r: "ext_run m ov ops unloaded = Some (outs, e)" "ext_ok e" "\<forall>(cap, out) \<in> set outs. reply_fits cap out"
      "Loader ProcessDetach \<in> set ops \<longrightarrow> ex_shuttingDown e" by blast
  from ext_run_ok[OF r(2), of m ov ops'] r show ?thesis
    by (fastforce simp: ext_ok_def reply_fits_def split: if_splits)
qed

lemma exported_calls_safe_witness:
  "\<exists>outs e. ext_run flat_libm [] [Exported 0 16 ''MICMUTE~'', Loader ProcessDetach] unloaded = Some (outs, e) \<and>
     ex_inits e \<le> 1 \<and>
     (\<exists>outs' e'. ext_run flat_libm [] [Exported 1 16 ''MUTE_STATE''] e = Some (outs', e') \<and> ex_processor e' = ex_processor e)"
  using exported_calls_safe[of flat_libm "[]" "[Exported 0 16 ''MICMUTE~'', Loader ProcessDetach]" "[Exported 1 16 ''MUTE_STATE'']"]
  by (elim exE conjE impE) (simp, intro exI conjI, assumption+)

end
