(* ===== verification/Supervision.thy ===== *)
theory Supervision
  imports Platform CaptureProps NetProps MixerProps
begin

text \<open>
  The outermost loops of the device threads (\<open>PlaybackMixer::threadMain\<close> and
  \<open>WasapiCaptureEngine::threadMain\<close>), which open one device session after another until the worker is
  stopped, with their throttled log; what a log line does to the file system (\<open>src/Voice/Log.cpp\<close>);
  and the hash of the password as \<open>src/Voice/VoiceNetworkClient.cpp\<close> asks the system for it.
\<close>

section \<open>The log file\<close>

definition MAX_PATH :: nat where "MAX_PATH = 260"

text \<open>\<open>GetEnvironmentVariableW\<close> with a buffer of \<open>MAX_PATH\<close>: the length of the value, the room it would need
  if it does not fit, 0 if there is none.\<close>

definition env_length :: "string option \<Rightarrow> nat" where
  "env_length v = (case v of None \<Rightarrow> 0 | Some s \<Rightarrow> if length s < MAX_PATH then length s else length s + 1)"

datatype file_call = CreateDirectory string | AppendLine string string

text \<open>The directories may exist already, and creating one may fail: only opening the file is checked.\<close>

definition logLine :: "string option \<Rightarrow> bool \<Rightarrow> systemTime \<Rightarrow> string \<Rightarrow> file_call list" where
  "logLine appData opened st message =
     (let len = env_length appData
      in if len = 0 \<or> MAX_PATH \<le> len then []
         else
           let dir = the appData @ [CHR 0x5C] @ ''Tfrs''; dir2 = dir @ [CHR 0x5C] @ ''Extension''
           in [CreateDirectory dir, CreateDirectory dir2] @
              (if \<not> opened then [] else [AppendLine (dir2 @ [CHR 0x5C] @ ''extension.log'') (log_line st message)]))"

section \<open>The password hash\<close>

text \<open>What the cryptography library of the system answers, each call a success or a failure; \<open>digest\<close> is the
  hash it computes.\<close>

record bcrypt =
  bc_opened :: bool
  bc_created :: bool
  bc_hashed :: bool
  bc_finished :: bool

datatype bcrypt_handle = AlgorithmHandle | HashHandle
datatype bcrypt_call = Acquire bcrypt_handle | Release bcrypt_handle

definition sha256 :: "(byte list \<Rightarrow> byte list) \<Rightarrow> bcrypt \<Rightarrow> string \<Rightarrow> bcrypt_call list \<times> byte list option" where
  "sha256 digest b input =
     (if \<not> bc_opened b then ([], None)
      else if \<not> bc_created b then ([Acquire AlgorithmHandle, Release AlgorithmHandle], None)
      else ([Acquire AlgorithmHandle, Acquire HashHandle, Release HashHandle, Release AlgorithmHandle],
            if bc_hashed b \<and> bc_finished b then Some (digest (map byte_of input)) else None))"

text \<open>With a library that hashes to 32 bytes it is what the handshake assumes of it, and it never keeps a
  handle.\<close>

lemma sha256_doc: "(\<And>bs. length (digest bs) = 32) \<Longrightarrow> sha_doc (\<lambda>s. snd (sha256 digest b s))"
  by (simp add: sha_doc_def sha256_def)

lemma sha256_releases: "count_list (fst (sha256 digest b s)) (Acquire h) = count_list (fst (sha256 digest b s)) (Release h)"
  by (cases h) (simp_all add: sha256_def)

section \<open>The supervision loop\<close>

text \<open>What a thread does to the outside: what its device sessions put out, log lines, and sleeps of 100 ms.\<close>

datatype 'o worker_out = Rendered 'o | Logged string | Paused nat

text \<open>One turn of the loop as the outside answers it: the device session it runs, whether a stop is seen
  right after it, and how many of the ten pauses are taken before one is seen.\<close>

record 'e turn =
  tu_session :: 'e
  tu_stopped :: bool
  tu_pauses :: nat

definition decimal :: "32 word \<Rightarrow> string" where
  "decimal n = map digit_char (digits 10 (unat n))"

text \<open>The line a finished session is worth: \<open>n\<close> is the failure count after it.\<close>

definition session_log :: "string \<Rightarrow> string \<Rightarrow> bool \<Rightarrow> 32 word \<Rightarrow> string option" where
  "session_log ended missing wasRunning n =
     (if wasRunning then Some ended
      else if n mod 30 = 1 then Some (missing @ '' (attempt '' @ decimal n @ '') -- retrying every second'')
      else None)"

fun supervise ::
    "('e \<Rightarrow> 's \<Rightarrow> ('o \<times> bool \<times> 's) option) \<Rightarrow> (bool \<Rightarrow> 32 word \<Rightarrow> 's \<Rightarrow> 32 word \<times> 's) \<Rightarrow> (bool \<Rightarrow> 32 word \<Rightarrow> string option) \<Rightarrow>
      'e turn list \<Rightarrow> 32 word \<Rightarrow> 's \<Rightarrow> ('o worker_out list \<times> 32 word \<times> 's) option" where
  "supervise session after report [] n s = Some ([], n, s)"
| "supervise session after report (t # ts) n s =
     Option.bind (session (tu_session t) s) (\<lambda>(o1, wasRunning, s).
       if tu_stopped t then Some ([Rendered o1], n, s)
       else (case after wasRunning n s of
               (n, s) \<Rightarrow>
                 let line = (case report wasRunning n of None \<Rightarrow> [] | Some l \<Rightarrow> [Logged l])
                 in Option.bind (if tu_pauses t < 10 then Some ([], n, s) else supervise session after report ts n s) (\<lambda>(os, r).
                      Some (Rendered o1 # line @ Paused (min 10 (tu_pauses t)) # os, r))))"

text \<open>The two threads, each from its own session, reset and messages.\<close>

record render_turn =
  rt_open :: render_open
  rt_deviceId :: string
  rt_bufferFrameCount :: "32 word"
  rt_startedAt :: time
  rt_wakes :: "wake list"

definition playback_threadMain :: "libm \<Rightarrow> 'd opus_decode \<Rightarrow> render_turn turn list \<Rightarrow> 'd mixer \<Rightarrow>
    (deviceBuffer list worker_out list \<times> 32 word \<times> 'd mixer) option" where
  "playback_threadMain m dec ts x =
     supervise (\<lambda>t. runDeviceSession m dec (rt_open t) (rt_deviceId t) (rt_bufferFrameCount t) (rt_startedAt t) (rt_wakes t))
       after_session
       (session_log ''playback: device session ended (device lost or switched) -- reopening''
          ''playback: no usable speaker/headset device'') ts 0 x"

record capture_turn =
  ct_open :: render_open
  ct_deviceId :: string
  ct_startedAt :: time
  ct_wakes :: "captureWake list"

definition capture_threadMain :: "libm \<Rightarrow> capture_turn turn list \<Rightarrow> capture \<Rightarrow>
    (fp list list worker_out list \<times> 32 word \<times> capture) option" where
  "capture_threadMain m ts c =
     supervise (\<lambda>t. capture_device_session m (ct_open t) (ct_deviceId t) (ct_startedAt t) (ct_wakes t))
       capture_after_session
       (session_log ''capture: device session ended (device lost or switched) -- reopening''
          ''capture: no usable microphone'') ts 0 c"

text \<open>The lines a thread writes to the log.\<close>

definition logged :: "'o worker_out list \<Rightarrow> string list" where
  "logged os = concat (map (\<lambda>x. case x of Logged l \<Rightarrow> [l] | _ \<Rightarrow> []) os)"

lemma logged_simps [simp]:
  "logged [] = []" "logged (Rendered x # os) = logged os" "logged (Paused k # os) = logged os"
  "logged (Logged l # os) = l # logged os" "logged (os @ os') = logged os @ logged os'"
  by (simp_all add: logged_def)

text \<open>What the device sessions of a thread put out, and how many are run before a stop is seen.\<close>

definition rendered :: "'o worker_out list \<Rightarrow> 'o list" where
  "rendered os = concat (map (\<lambda>x. case x of Rendered o1 \<Rightarrow> [o1] | _ \<Rightarrow> []) os)"

lemma rendered_simps [simp]:
  "rendered [] = []" "rendered (Rendered x # os) = x # rendered os" "rendered (Paused k # os) = rendered os"
  "rendered (Logged l # os) = rendered os"
  by (simp_all add: rendered_def)

fun turns_until_stop :: "'e turn list \<Rightarrow> 'e list" where
  "turns_until_stop [] = []"
| "turns_until_stop (t # ts) = tu_session t # (if tu_stopped t \<or> tu_pauses t < 10 then [] else turns_until_stop ts)"

text \<open>The contract of a supervised session: it returns from every state of the worker, whatever the
  system answers, and neither it nor the reset after it leaves the invariant.\<close>

locale supervised =
  fixes session :: "'e \<Rightarrow> 's \<Rightarrow> ('o \<times> bool \<times> 's) option"
    and after :: "bool \<Rightarrow> 32 word \<Rightarrow> 's \<Rightarrow> 32 word \<times> 's"
    and answers :: "'e \<Rightarrow> bool"
    and inv :: "'s \<Rightarrow> bool"
    and out_ok :: "'e \<Rightarrow> 'o \<Rightarrow> bool"
  assumes session_returns: "answers e \<Longrightarrow> inv s \<Longrightarrow>
      \<exists>o1 r s'. session e s = Some (o1, r, s') \<and> out_ok e o1 \<and> (\<forall>n. inv (snd (after r n s')))"
    and after_counts: "fst (after r n s) = (if r then 0 else n + 1)"
begin

lemma supervise_returns:
  "\<forall>t \<in> set ts. answers (tu_session t) \<Longrightarrow> inv s \<Longrightarrow>
    \<exists>os n' s'. supervise session after report ts n s = Some (os, n', s') \<and>
      list_all2 out_ok (turns_until_stop ts) (rendered os)"
proof (induction ts arbitrary: n s)
  case (Cons t ts)
  then obtain o1 r s1 where s1: "session (tu_session t) s = Some (o1, r, s1)" "out_ok (tu_session t) o1"
    "\<forall>n. inv (snd (after r n s1))"
    using session_returns[of "tu_session t" s] by auto
  obtain n2 s2 where a: "after r n s1 = (n2, s2)" by force
  with s1(3) have "inv s2" by (metis snd_conv)
  with Cons.IH[of s2 n2] Cons.prems(1) obtain os n' s' where
    "supervise session after report ts n2 s2 = Some (os, n', s')"
    "list_all2 out_ok (turns_until_stop ts) (rendered os)" by auto
  with s1 a show ?case by (cases "tu_pauses t < 10") (auto simp: Let_def split: option.split)
qed simp

text \<open>A run of attempts that all fail is counted, and its lines are those of the counts.\<close>

lemma supervise_failing:
  "\<forall>t \<in> set ts. \<not> tu_stopped t \<and> 10 \<le> tu_pauses t \<and> (\<forall>s. \<exists>o1. session (tu_session t) s = Some (o1, False, s)) \<Longrightarrow>
    \<exists>os s'. supervise session after report ts n s = Some (os, n + of_nat (length ts), s') \<and>
      logged os = concat (map (\<lambda>i. case report False (n + 1 + of_nat i) of None \<Rightarrow> [] | Some l \<Rightarrow> [l]) [0..<length ts])"
proof (induction ts arbitrary: n s)
  case (Cons t ts)
  then obtain o1 where s1: "session (tu_session t) s = Some (o1, False, s)" "\<not> tu_stopped t" "10 \<le> tu_pauses t" by force
  obtain s2 where a: "after False n s = (n + 1, s2)"
    using after_counts[of False n s] by (metis (full_types) prod.collapse)
  from Cons.IH[of "n + 1" s2] Cons.prems obtain os s' where
    "supervise session after report ts (n + 1) s2 = Some (os, n + 1 + of_nat (length ts), s')"
    "logged os = concat (map (\<lambda>i. case report False (n + 1 + 1 + of_nat i) of None \<Rightarrow> [] | Some l \<Rightarrow> [l]) [0..<length ts])"
    by auto
  with s1 a show ?case
    by (simp add: Let_def upt_conv_Cons map_Suc_upt[symmetric] ac_simps comp_def del: upt_Suc split: option.split)
qed simp

end

section \<open>The threads never end by themselves\<close>

lemma render_session_ok:
  assumes "format_ok fmt"
  shows "mixer_ok x \<Longrightarrow> \<exists>bufs x'. render_session m dec fmt dev k t ws x = Some (bufs, x') \<and> mixer_ok x' \<and>
    (\<forall>b \<in> set bufs. wf_channels fmt dvd buffer_length b)"
proof (induction ws arbitrary: x t)
  case (Cons w ws)
  define proceed where "proceed = (\<lambda>bufs x.
            case device_switched dev t (wk_now w) (wk_default w) of
              (True, _) \<Rightarrow> Some (bufs, x)
            | (False, t') \<Rightarrow>
                Option.bind (render_session m dec fmt dev k t' ws x) (\<lambda>(bufs', x). Some (bufs @ bufs', x)))"
  have go: "\<exists>bufs' x'. proceed bufs x1 = Some (bufs', x') \<and> mixer_ok x' \<and> (\<forall>b \<in> set bufs'. wf_channels fmt dvd buffer_length b)"
    if "mixer_ok x1" "\<forall>b \<in> set bufs. wf_channels fmt dvd buffer_length b" for x1 bufs
  proof -
    obtain sw t' where d: "device_switched dev t (wk_now w) (wk_default w) = (sw, t')" by force
    from Cons.IH[OF that(1), of t'] that show ?thesis by (cases sw) (auto simp: proceed_def d)
  qed
  have fill: "\<exists>b x'. fill_buffer m dec fmt (unat n) x = Some (b, x') \<and> wf_channels fmt dvd buffer_length b \<and> mixer_ok x'"
    for n :: "32 word"
  proof -
    have "unat n < 2 ^ 32" using unsigned_less[of n, where 'a = nat] by simp
    from fill_buffer_ok[OF Cons.prems assms this, of m dec] show ?thesis by auto
  qed
  have e: "render_session m dec fmt dev k t (w # ws) x = (case wk_wait w of WaitBroken \<Rightarrow> Some ([], x)
         | Timeout \<Rightarrow> proceed [] x
         | Signalled \<Rightarrow> (case wk_padding w of None \<Rightarrow> Some ([], x)
            | Some p \<Rightarrow> if k - p = 0 then proceed [] x
                 else (case wk_buffer w of BufferLost \<Rightarrow> Some ([], x)
                    | BufferTransient \<Rightarrow> render_session m dec fmt dev k t ws x
                    | GotBuffer \<Rightarrow> Option.bind (fill_buffer m dec fmt (unat (k - p)) x) (\<lambda>(b, x). proceed [b] x))))"
    unfolding render_session.simps proceed_def Let_def by (rule refl)
  note idle = go[OF Cons.prems, of "[]", simplified]
  show ?case
  proof (cases "wk_wait w")
    case Signalled
    show ?thesis
    proof (cases "wk_padding w")
      case (Some p)
      obtain b x' where f: "fill_buffer m dec fmt (unat (k - p)) x = Some (b, x')"
        "wf_channels fmt dvd buffer_length b" "mixer_ok x'" using fill by blast
      show ?thesis unfolding e Signalled Some
        using idle go[OF f(3), of "[b]"] f Cons.IH[OF Cons.prems, of t] Cons.prems by (cases "wk_buffer w") auto
    next
      case None
      show ?thesis unfolding e Signalled None using Cons.prems by simp
    qed
  next
    case Timeout
    show ?thesis unfolding e Timeout using idle by simp
  next
    case WaitBroken
    show ?thesis unfolding e WaitBroken using Cons.prems by simp
  qed
qed auto

text \<open>A turn whose device, if it opens, has a format the mixer can serve; and for capture a format from 8
  to 768 kHz and less than a lifetime of samples.\<close>

definition render_answers :: "render_turn \<Rightarrow> bool" where
  "render_answers t \<longleftrightarrow> (\<forall>fmt. open_render (rt_open t) = Some fmt \<longrightarrow> format_ok fmt)"

definition capture_answers :: "capture_turn \<Rightarrow> bool" where
  "capture_answers t \<longleftrightarrow> session_frames (ct_wakes t) < 2 ^ 47 \<and>
     (\<forall>fmt. open_capture (ct_open t) = Some fmt \<longrightarrow> 8000 \<le> wf_samplesPerSec fmt \<and> wf_samplesPerSec fmt \<le> 768000)"

definition render_out_ok :: "render_turn \<Rightarrow> deviceBuffer list \<Rightarrow> bool" where
  "render_out_ok t bufs \<longleftrightarrow> (\<forall>b \<in> set bufs. \<exists>fmt. open_render (rt_open t) = Some fmt \<and> wf_channels fmt dvd buffer_length b)"

interpretation playback_loop: supervised
    "\<lambda>t. runDeviceSession m dec (rt_open t) (rt_deviceId t) (rt_bufferFrameCount t) (rt_startedAt t) (rt_wakes t)"
    after_session render_answers mixer_ok render_out_ok
  for m dec
proof unfold_locales
  fix t :: render_turn and x :: "'a mixer"
  assume t: "render_answers t" and x: "mixer_ok x"
  show "\<exists>o1 r x'. runDeviceSession m dec (rt_open t) (rt_deviceId t) (rt_bufferFrameCount t) (rt_startedAt t) (rt_wakes t) x =
      Some (o1, r, x') \<and> render_out_ok t o1 \<and> (\<forall>n. mixer_ok (snd (after_session r n x')))"
  proof (cases "open_render (rt_open t)")
    case None
    then show ?thesis using x by (auto simp: runDeviceSession_def render_out_ok_def intro: mixer_ok_next)
  next
    case (Some fmt)
    with t have "format_ok fmt" by (simp add: render_answers_def)
    from render_session_ok[OF this x, of m dec "rt_deviceId t" "rt_bufferFrameCount t" "rt_startedAt t" "rt_wakes t"]
    obtain bufs x' where "render_session m dec fmt (rt_deviceId t) (rt_bufferFrameCount t) (rt_startedAt t) (rt_wakes t) x =
        Some (bufs, x')" "mixer_ok x'" "\<forall>b \<in> set bufs. wf_channels fmt dvd buffer_length b" by blast
    with Some mixer_ok_next[of x'] show ?thesis
      by (intro exI[of _ bufs] exI[of _ True] exI[of _ x']) (simp add: runDeviceSession_def render_out_ok_def)
  qed
qed (simp add: after_session_def)

definition capture_fresh :: "capture \<Rightarrow> bool" where
  "capture_fresh c \<longleftrightarrow> capture_inv c \<and> cp_nativeMono c = []"

interpretation capture_loop: supervised
    "\<lambda>t. capture_device_session m (ct_open t) (ct_deviceId t) (ct_startedAt t) (ct_wakes t)"
    capture_after_session capture_answers capture_fresh "\<lambda>t frames. \<forall>f \<in> set frames. length f = kTargetFrameSamples"
  for m
proof unfold_locales
  fix t :: capture_turn and c :: capture
  assume t: "capture_answers t" and c: "capture_fresh c"
  have fresh: "capture_fresh (snd (capture_after_session r n c'))" for r n c'
    by (simp add: capture_fresh_def capture_inv_def capture_after_session_def kTargetFrameSamples_def kFrameSamples_def)
  show "\<exists>o1 r c'. capture_device_session m (ct_open t) (ct_deviceId t) (ct_startedAt t) (ct_wakes t) c = Some (o1, r, c') \<and>
      (\<forall>f \<in> set o1. length f = kTargetFrameSamples) \<and> (\<forall>n. capture_fresh (snd (capture_after_session r n c')))"
  proof (cases "open_capture (ct_open t)")
    case (Some fmt)
    with t c capture_session_ok[of fmt c "ct_wakes t" m "ct_deviceId t" "ct_startedAt t"] fresh show ?thesis
      by (auto simp: capture_device_session_def capture_answers_def capture_fresh_def)
  next
    case None
    show ?thesis by (intro exI[of _ "[]"] exI[of _ False] exI[of _ c]) (simp add: None capture_device_session_def fresh)
  qed
qed (simp add: capture_after_session_def)

lemma list_all2_set2_any: "list_all2 (\<lambda>x y. P y) xs ys \<Longrightarrow> \<forall>y \<in> set ys. P y"
  by (induction rule: list_all2_induct) auto

text \<open>C26. Sound comes back. However often devices are missing, cannot be opened, break or are switched, and
  whatever they answer while they are open, the render thread and the capture thread run one device
  session after the other and stop only when they are told to: the render thread writes whole frames of
  the device's channels, and the capture thread hands on frames of 20 ms. (Device rates from 32 kHz for
  playback and from 8 to 768 kHz for capture.)\<close>

theorem device_threads_survive:
  assumes "\<forall>t \<in> set rts. render_answers (tu_session t)" "\<forall>t \<in> set cts. capture_answers (tu_session t)"
  shows "(\<exists>os n x. playback_threadMain m dec rts (new_mixer spawn) = Some (os, n, x) \<and>
      list_all2 render_out_ok (turns_until_stop rts) (rendered os)) \<and>
    (\<exists>os n c. capture_threadMain m cts new_capture = Some (os, n, c) \<and>
      length (rendered os) = length (turns_until_stop cts) \<and> (\<forall>frames \<in> set (rendered os). \<forall>f \<in> set frames. length f = 960))"
proof -
  have "capture_fresh new_capture"
    by (simp add: capture_fresh_def capture_inv_def new_capture_def kTargetFrameSamples_def kFrameSamples_def)
  from capture_loop.supervise_returns[OF assms(2) this] obtain os n c where
    c: "capture_threadMain m cts new_capture = Some (os, n, c)"
      "list_all2 (\<lambda>t frames. \<forall>f \<in> set frames. length f = kTargetFrameSamples) (turns_until_stop cts) (rendered os)"
    unfolding capture_threadMain_def by blast
  have "length (rendered os) = length (turns_until_stop cts)" using list_all2_lengthD[OF c(2)] by simp
  moreover have "\<forall>frames \<in> set (rendered os). \<forall>f \<in> set frames. length f = 960"
    using list_all2_set2_any[OF c(2)] by (simp add: kTargetFrameSamples_def kFrameSamples_def)
  ultimately show ?thesis
    using c(1) playback_loop.supervise_returns[OF assms(1) mixer_ok_new] unfolding playback_threadMain_def by blast
qed

text \<open>A renderer that never gets a device, then a device that is lost at once; a microphone that delivers one
  packet.\<close>

definition no_device :: render_open where
  "no_device = \<lparr>ro_device = False, ro_activated = False, ro_mixFormat = None, ro_initialized = False,
     ro_event = False, ro_service = False, ro_started = False\<rparr>"

definition good_device :: render_open where
  "good_device = \<lparr>ro_device = True, ro_activated = True, ro_mixFormat = Some stereo_48k, ro_initialized = True,
     ro_event = True, ro_service = True, ro_started = True\<rparr>"

definition lost_renderer :: "render_turn turn list" where
  "lost_renderer = map (\<lambda>d. \<lparr>tu_session = \<lparr>rt_open = d, rt_deviceId = ''out'', rt_bufferFrameCount = 480, rt_startedAt = 0,
       rt_wakes = [\<lparr>wk_wait = Signalled, wk_padding = None, wk_buffer = GotBuffer, wk_now = 1, wk_default = ''out''\<rparr>]\<rparr>,
     tu_stopped = False, tu_pauses = 10\<rparr>) [no_device, good_device]"

definition short_capture :: "capture_turn turn list" where
  "short_capture = [\<lparr>tu_session = \<lparr>ct_open = good_device, ct_deviceId = ''mic'', ct_startedAt = 0,
       ct_wakes = [\<lparr>cw_wait = Signalled, cw_packets = [Packet 2 SilentPacket], cw_now = 1, cw_default = ''mic''\<rparr>]\<rparr>,
     tu_stopped = True, tu_pauses = 0\<rparr>]"

lemma device_threads_survive_witness:
  "(\<exists>os n x. playback_threadMain flat_libm flat_decoder lost_renderer (new_mixer (\<lambda>_. (Some (), \<lambda>_ _. Fin 0))) = Some (os, n, x) \<and>
      length (rendered os) = 2) \<and>
   (\<exists>os n c. capture_threadMain flat_libm short_capture new_capture = Some (os, n, c) \<and> length (rendered os) = 1)"
proof -
  have "\<forall>t \<in> set lost_renderer. render_answers (tu_session t)"
    by (auto simp: lost_renderer_def render_answers_def no_device_def good_device_def open_render_def format_ok_def
        stereo_48k_def split: if_splits)
  moreover have "\<forall>t \<in> set short_capture. capture_answers (tu_session t)"
    by (auto simp: short_capture_def capture_answers_def good_device_def open_capture_def stereo_48k_def
        split: if_splits)
  ultimately show ?thesis
    using device_threads_survive[of lost_renderer short_capture flat_libm flat_decoder "\<lambda>_. (Some (), \<lambda>_ _. Fin 0)"]
    by (auto dest!: list_all2_lengthD simp: lost_renderer_def short_capture_def)
qed

text \<open>A player without a speaker for a day writes a line every thirty seconds, not one a second: of a run
  of failed attempts the first and every thirtieth after it are logged.\<close>

lemma small_mod: "k < 2 ^ 32 \<Longrightarrow> (of_nat k :: 32 word) mod 30 = 1 \<longleftrightarrow> k mod 30 = 1"
  using unat_mod_distrib[of "of_nat k :: 32 word" 30]
  by (simp add: word_unat_eq_iff unat_of_nat take_bit_nat_eq_self)

theorem playback_retries_throttled:
  assumes "\<forall>t \<in> set ts. \<not> tu_stopped t \<and> 10 \<le> tu_pauses t \<and> open_render (rt_open (tu_session t)) = None" "length ts < 2 ^ 32 - 1"
  shows "\<exists>os x'. playback_threadMain m dec ts x = Some (os, of_nat (length ts), x') \<and>
    logged os = map (\<lambda>i. ''playback: no usable speaker/headset device'' @ '' (attempt '' @ decimal (of_nat i) @
        '') -- retrying every second'') (filter (\<lambda>i. i mod 30 = 1) [1..<Suc (length ts)])"
proof -
  let ?report = "session_log ''playback: device session ended (device lost or switched) -- reopening''
      ''playback: no usable speaker/headset device''"
  have fails: "\<forall>t \<in> set ts. \<not> tu_stopped t \<and> 10 \<le> tu_pauses t \<and> (\<forall>s. \<exists>o1. runDeviceSession m dec (rt_open (tu_session t))
      (rt_deviceId (tu_session t)) (rt_bufferFrameCount (tu_session t)) (rt_startedAt (tu_session t))
      (rt_wakes (tu_session t)) s = Some (o1, False, s))"
    using assms(1) by (simp add: runDeviceSession_def)
  from playback_loop.supervise_failing[OF fails, of ?report 0 x] obtain os x' where
    s: "playback_threadMain m dec ts x = Some (os, of_nat (length ts), x')"
      "logged os = concat (map (\<lambda>i. case ?report False (1 + of_nat i) of None \<Rightarrow> [] | Some l \<Rightarrow> [l]) [0..<length ts])"
    by (auto simp: playback_threadMain_def)
  have "concat (map (\<lambda>i. case ?report False (1 + of_nat i) of None \<Rightarrow> [] | Some l \<Rightarrow> [l]) [0..<k]) =
      map (\<lambda>i. ''playback: no usable speaker/headset device'' @ '' (attempt '' @ decimal (of_nat i) @
        '') -- retrying every second'') (filter (\<lambda>i. i mod 30 = 1) [1..<Suc k])" if "k < 2 ^ 32 - 1" for k
    using that
  proof (induction k)
    case (Suc k)
    have "(1 + of_nat k :: 32 word) mod 30 = 1 \<longleftrightarrow> Suc k mod 30 = 1" using small_mod[of "Suc k"] Suc.prems by simp
    with Suc show ?case by (simp add: session_log_def)
  qed simp
  with s assms(2) show ?thesis by auto
qed

end
