(* ===== verification/VoiceServer.thy ===== *)
theory VoiceServer
  imports ProtocolFacts ExtState
begin

text \<open>
  The relay the clients talk to, \<open>src/voice-server/src/Tfrs.VoiceServer\<close>: its reader and writer, whose
  range failures are exceptions of C#, the session objects and the three dictionaries that refer to
  them, the handlers of \<open>RelayServer.cs\<close> and the timeout sweep. A session object is a position in the
  list of all objects ever made, so that a dictionary entry is a reference, as in the code. A
  \<open>ConcurrentDictionary\<close> is an association list; \<open>Values\<close> is a snapshot of it in an order the code does not
  fix. A handler yields the datagrams it hands to the socket, in order, the exception that left it, if
  any, and the server after it: what was sent or stored before an exception stays.
\<close>

section \<open>Strings of C#\<close>

text \<open>
  A string read from the wire is what \<open>Encoding.UTF8.GetString\<close> makes of the bytes: a list of code
  points, in which each maximal ill-formed part of the input has become U+FFFD. \<open>utf8_tail\<close> reads the
  \<open>k\<close> continuation bytes of a sequence, the first of them between \<open>lo\<close> and \<open>hi\<close>.
\<close>

type_synonym cs_string = "int list"

fun utf8_tail :: "nat \<Rightarrow> int \<Rightarrow> int \<Rightarrow> int \<Rightarrow> int list \<Rightarrow> int \<times> int list" where
  "utf8_tail 0 lo hi acc bs = (acc, bs)"
| "utf8_tail (Suc k) lo hi acc [] = (0xFFFD, [])"
| "utf8_tail (Suc k) lo hi acc (b # bs) =
     (if lo \<le> b \<and> b \<le> hi then utf8_tail k 0x80 0xBF (acc * 64 + (b - 0x80)) bs else (0xFFFD, b # bs))"

lemma utf8_tail_length: "length (snd (utf8_tail k lo hi acc bs)) \<le> length bs"
  by (induction k lo hi acc bs rule: utf8_tail.induct) auto

definition utf8_first :: "int \<Rightarrow> int list \<Rightarrow> int \<times> int list" where
  "utf8_first b bs =
     (if b < 0x80 then (b, bs)
      else if b < 0xC2 then (0xFFFD, bs)
      else if b < 0xE0 then utf8_tail 1 0x80 0xBF (b - 0xC0) bs
      else if b < 0xF0 then
        utf8_tail 2 (if b = 0xE0 then 0xA0 else 0x80) (if b = 0xED then 0x9F else 0xBF) (b - 0xE0) bs
      else if b < 0xF5 then
        utf8_tail 3 (if b = 0xF0 then 0x90 else 0x80) (if b = 0xF4 then 0x8F else 0xBF) (b - 0xF0) bs
      else (0xFFFD, bs))"

lemma utf8_first_length: "length (snd (utf8_first b bs)) \<le> length bs"
  unfolding utf8_first_def by (simp add: utf8_tail_length)

function utf8_points :: "int list \<Rightarrow> cs_string" where
  "utf8_points [] = []"
| "utf8_points (b # bs) = fst (utf8_first b bs) # utf8_points (snd (utf8_first b bs))"
  by pat_completeness auto
termination by (relation "measure length") (auto simp: utf8_first_length le_imp_less_Suc)

definition getString :: "byte list \<Rightarrow> cs_string" where
  "getString bs = utf8_points (map uint bs)"

definition utf8_bytes :: "int \<Rightarrow> int list" where
  "utf8_bytes c =
     (if c < 0x80 then [c]
      else if c < 0x800 then [0xC0 + c div 64, 0x80 + c mod 64]
      else if c < 0x10000 then [0xE0 + c div 4096, 0x80 + c div 64 mod 64, 0x80 + c mod 64]
      else [0xF0 + c div 262144, 0x80 + c div 4096 mod 64, 0x80 + c div 64 mod 64, 0x80 + c mod 64])"

definition getBytes :: "cs_string \<Rightarrow> byte list" where
  "getBytes s = map word_of_int (concat (map utf8_bytes s))"

section \<open>Reader and writer\<close>

text \<open>
  An index or a slice outside a span, a field that does not fit what it announces, and a copy or an
  encoding into a span that is too short: \<open>IndexOutOfRangeException\<close> and \<open>ArgumentOutOfRangeException\<close>,
  \<open>InvalidDataException\<close>, \<open>ArgumentException\<close>. The readers and writers share their representation with
  those of the client.
\<close>

datatype cs_exn = OutOfRange | InvalidData | BadArgument

type_synonym 'a cs_result = "cs_exn + 'a"

definition cs_writeBytes :: "byte list \<Rightarrow> writer \<Rightarrow> writer cs_result" where
  "cs_writeBytes bs w =
     (if pw_capacity w < pw_pos w + length bs then Inl BadArgument else Inr (w\<lparr>pw_bytes := pw_bytes w @ bs\<rparr>))"

definition cs_writeByte :: "byte \<Rightarrow> writer \<Rightarrow> writer cs_result" where
  "cs_writeByte b w =
     (if pw_pos w < pw_capacity w then Inr (w\<lparr>pw_bytes := pw_bytes w @ [b]\<rparr>) else Inl OutOfRange)"

definition cs_writeUInt16 :: "16 word \<Rightarrow> writer \<Rightarrow> writer cs_result" where
  "cs_writeUInt16 v w =
     (if pw_capacity w < pw_pos w + 2 then Inl OutOfRange else Inr (w\<lparr>pw_bytes := pw_bytes w @ enc16 v\<rparr>))"

definition cs_writeUInt32 :: "32 word \<Rightarrow> writer \<Rightarrow> writer cs_result" where
  "cs_writeUInt32 v w =
     (if pw_capacity w < pw_pos w + 4 then Inl OutOfRange else Inr (w\<lparr>pw_bytes := pw_bytes w @ enc32 v\<rparr>))"

text \<open>The length byte is the number of encoded bytes modulo 256.\<close>

definition cs_writeString8 :: "cs_string \<Rightarrow> writer \<Rightarrow> writer cs_result" where
  "cs_writeString8 s w =
     (if pw_capacity w < pw_pos w + 1 then Inl OutOfRange
      else if pw_capacity w < pw_pos w + 1 + length (getBytes s) then Inl BadArgument
      else Inr (w\<lparr>pw_bytes := pw_bytes w @ of_nat (length (getBytes s)) # getBytes s\<rparr>))"

definition cs_readByte :: "reader \<Rightarrow> (byte \<times> reader) cs_result" where
  "cs_readByte r =
     (if pr_pos r < length (pr_buffer r) then Inr (pr_buffer r ! pr_pos r, advance 1 r) else Inl OutOfRange)"

definition cs_readUInt16 :: "reader \<Rightarrow> (16 word \<times> reader) cs_result" where
  "cs_readUInt16 r =
     (if remaining r < 2 then Inl OutOfRange
      else Inr (ucast (pr_buffer r ! pr_pos r) OR push_bit 8 (ucast (pr_buffer r ! (pr_pos r + 1))), advance 2 r))"

definition cs_readUInt32 :: "reader \<Rightarrow> (32 word \<times> reader) cs_result" where
  "cs_readUInt32 r =
     (if remaining r < 4 then Inl OutOfRange
      else Inr (ucast (pr_buffer r ! pr_pos r) OR push_bit 8 (ucast (pr_buffer r ! (pr_pos r + 1))) OR
                push_bit 16 (ucast (pr_buffer r ! (pr_pos r + 2))) OR
                push_bit 24 (ucast (pr_buffer r ! (pr_pos r + 3))), advance 4 r))"

definition cs_readBytesFixed :: "nat \<Rightarrow> reader \<Rightarrow> (byte list \<times> reader) cs_result" where
  "cs_readBytesFixed count r =
     (if length (pr_buffer r) < pr_pos r + count then Inl InvalidData
      else Inr (take count (drop (pr_pos r) (pr_buffer r)), advance count r))"

definition cs_readString8 :: "nat \<Rightarrow> reader \<Rightarrow> (cs_string \<times> reader) cs_result" where
  "cs_readString8 maxLength r =
     rbind (cs_readByte r) (\<lambda>(byteCount, r).
       if maxLength < unat byteCount \<or> length (pr_buffer r) < pr_pos r + unat byteCount then Inl InvalidData
       else Inr (getString (take (unat byteCount) (drop (pr_pos r) (pr_buffer r))), advance (unat byteCount) r))"

definition cs_readRemaining :: "reader \<Rightarrow> byte list \<times> reader" where
  "cs_readRemaining r = (drop (pr_pos r) (pr_buffer r), r\<lparr>pr_pos := length (pr_buffer r)\<rparr>)"

section \<open>State\<close>

type_synonym endpoint = "32 word \<times> 16 word"

record serverOptions =
  op_port :: int
  op_password :: cs_string
  op_maxClients :: int
  op_timeoutSeconds :: int
  op_debugForceAudible :: bool

record clientSession =
  cl_sessionId :: "32 word"
  cl_endPoint :: endpoint
  cl_uid :: cs_string
  cl_name :: cs_string
  cl_lastSeen :: time
  cl_lastVoiceSequence :: "16 word"

text \<open>\<open>sv_pending\<close> is what is left of the snapshot that the sweep is going through, \<open>None\<close> while it waits.\<close>

record server =
  sv_options :: serverOptions
  sv_expectedHash :: "byte list"
  sv_version :: cs_string
  sv_objects :: "clientSession list"
  sv_byEndPoint :: "(endpoint, nat) umap"
  sv_byId :: "(32 word, nat) umap"
  sv_byUid :: "(cs_string, nat) umap"
  sv_nextSessionId :: "32 word"
  sv_pending :: "(time \<times> nat list) option"

definition new_server :: "(byte list \<Rightarrow> byte list) \<Rightarrow> cs_string \<Rightarrow> serverOptions \<Rightarrow> server" where
  "new_server sha version options =
     \<lparr>sv_options = options, sv_expectedHash = sha (getBytes (op_password options)), sv_version = version,
      sv_objects = [], sv_byEndPoint = [], sv_byId = [], sv_byUid = [], sv_nextSessionId = 1, sv_pending = None\<rparr>"

type_synonym send = "byte list \<times> endpoint"
type_synonym emission = "send list \<times> cs_exn option"
type_synonym outcome = "emission \<times> server"

text \<open>A loop over sessions that sends one datagram each: an exception ends it, what was sent is sent.\<close>

fun each :: "('a \<Rightarrow> send cs_result) \<Rightarrow> 'a list \<Rightarrow> emission" where
  "each f [] = ([], None)"
| "each f (x # xs) =
     (case f x of
        Inl e \<Rightarrow> ([], Some e)
      | Inr s \<Rightarrow> (case each f xs of (ss, e) \<Rightarrow> (s # ss, e)))"

abbreviation session_of :: "server \<Rightarrow> nat \<Rightarrow> clientSession" where
  "session_of s i \<equiv> sv_objects s ! i"

text \<open>The sessions of \<open>_sessionsById\<close>, those with a given number left out.\<close>

definition others :: "32 word \<Rightarrow> server \<Rightarrow> clientSession list" where
  "others sid s = filter (\<lambda>c. cl_sessionId c \<noteq> sid) (map (session_of s \<circ> snd) (sv_byId s))"

section \<open>Datagrams\<close>

datatype rejectReason = BadPassword | ServerFull | VersionMismatch | BadRequest

fun reject_code :: "rejectReason \<Rightarrow> byte" where
  "reject_code BadPassword = 1" | "reject_code ServerFull = 2"
| "reject_code VersionMismatch = 3" | "reject_code BadRequest = 4"

text \<open>What a \<open>PacketWriter\<close> over a buffer of the given size holds after the writes.\<close>

definition written :: "nat \<Rightarrow> (writer \<Rightarrow> writer cs_result) list \<Rightarrow> byte list cs_result" where
  "written capacity ws = rbind (fold (\<lambda>f w. rbind w f) ws (Inr (new_writer capacity))) (\<lambda>w. Inr (pw_bytes w))"

definition to :: "endpoint \<Rightarrow> byte list cs_result \<Rightarrow> send cs_result" where
  "to target packet = rbind packet (\<lambda>p. Inr (p, target))"

text \<open>The version is made of digits and dots, one UTF-16 unit each.\<close>

function truncateVersion :: "cs_string \<Rightarrow> nat \<Rightarrow> cs_string" where
  "truncateVersion v maxUtf8Bytes =
     (if maxUtf8Bytes < length (getBytes v) then truncateVersion (butlast v) maxUtf8Bytes else v)"
  by pat_completeness auto
termination
proof (relation "measure (\<lambda>(v, n). length v)")
  fix v :: cs_string and n :: nat
  assume "n < length (getBytes v)"
  then have "v \<noteq> []" by (auto simp: getBytes_def)
  then show "((butlast v, n), v, n) \<in> measure (\<lambda>(v, n). length v)" by simp
qed simp

declare truncateVersion.simps [simp del]

definition sendAccept :: "clientSession \<Rightarrow> server \<Rightarrow> send cs_result" where
  "sendAccept c s = to (cl_endPoint c) (written (8 + 1 + kMaxVersionLength)
     [cs_writeByte (packet_code ConnectAccept), cs_writeUInt32 (cl_sessionId c),
      cs_writeUInt16 (word_of_int (op_maxClients (sv_options s))),
      cs_writeByte (if op_debugForceAudible (sv_options s) then 1 else 0),
      cs_writeString8 (truncateVersion (sv_version s) kMaxVersionLength)])"

definition sendReject :: "endpoint \<Rightarrow> rejectReason \<Rightarrow> send cs_result" where
  "sendReject remote reason = to remote (written 2
     [cs_writeByte (packet_code ConnectReject), cs_writeByte (reject_code reason)])"

definition sendClientJoined :: "endpoint \<Rightarrow> clientSession \<Rightarrow> send cs_result" where
  "sendClientJoined target subject = to target (written (1 + 4 + 1 + kMaxUidLength + 1 + kMaxNameLength)
     [cs_writeByte (packet_code ClientJoined), cs_writeUInt32 (cl_sessionId subject),
      cs_writeString8 (cl_uid subject), cs_writeString8 (cl_name subject)])"

definition broadcastClientJoined :: "clientSession \<Rightarrow> server \<Rightarrow> send list \<times> cs_exn option" where
  "broadcastClientJoined subject s =
     each (\<lambda>target. sendClientJoined (cl_endPoint target) subject) (others (cl_sessionId subject) s)"

definition broadcastClientLeft :: "32 word \<Rightarrow> server \<Rightarrow> send list \<times> cs_exn option" where
  "broadcastClientLeft sid s =
     each (\<lambda>target. to (cl_endPoint target)
         (written 5 [cs_writeByte (packet_code ClientLeft), cs_writeUInt32 sid]))
       (map (session_of s \<circ> snd) (sv_byId s))"

section \<open>Handlers\<close>

text \<open>One send; and a second emission after a first, unless an exception ended that.\<close>

definition one :: "send cs_result \<Rightarrow> emission" where
  "one x = (case x of Inl e \<Rightarrow> ([], Some e) | Inr d \<Rightarrow> ([d], None))"

fun andThen :: "emission \<Rightarrow> emission \<Rightarrow> emission" where
  "andThen (ds, None) (ds', e) = (ds @ ds', e)"
| "andThen (ds, Some e) _ = (ds, Some e)"

definition drop_session :: "endpoint \<Rightarrow> 32 word \<Rightarrow> cs_string \<Rightarrow> server \<Rightarrow> server" where
  "drop_session ep sid uid s = s\<lparr>sv_byEndPoint := udel ep (sv_byEndPoint s), sv_byId := udel sid (sv_byId s),
     sv_byUid := udel uid (sv_byUid s)\<rparr>"

definition touch :: "time \<Rightarrow> nat \<Rightarrow> server \<Rightarrow> server" where
  "touch now i s = s\<lparr>sv_objects := (sv_objects s)[i := (session_of s i)\<lparr>cl_lastSeen := now\<rparr>]\<rparr>"

definition mark_sequence :: "16 word \<Rightarrow> nat \<Rightarrow> server \<Rightarrow> server" where
  "mark_sequence sequence i s =
     s\<lparr>sv_objects := (sv_objects s)[i := (session_of s i)\<lparr>cl_lastVoiceSequence := sequence\<rparr>]\<rparr>"

text \<open>The part of \<open>HandleConnectRequest\<close> after its checks: the stale session of the uid goes, then the
  client is turned away or becomes a session.\<close>

definition drop_stale :: "cs_string \<Rightarrow> server \<Rightarrow> outcome" where
  "drop_stale uid s =
     (case uget (sv_byUid s) uid of
        None \<Rightarrow> (([], None), s)
      | Some i \<Rightarrow>
          let s' = drop_session (cl_endPoint (session_of s i)) (cl_sessionId (session_of s i)) uid s
          in (broadcastClientLeft (cl_sessionId (session_of s i)) s', s'))"

definition add_session :: "time \<Rightarrow> endpoint \<Rightarrow> cs_string \<Rightarrow> cs_string \<Rightarrow> server \<Rightarrow> clientSession \<times> server" where
  "add_session now remote uid name s =
     (let i = length (sv_objects s); sid = sv_nextSessionId s;
          c = \<lparr>cl_sessionId = sid, cl_endPoint = remote, cl_uid = uid,
               cl_name = (if name = [] then uid else name), cl_lastSeen = now, cl_lastVoiceSequence = 0\<rparr>
      in (c, s\<lparr>sv_objects := sv_objects s @ [c], sv_byEndPoint := uput remote i (sv_byEndPoint s),
               sv_byId := uput sid i (sv_byId s), sv_byUid := uput uid i (sv_byUid s),
               sv_nextSessionId := sid + 1\<rparr>))"

definition greet :: "endpoint \<Rightarrow> clientSession \<Rightarrow> server \<Rightarrow> emission" where
  "greet remote c s =
     andThen (one (sendAccept c s))
       (andThen (each (sendClientJoined remote) (others (cl_sessionId c) s)) (broadcastClientJoined c s))"

definition admit :: "time \<Rightarrow> endpoint \<Rightarrow> cs_string \<Rightarrow> cs_string \<Rightarrow> server \<Rightarrow> outcome" where
  "admit now remote uid name s =
     (case drop_stale uid s of
        ((ds, Some e), s1) \<Rightarrow> ((ds, Some e), s1)
      | ((ds, None), s1) \<Rightarrow>
          if op_maxClients (sv_options s1) \<le> int (length (sv_byId s1))
          then (andThen (ds, None) (one (sendReject remote ServerFull)), s1)
          else (case add_session now remote uid name s1 of
                  (c, s2) \<Rightarrow> (andThen (ds, None) (greet remote c s2), s2)))"

definition handleConnectRequest :: "time \<Rightarrow> reader \<Rightarrow> endpoint \<Rightarrow> server \<Rightarrow> outcome" where
  "handleConnectRequest now r remote s =
     (let reject = (\<lambda>reason. (one (sendReject remote reason), s));
          raise = (\<lambda>e. (([], Some e), s))
      in case cs_readByte r of
           Inl e \<Rightarrow> raise e
         | Inr (version, r) \<Rightarrow>
             if version \<noteq> kVersionMajor then reject VersionMismatch
             else if remaining r < 32 then reject BadRequest
             else (case cs_readBytesFixed 32 r of
                     Inl e \<Rightarrow> raise e
                   | Inr (passwordHash, r) \<Rightarrow>
                       (case rbind (cs_readString8 kMaxUidLength r) (\<lambda>(uid, r).
                               rbind (cs_readString8 kMaxNameLength r) (\<lambda>(name, r). Inr (uid, name))) of
                          Inl e \<Rightarrow> if e = InvalidData then reject BadRequest else raise e
                        | Inr (uid, name) \<Rightarrow>
                            if uid = [] then reject BadRequest
                            else if passwordHash \<noteq> sv_expectedHash s then reject BadPassword
                            else admit now remote uid name s)))"

definition handleRosterRequest :: "endpoint \<Rightarrow> server \<Rightarrow> outcome" where
  "handleRosterRequest remote s =
     (case uget (sv_byEndPoint s) remote of
        None \<Rightarrow> (([], None), s)
      | Some i \<Rightarrow> (each (sendClientJoined remote) (others (cl_sessionId (session_of s i)) s), s))"

definition handlePing :: "time \<Rightarrow> reader \<Rightarrow> endpoint \<Rightarrow> server \<Rightarrow> outcome" where
  "handlePing now r remote s =
     (case cs_readUInt32 r of
        Inl e \<Rightarrow> (([], Some e), s)
      | Inr (timestamp, r) \<Rightarrow>
          (case uget (sv_byEndPoint s) remote of
             None \<Rightarrow> (([], None), s)
           | Some i \<Rightarrow>
               (one (to remote (written 6 [cs_writeByte (packet_code Pong), cs_writeUInt32 timestamp])),
                touch now i s)))"

text \<open>\<open>HandleVoiceUp\<close> and \<open>HandleRadioTxUpdate\<close> hand one datagram to everyone but its sender.\<close>

definition server_to_others :: "clientSession \<Rightarrow> byte list cs_result \<Rightarrow> server \<Rightarrow> emission" where
  "server_to_others sender packet s =
     (case packet of
        Inl e \<Rightarrow> ([], Some e)
      | Inr p \<Rightarrow> each (\<lambda>target. to (cl_endPoint target) (Inr p)) (others (cl_sessionId sender) s))"

definition handleVoiceUp :: "time \<Rightarrow> reader \<Rightarrow> endpoint \<Rightarrow> server \<Rightarrow> outcome" where
  "handleVoiceUp now r remote s =
     (case uget (sv_byEndPoint s) remote of
        None \<Rightarrow> (([], None), s)
      | Some i \<Rightarrow>
          let s1 = touch now i s
          in case rbind (cs_readUInt16 r) (\<lambda>(sequence, r). rbind (cs_readByte r) (\<lambda>(flags, r).
                    Inr (sequence, flags, fst (cs_readRemaining r)))) of
               Inl e \<Rightarrow> (([], Some e), s1)
             | Inr (sequence, flags, opus) \<Rightarrow>
                 if kMaxOpusFrameLength < length opus then (([], None), s1)
                 else
                   let s2 = mark_sequence sequence i s1
                   in (server_to_others (session_of s2 i) (written (1 + 4 + 2 + 1 + kMaxOpusFrameLength)
                         [cs_writeByte (packet_code VoiceDown), cs_writeUInt32 (cl_sessionId (session_of s2 i)),
                          cs_writeUInt16 sequence, cs_writeByte flags, cs_writeBytes opus]) s2, s2))"

definition handleRadioTxUpdate :: "time \<Rightarrow> reader \<Rightarrow> endpoint \<Rightarrow> server \<Rightarrow> outcome" where
  "handleRadioTxUpdate now r remote s =
     (case uget (sv_byEndPoint s) remote of
        None \<Rightarrow> (([], None), s)
      | Some i \<Rightarrow>
          let s1 = touch now i s
          in case rbind (cs_readByte r) (\<lambda>(active, r). rbind (cs_readString8 kMaxFreqLength r) (\<lambda>(freq, r).
                  rbind (cs_readUInt16 r) (\<lambda>(rng, r). rbind (cs_readString8 kMaxSubtypeLength r) (\<lambda>(sub, r).
                    Inr (active, freq, rng, sub))))) of
               Inl e \<Rightarrow> if e = InvalidData then (([], None), s1) else (([], Some e), s1)
             | Inr (active, freq, rng, sub) \<Rightarrow>
                 (server_to_others (session_of s1 i)
                   (written (1 + 4 + 1 + 1 + kMaxFreqLength + 2 + 1 + kMaxSubtypeLength)
                     [cs_writeByte (packet_code RadioTxBroadcast), cs_writeUInt32 (cl_sessionId (session_of s1 i)),
                      cs_writeByte active, cs_writeString8 freq, cs_writeUInt16 rng, cs_writeString8 sub]) s1, s1))"

definition handleDisconnect :: "endpoint \<Rightarrow> server \<Rightarrow> outcome" where
  "handleDisconnect remote s =
     (case uget (sv_byEndPoint s) remote of
        None \<Rightarrow> (([], None), s)
      | Some i \<Rightarrow>
          let c = session_of s i; s' = drop_session remote (cl_sessionId c) (cl_uid c) s
          in (broadcastClientLeft (cl_sessionId c) s', s'))"

text \<open>\<open>HandlePacket\<close> is called with at least one byte; other types are ignored.\<close>

definition server_packet :: "time \<Rightarrow> byte list \<Rightarrow> endpoint \<Rightarrow> server \<Rightarrow> outcome" where
  "server_packet now data remote s =
     (let packetType = hd data; r = new_reader (tl data)
      in if packetType = packet_code ConnectRequest then handleConnectRequest now r remote s
         else if packetType = packet_code RosterRequest then handleRosterRequest remote s
         else if packetType = packet_code Ping then handlePing now r remote s
         else if packetType = packet_code VoiceUp then handleVoiceUp now r remote s
         else if packetType = packet_code RadioTxUpdate then handleRadioTxUpdate now r remote s
         else if packetType = packet_code Disconnect then handleDisconnect remote s
         else (([], None), s))"

section \<open>The two loops\<close>

text \<open>
  What happens to the server: its socket returned a datagram or failed, the sweep woke up and took its
  snapshot, or the sweep went on to the next session of the snapshot. The sweep is a task of its own,
  so datagrams are handled between its steps. An exception of a handler is logged, nothing more.
\<close>

datatype server_event = Received endpoint "byte list" | ReceiveFailed | SweepWakes | SweepNext

definition sweep_wakes :: "time \<Rightarrow> server \<Rightarrow> server" where
  "sweep_wakes now s = (case sv_pending s of
     None \<Rightarrow> s\<lparr>sv_pending := Some (now - ms (op_timeoutSeconds (sv_options s) * 1000), map snd (sv_byId s))\<rparr>
   | Some _ \<Rightarrow> s)"

definition sweep_next :: "server \<Rightarrow> outcome" where
  "sweep_next s = (case sv_pending s of
     None \<Rightarrow> (([], None), s)
   | Some (cutoff, []) \<Rightarrow> (([], None), s\<lparr>sv_pending := None\<rparr>)
   | Some (cutoff, i # rest) \<Rightarrow>
       let c = session_of s i; s1 = s\<lparr>sv_pending := Some (cutoff, rest)\<rparr>
       in if cutoff \<le> cl_lastSeen c then (([], None), s1)
          else
            let s2 = drop_session (cl_endPoint c) (cl_sessionId c) (cl_uid c) s1
            in (broadcastClientLeft (cl_sessionId c) s2, s2))"

definition server_step :: "time \<Rightarrow> server_event \<Rightarrow> server \<Rightarrow> outcome" where
  "server_step now ev s =
     (case ev of
        Received remote data \<Rightarrow> if length data < 1 then (([], None), s) else server_packet now data remote s
      | ReceiveFailed \<Rightarrow> (([], None), s)
      | SweepWakes \<Rightarrow> (([], None), sweep_wakes now s)
      | SweepNext \<Rightarrow> sweep_next s)"

fun server_run :: "(time \<times> server_event) list \<Rightarrow> server \<Rightarrow> send list \<times> server" where
  "server_run [] s = ([], s)"
| "server_run ((now, ev) # evs) s =
     (case server_step now ev s of ((ds, _), s') \<Rightarrow> (case server_run evs s' of (ds', s'') \<Rightarrow> (ds @ ds', s'')))"

section \<open>Options\<close>

text \<open>\<open>FromEnvironmentAndArgs\<close>: \<open>env\<close> is the environment, \<open>tryParse\<close> is \<open>int.TryParse\<close> of the library. A
  switch is looked for at every position but the last, and its value is the next argument.\<close>

definition ascii :: "string \<Rightarrow> cs_string" where "ascii s = map of_char s"

definition parseInt :: "(cs_string \<Rightarrow> int option) \<Rightarrow> cs_string option \<Rightarrow> int \<Rightarrow> int" where
  "parseInt tryParse v fallback = (case Option.bind v tryParse of None \<Rightarrow> fallback | Some n \<Rightarrow> n)"

definition parseBool :: "cs_string option \<Rightarrow> bool" where
  "parseBool v \<longleftrightarrow> v \<in> Some ` ascii ` {''1'', ''true'', ''TRUE'', ''True''}"

definition apply_arg :: "(cs_string \<Rightarrow> int option) \<Rightarrow> cs_string \<Rightarrow> cs_string \<Rightarrow> serverOptions \<Rightarrow> serverOptions" where
  "apply_arg tryParse arg v p =
     (if arg = ascii ''--port'' then p\<lparr>op_port := parseInt tryParse (Some v) (op_port p)\<rparr>
      else if arg = ascii ''--password'' then p\<lparr>op_password := v\<rparr>
      else if arg = ascii ''--max-clients'' then p\<lparr>op_maxClients := parseInt tryParse (Some v) (op_maxClients p)\<rparr>
      else if arg = ascii ''--timeout-seconds'' then p\<lparr>op_timeoutSeconds := parseInt tryParse (Some v) (op_timeoutSeconds p)\<rparr>
      else if arg = ascii ''--debug-force-audible'' then p\<lparr>op_debugForceAudible := parseBool (Some v)\<rparr>
      else p)"

fun apply_args :: "(cs_string \<Rightarrow> int option) \<Rightarrow> cs_string list \<Rightarrow> serverOptions \<Rightarrow> serverOptions" where
  "apply_args tryParse (a # v # args) p = apply_args tryParse (v # args) (apply_arg tryParse a v p)"
| "apply_args tryParse args p = p"

definition fromEnvironmentAndArgs :: "(cs_string \<Rightarrow> int option) \<Rightarrow> (cs_string \<Rightarrow> cs_string option) \<Rightarrow> cs_string list \<Rightarrow> serverOptions" where
  "fromEnvironmentAndArgs tryParse env args =
     apply_args tryParse args
       \<lparr>op_port = parseInt tryParse (env (ascii ''TFRS_PORT'')) 9987,
        op_password = (case env (ascii ''TFRS_PASSWORD'') of None \<Rightarrow> [] | Some v \<Rightarrow> v),
        op_maxClients = parseInt tryParse (env (ascii ''TFRS_MAX_CLIENTS'')) 300,
        op_timeoutSeconds = parseInt tryParse (env (ascii ''TFRS_TIMEOUT_SECONDS'')) 20,
        op_debugForceAudible = parseBool (env (ascii ''TFRS_DEBUG_FORCE_AUDIBLE''))\<rparr>"

end
