(* ===== verification/VoiceServerProps.thy ===== *)
theory VoiceServerProps
  imports VoiceServer NetProps
begin

text \<open>
  What the relay keeps and does: its readers and writers agree with the client's wherever neither
  fails, its three dictionaries stay consistent under every order of datagrams and sweep steps, a
  voice frame of a session goes to every other session unchanged, and an accepted client reads the
  session number the server gave it.
\<close>

unbundle bit_operations_syntax

section \<open>The two implementations of the wire format agree\<close>

lemma cs_readByte_rdr [simp]:
  "cs_readByte (rdr pre post) = (case post of [] \<Rightarrow> Inl OutOfRange | b # bs \<Rightarrow> Inr (b, rdr (pre @ [b]) bs))"
  by (cases post) (simp_all add: cs_readByte_def advance_rdr, simp_all add: rdr_def)

lemma cs_read_agrees:
  "cs_readByte (rdr pre post) = Inr x \<longleftrightarrow> readByte (rdr pre post) = Inr x"
  "cs_readUInt16 (rdr pre post) = Inr y \<longleftrightarrow> readUInt16 (rdr pre post) = Inr y"
  "cs_readUInt32 (rdr pre post) = Inr z \<longleftrightarrow> readUInt32 (rdr pre post) = Inr z"
proof -
  show "cs_readByte (rdr pre post) = Inr x \<longleftrightarrow> readByte (rdr pre post) = Inr x"
    by (simp add: readByte_rdr split: list.splits)
  have n: "pr_buffer (rdr pre post) ! (pr_pos (rdr pre post) + i) = post ! i" if "i < length post" for i
    using that by (simp add: rdr_def nth_append)
  have n0: "pr_buffer (rdr pre post) ! (pr_pos (rdr pre post)) = post ! 0" if "post \<noteq> []"
    using n[of 0] that by simp
  show "cs_readUInt16 (rdr pre post) = Inr y \<longleftrightarrow> readUInt16 (rdr pre post) = Inr y"
    using n[of 1] n0 by (cases "post = []") (auto simp: cs_readUInt16_def readUInt16_rdr advance_rdr)
  show "cs_readUInt32 (rdr pre post) = Inr z \<longleftrightarrow> readUInt32 (rdr pre post) = Inr z"
    using n[of 1] n[of 2] n[of 3] n0 by (cases "post = []") (auto simp: cs_readUInt32_def readUInt32_rdr advance_rdr)
qed

lemma cs_read16 [simp]: "cs_readUInt16 (rdr pre (enc16 v @ post)) = Inr (v, rdr (pre @ enc16 v) post)"
  by (simp add: cs_read_agrees u16_field.rd_enc)

lemma cs_read32 [simp]: "cs_readUInt32 (rdr pre (enc32 v @ post)) = Inr (v, rdr (pre @ enc32 v) post)"
  by (simp add: cs_read_agrees u32_field.rd_enc)

lemma cs_readRemaining_rdr [simp]: "fst (cs_readRemaining (rdr pre post)) = post"
  by (simp add: cs_readRemaining_def rdr_def)

lemma cs_readString8_enc:
  assumes "length s \<le> mx" "mx \<le> 255"
  shows "cs_readString8 mx (rdr pre (enc_string8 s @ post)) = Inr (getString (map byte_of s), rdr (pre @ enc_string8 s) post)"
proof -
  have u: "unat (of_nat (length s) :: byte) = length s" using assms unat_len[of s] by simp
  have "advance (length s) (rdr (pre @ [of_nat (length s)]) (map byte_of s @ post)) =
      rdr (pre @ enc_string8 s) post" by (simp add: advance_rdr enc_string8_def)
  then show ?thesis using assms u by (simp add: cs_readString8_def enc_string8_def) (simp add: rdr_def)
qed

lemma field_lengths_enc [simp]: "length (enc16 v) = 2" "length (enc32 u) = 4"
  by (simp_all add: enc16_def enc32_def)

text \<open>What a datagram of the server holds, if it fits its buffer.\<close>

lemma written_Nil: "written n [] = Inr []"
  by (simp add: written_def new_writer_def)

lemma new_writer_sel [simp]: "pw_capacity (new_writer n) = n" "pw_bytes (new_writer n) = []"
  by (simp_all add: new_writer_def)

lemmas cs_writes = cs_writeByte_def cs_writeBytes_def cs_writeUInt16_def cs_writeUInt32_def cs_writeString8_def

lemma left_packet:
  "written 5 [cs_writeByte (packet_code ClientLeft), cs_writeUInt32 sid] = Inr (packet_code ClientLeft # enc32 sid)"
  by (simp add: written_def cs_writes)

lemma voice_down_packet: "length opus \<le> kMaxOpusFrameLength \<Longrightarrow>
    written (1 + 4 + 2 + 1 + kMaxOpusFrameLength)
      [cs_writeByte (packet_code VoiceDown), cs_writeUInt32 sid, cs_writeUInt16 sequence, cs_writeByte flags,
       cs_writeBytes opus] = Inr (packet_code VoiceDown # enc32 sid @ enc16 sequence @ flags # opus)"
  by (simp add: written_def cs_writes kMaxOpusFrameLength_def)

lemma joined_packet:
  "written (1 + 4 + 1 + kMaxUidLength + 1 + kMaxNameLength)
     [cs_writeByte (packet_code ClientJoined), cs_writeUInt32 sid, cs_writeString8 u, cs_writeString8 nm] =
   (if 72 < length (getBytes u) + length (getBytes nm)
    then (if 73 \<le> length (getBytes u) then (if 73 < length (getBytes u) then Inl BadArgument else Inl OutOfRange)
          else Inl BadArgument)
    else Inr (packet_code ClientJoined # enc32 sid @ (of_nat (length (getBytes u)) # getBytes u) @
           of_nat (length (getBytes nm)) # getBytes nm))"
  by (auto simp: written_def cs_writes max_lengths)

lemma each_all: "(\<And>x. x \<in> set xs \<Longrightarrow> f x = Inr (g x)) \<Longrightarrow> each f xs = (map g xs, None)"
  by (induction xs) auto

lemma each_raises: "x \<in> set xs \<Longrightarrow> f x = Inl e \<Longrightarrow> snd (each f xs) \<noteq> None"
  by (induction xs) (auto split: sum.splits prod.splits)

lemma broadcastClientLeft_eq:
  "broadcastClientLeft sid s =
     (map (\<lambda>(_, i). (packet_code ClientLeft # enc32 sid, cl_endPoint (session_of s i))) (sv_byId s), None)"
  unfolding broadcastClientLeft_def
  by (subst each_all[where g = "\<lambda>c. (packet_code ClientLeft # enc32 sid, cl_endPoint c)"])
    (auto simp: to_def left_packet simp del: packet_code.simps)

section \<open>The dictionaries\<close>

text \<open>
  Session numbers are dealt out in order, so two sessions never share one before the counter wraps; a
  dictionary maps each key to a session with that key, every session found by endpoint or by uid is a
  session of \<open>_sessionsById\<close>, and there are never more of them than the server allows.
\<close>

definition dict_ok :: "(clientSession \<Rightarrow> 'k) \<Rightarrow> ('k, nat) umap \<Rightarrow> server \<Rightarrow> bool" where
  "dict_ok key m s \<longleftrightarrow> uwf m \<and> (\<forall>(k, i) \<in> set m. i < length (sv_objects s) \<and> key (session_of s i) = k \<and>
     uget (sv_byId s) (cl_sessionId (session_of s i)) = Some i)"

definition numbered :: "server \<Rightarrow> bool" where
  "numbered s \<longleftrightarrow> (\<forall>i < length (sv_objects s). cl_sessionId (session_of s i) = of_nat (Suc i)) \<and>
     sv_nextSessionId s = of_nat (Suc (length (sv_objects s))) \<and>
     (\<forall>cutoff rest. sv_pending s = Some (cutoff, rest) \<longrightarrow> (\<forall>i \<in> set rest. i < length (sv_objects s)))"

definition server_ok :: "server \<Rightarrow> bool" where
  "server_ok s \<longleftrightarrow> numbered s \<and> dict_ok cl_endPoint (sv_byEndPoint s) s \<and> dict_ok cl_sessionId (sv_byId s) s \<and>
     dict_ok cl_uid (sv_byUid s) s"

definition within_capacity :: "server \<Rightarrow> bool" where
  "within_capacity s \<longleftrightarrow> int (length (sv_byId s)) \<le> max 0 (op_maxClients (sv_options s))"

definition few_sessions :: "server \<Rightarrow> bool" where
  "few_sessions s \<longleftrightarrow> length (sv_objects s) < 2 ^ 32 - 1"

lemma small_of_nat: "i < 2 ^ 32 \<Longrightarrow> j < 2 ^ 32 \<Longrightarrow> (of_nat i :: 32 word) = of_nat j \<longleftrightarrow> i = j"
  by (auto simp: word_of_nat_eq_iff take_bit_nat_eq_self)

lemma session_ids_differ:
  assumes "numbered s" "few_sessions s" "i < length (sv_objects s)" "j < length (sv_objects s)"
    "cl_sessionId (session_of s i) = cl_sessionId (session_of s j)"
  shows "i = j"
  using assms small_of_nat[of "Suc i" "Suc j"] by (auto simp: numbered_def few_sessions_def)

lemma dict_okD: "dict_ok key m s \<Longrightarrow> uget m k = Some i \<Longrightarrow> i < length (sv_objects s) \<and>
    key (session_of s i) = k \<and> uget (sv_byId s) (cl_sessionId (session_of s i)) = Some i"
  using uget_Some_in[of m k i] by (auto simp: dict_ok_def)

lemma drop_session_sel [simp]:
  "sv_objects (drop_session ep sid u s) = sv_objects s" "sv_options (drop_session ep sid u s) = sv_options s"
  "sv_byEndPoint (drop_session ep sid u s) = udel ep (sv_byEndPoint s)"
  "sv_byId (drop_session ep sid u s) = udel sid (sv_byId s)"
  "sv_byUid (drop_session ep sid u s) = udel u (sv_byUid s)"
  "sv_nextSessionId (drop_session ep sid u s) = sv_nextSessionId s"
  "sv_pending (drop_session ep sid u s) = sv_pending s"
  by (simp_all add: drop_session_def)

lemma dict_drop:
  assumes "numbered s" "few_sessions s" "dict_ok cl_sessionId (sv_byId s) s" "i < length (sv_objects s)"
    and m: "dict_ok key m s" and s': "sv_objects s' = sv_objects s"
      "sv_byId s' = udel (cl_sessionId (session_of s i)) (sv_byId s)"
  shows "dict_ok key (udel (key (session_of s i)) m) s'"
proof -
  have "uget (sv_byId s') (cl_sessionId (session_of s j)) = Some j"
    if "(k, j) \<in> set m" "k \<noteq> key (session_of s i)" for k j
  proof -
    from that(1) m have j: "j < length (sv_objects s)" "key (session_of s j) = k"
      "uget (sv_byId s) (cl_sessionId (session_of s j)) = Some j" by (auto simp: dict_ok_def)
    with that(2) session_ids_differ[OF assms(1,2,4) j(1)]
    have "cl_sessionId (session_of s j) \<noteq> cl_sessionId (session_of s i)" by metis
    with j(3) assms(3) show ?thesis unfolding s'(2) dict_ok_def by (simp add: uget_udel)
  qed
  with m s'(1) show ?thesis by (auto simp: dict_ok_def set_udel)
qed

lemma length_udel: "length (udel k m) \<le> length m"
  by (induction k m rule: udel.induct) auto

lemma drop_session_ok:
  assumes "server_ok s" "few_sessions s" "i < length (sv_objects s)"
  shows "server_ok (drop_session (cl_endPoint (session_of s i)) (cl_sessionId (session_of s i))
    (cl_uid (session_of s i)) s)"
proof -
  let ?t = "drop_session (cl_endPoint (session_of s i)) (cl_sessionId (session_of s i)) (cl_uid (session_of s i)) s"
  note d = dict_drop[of s i _ _ ?t]
  have "numbered ?t" using assms(1) by (simp add: server_ok_def numbered_def)
  moreover have "dict_ok cl_endPoint (sv_byEndPoint ?t) ?t" "dict_ok cl_sessionId (sv_byId ?t) ?t"
    "dict_ok cl_uid (sv_byUid ?t) ?t"
    using assms by (simp_all add: server_ok_def d)
  ultimately show ?thesis by (simp add: server_ok_def)
qed

text \<open>The fields of a session that identify it do not change.\<close>

definition ident_of :: "clientSession \<Rightarrow> 32 word \<times> endpoint \<times> cs_string \<times> cs_string" where
  "ident_of c = (cl_sessionId c, cl_endPoint c, cl_uid c, cl_name c)"

definition same_roster :: "server \<Rightarrow> server \<Rightarrow> bool" where
  "same_roster s s' \<longleftrightarrow> map ident_of (sv_objects s') = map ident_of (sv_objects s) \<and>
     sv_byEndPoint s' = sv_byEndPoint s \<and> sv_byId s' = sv_byId s \<and> sv_byUid s' = sv_byUid s \<and>
     sv_nextSessionId s' = sv_nextSessionId s \<and> sv_options s' = sv_options s \<and> sv_pending s' = sv_pending s"

lemma same_roster_objects:
  assumes "same_roster s s'"
  shows "length (sv_objects s') = length (sv_objects s)"
    and "i < length (sv_objects s) \<Longrightarrow> ident_of (session_of s' i) = ident_of (session_of s i)"
proof -
  have e: "map ident_of (sv_objects s') = map ident_of (sv_objects s)" using assms by (simp add: same_roster_def)
  then show l: "length (sv_objects s') = length (sv_objects s)" by (metis length_map)
  show "ident_of (session_of s' i) = ident_of (session_of s i)" if "i < length (sv_objects s)"
    using that e l by (metis nth_map)
qed

lemma same_roster_dict:
  assumes "same_roster s s'" "\<And>c c'. ident_of c = ident_of c' \<Longrightarrow> key c = key c'" "dict_ok key m s"
  shows "dict_ok key m s'"
proof -
  have "key (session_of s' i) = key (session_of s i)"
    "cl_sessionId (session_of s' i) = cl_sessionId (session_of s i)" if "i < length (sv_objects s)" for i
    using assms(2)[of "session_of s' i" "session_of s i"] same_roster_objects(2)[OF assms(1) that]
    by (simp_all add: ident_of_def)
  with assms(1,3) same_roster_objects(1)[OF assms(1)] show ?thesis
    by (fastforce simp: dict_ok_def same_roster_def)
qed

lemma same_roster_ok:
  assumes "same_roster s s'" "server_ok s"
  shows "server_ok s'"
proof -
  note d = same_roster_dict[OF assms(1)]
  have "dict_ok cl_endPoint (sv_byEndPoint s') s'" "dict_ok cl_sessionId (sv_byId s') s'" "dict_ok cl_uid (sv_byUid s') s'"
    using assms(1) d[of cl_endPoint "sv_byEndPoint s"] d[of cl_sessionId "sv_byId s"] d[of cl_uid "sv_byUid s"] assms(2)
    by (simp_all add: server_ok_def same_roster_def ident_of_def)
  moreover have "numbered s'"
    using assms same_roster_objects[OF assms(1)]
    by (auto simp: server_ok_def numbered_def same_roster_def ident_of_def)
  ultimately show ?thesis by (simp add: server_ok_def)
qed

lemma map_update_same: "(\<And>x. f (g x) = f x) \<Longrightarrow> map f (xs[i := g (xs ! i)]) = map f xs"
  by (cases "i < length xs") (simp_all add: map_update list_update_same_conv list_update_beyond)

lemma touch_same_roster [simp]: "same_roster s (touch now i s)"
  by (simp add: same_roster_def touch_def map_update_same ident_of_def)

lemma mark_same_roster [simp]: "same_roster s (mark_sequence n i s)"
  by (simp add: same_roster_def mark_sequence_def map_update_same ident_of_def)

lemma same_roster_trans [trans]: "same_roster s t \<Longrightarrow> same_roster t u \<Longrightarrow> same_roster s u"
  by (simp add: same_roster_def)

lemma same_roster_refl [simp]: "same_roster s s"
  by (simp add: same_roster_def)

lemma handleVoiceUp_frame: "same_roster s (snd (handleVoiceUp now r remote s))"
  using same_roster_trans[OF touch_same_roster mark_same_roster]
  by (auto simp: handleVoiceUp_def Let_def split: option.splits sum.splits)

lemma handleRadioTxUpdate_frame: "same_roster s (snd (handleRadioTxUpdate now r remote s))"
  by (auto simp: handleRadioTxUpdate_def Let_def split: option.splits sum.splits)

lemma handlePing_frame: "same_roster s (snd (handlePing now r remote s))"
  by (auto simp: handlePing_def split: option.splits sum.splits)

lemma add_session_ok:
  assumes s: "server_ok s" and few: "few_sessions (snd (add_session now remote uid name s))"
  shows "server_ok (snd (add_session now remote uid name s))"
proof -
  define t where "t = snd (add_session now remote uid name s)"
  define n where "n = length (sv_objects s)"
  define c where "c = fst (add_session now remote uid name s)"
  have c: "cl_sessionId c = of_nat (Suc n)" "cl_endPoint c = remote" "cl_uid c = uid"
    using s by (simp_all add: c_def n_def add_session_def Let_def server_ok_def numbered_def)
  have t: "sv_objects t = sv_objects s @ [c]" "sv_byEndPoint t = uput remote n (sv_byEndPoint s)"
    "sv_byId t = uput (cl_sessionId c) n (sv_byId s)" "sv_byUid t = uput uid n (sv_byUid s)"
    "sv_nextSessionId t = sv_nextSessionId s + 1" "sv_pending t = sv_pending s"
    by (simp_all add: t_def c_def n_def add_session_def Let_def)
  have n32: "Suc n < 2 ^ 32" using few t(1) by (simp add: few_sessions_def t_def[symmetric] n_def)
  have "numbered t" using s t c n_def
    by (fastforce simp: server_ok_def numbered_def nth_append less_Suc_eq)
  moreover have "dict_ok key (uput (key c) n m) t" if "dict_ok key m s" for key :: "clientSession \<Rightarrow> 'k" and m
  proof -
    have "cl_sessionId (session_of s i) \<noteq> cl_sessionId c" if "i < n" for i
      using s that c(1) n32 small_of_nat[of "Suc i" "Suc n"] by (simp add: server_ok_def numbered_def n_def)
    with that show ?thesis
      by (force simp: dict_ok_def t set_uput nth_append uget_uput n_def)
  qed
  ultimately show ?thesis
    using s c t unfolding server_ok_def t_def[symmetric] by metis
qed

lemma drop_stale_sel [simp]:
  "sv_objects (snd (drop_stale uid s)) = sv_objects s" "sv_options (snd (drop_stale uid s)) = sv_options s"
  "snd (fst (drop_stale uid s)) = None" "length (sv_byId (snd (drop_stale uid s))) \<le> length (sv_byId s)"
  by (auto simp: drop_stale_def Let_def broadcastClientLeft_eq length_udel split: option.splits)

lemma drop_stale_ok:
  assumes "server_ok s" "few_sessions s"
  shows "server_ok (snd (drop_stale uid s))"
proof (cases "uget (sv_byUid s) uid")
  case (Some i)
  then have "i < length (sv_objects s)" "cl_uid (session_of s i) = uid"
    using assms(1) dict_okD[of cl_uid "sv_byUid s" s uid i] by (auto simp: server_ok_def)
  with drop_session_ok[OF assms, of i] Some show ?thesis by (simp add: drop_stale_def Let_def)
qed (use assms in \<open>simp add: drop_stale_def\<close>)

lemma admit_snd: "snd (admit now remote uid name s) =
    (let s1 = snd (drop_stale uid s)
     in if op_maxClients (sv_options s) \<le> int (length (sv_byId s1)) then s1
        else snd (add_session now remote uid name s1))"
proof -
  obtain ds e s1 where d: "drop_stale uid s = ((ds, e), s1)" by (metis prod.collapse)
  with drop_stale_sel[of uid s] have "e = None" "sv_options s1 = sv_options s" by simp_all
  with d show ?thesis by (simp add: admit_def Let_def split: prod.split)
qed

lemma add_session_sel [simp]:
  "sv_objects (snd (add_session now remote uid name s)) = sv_objects s @ [fst (add_session now remote uid name s)]"
  "sv_options (snd (add_session now remote uid name s)) = sv_options s"
  "sv_byId (snd (add_session now remote uid name s)) = uput (sv_nextSessionId s) (length (sv_objects s)) (sv_byId s)"
  by (simp_all add: add_session_def Let_def)

lemma length_uput: "length (uput k v m) \<le> Suc (length m)"
  by (induction k v m rule: uput.induct) auto

lemma admit_ok:
  assumes "server_ok s" "few_sessions (snd (admit now remote uid name s))"
  shows "server_ok (snd (admit now remote uid name s))"
proof -
  have "few_sessions s" using assms(2) by (simp add: admit_snd Let_def few_sessions_def split: if_splits)
  from drop_stale_ok[OF assms(1) this] add_session_ok assms(2) show ?thesis
    by (simp add: admit_snd Let_def split: if_splits)
qed

lemma admit_capacity:
  assumes "within_capacity s"
  shows "within_capacity (snd (admit now remote uid name s))"
proof -
  let ?t = "snd (drop_stale uid s)"
  have "int (length (sv_byId ?t)) \<le> max 0 (op_maxClients (sv_options s))"
    using assms drop_stale_sel(4)[of uid s] unfolding within_capacity_def by linarith
  moreover have "length (uput (sv_nextSessionId ?t) (length (sv_objects ?t)) (sv_byId ?t)) \<le> Suc (length (sv_byId ?t))"
    by (rule length_uput)
  ultimately show ?thesis by (auto simp: admit_snd Let_def within_capacity_def)
qed

section \<open>Every step\<close>

text \<open>What a step does to the dictionaries: nothing, the removal of one session, or an admission.\<close>

lemma handleConnectRequest_frame: "snd (handleConnectRequest now r remote s) = s \<or>
    (\<exists>uid name. snd (handleConnectRequest now r remote s) = snd (admit now remote uid name s))"
  by (auto simp: handleConnectRequest_def Let_def split: sum.splits)

definition drops_one :: "server \<Rightarrow> server \<Rightarrow> bool" where
  "drops_one s s' \<longleftrightarrow> (\<exists>i < length (sv_objects s). s' = drop_session (cl_endPoint (session_of s i))
     (cl_sessionId (session_of s i)) (cl_uid (session_of s i)) s)"

lemma handleDisconnect_frame:
  assumes "server_ok s"
  shows "snd (handleDisconnect remote s) = s \<or> drops_one s (snd (handleDisconnect remote s))"
proof (cases "uget (sv_byEndPoint s) remote")
  case (Some i)
  with assms dict_okD[of cl_endPoint "sv_byEndPoint s" s remote i] show ?thesis
    by (auto simp: handleDisconnect_def drops_one_def Let_def server_ok_def)
qed (simp add: handleDisconnect_def)

lemma server_packet_cases:
  assumes "server_ok s"
  shows "same_roster s (snd (server_packet now data remote s)) \<or> drops_one s (snd (server_packet now data remote s)) \<or>
    (\<exists>uid name. snd (server_packet now data remote s) = snd (admit now remote uid name s))"
  using handleConnectRequest_frame[of now _ remote s] handleDisconnect_frame[OF assms, of remote]
    handlePing_frame[of s now _ remote] handleVoiceUp_frame[of s now _ remote] handleRadioTxUpdate_frame[of s now _ remote]
  unfolding server_packet_def Let_def
  by (smt (verit) handleRosterRequest_def option.case_eq_if same_roster_refl snd_conv)

lemma server_ok_pending: "server_ok s \<Longrightarrow> \<forall>c r. p = Some (c, r) \<longrightarrow> (\<forall>i \<in> set r. i < length (sv_objects s)) \<Longrightarrow>
    server_ok (s\<lparr>sv_pending := p\<rparr>)"
  by (auto simp: server_ok_def numbered_def dict_ok_def)

lemma sweep_ok:
  assumes "server_ok s" "few_sessions s"
  shows "server_ok (snd (sweep_next s))" "server_ok (sweep_wakes now s)"
proof -
  have "server_ok (s\<lparr>sv_pending := Some (c, map snd (sv_byId s))\<rparr>)" for c
    by (rule server_ok_pending[OF assms(1)]) (use assms(1) in \<open>auto simp: server_ok_def dict_ok_def\<close>)
  then show "server_ok (sweep_wakes now s)"
    using assms(1) by (simp add: sweep_wakes_def split: option.split)
  show "server_ok (snd (sweep_next s))"
  proof (cases "\<exists>c i rest. sv_pending s = Some (c, i # rest)")
    case True
    then obtain c i rest where p: "sv_pending s = Some (c, i # rest)" by blast
    then have i: "i < length (sv_objects s)" "\<forall>j \<in> set rest. j < length (sv_objects s)"
      using assms(1) by (auto simp: server_ok_def numbered_def)
    have t: "server_ok (s\<lparr>sv_pending := Some (c, rest)\<rparr>)"
      by (rule server_ok_pending[OF assms(1)]) (use i in auto)
    from drop_session_ok[OF t, of i] assms(2) i(1) t p show ?thesis
      by (auto simp: sweep_next_def Let_def few_sessions_def)
  next
    case False
    with assms(1) server_ok_pending[OF assms(1), of None] show ?thesis
      by (auto simp: sweep_next_def split: option.split list.splits)
  qed
qed

lemma server_step_ok:
  assumes "server_ok s" "few_sessions (snd (server_step now ev s))"
  shows "server_ok (snd (server_step now ev s))"
proof (cases ev)
  case (Received remote data)
  show ?thesis
  proof (cases "data = []")
    case False
    with server_packet_cases[OF assms(1), of now data remote] same_roster_ok[OF _ assms(1)]
      drop_session_ok[OF assms(1)] admit_ok[OF assms(1), of now remote] assms(2)
    show ?thesis unfolding Received server_step_def drops_one_def few_sessions_def
      by (auto simp: Suc_le_eq)
  qed (use assms(1) Received in \<open>simp add: server_step_def\<close>)
next
  case SweepWakes
  with assms show ?thesis using sweep_ok(2)[OF assms(1)]
    by (auto simp: server_step_def sweep_wakes_def few_sessions_def split: option.splits)
next
  case SweepNext
  have "sv_objects (snd (sweep_next s)) = sv_objects s"
    by (auto simp: sweep_next_def Let_def split: option.split list.split)
  with SweepNext assms sweep_ok(1)[OF assms(1)] show ?thesis by (simp add: server_step_def few_sessions_def)
qed (use assms(1) in \<open>simp add: server_step_def\<close>)

text \<open>Objects are never forgotten, and the limit on sessions is kept even where session numbers wrap.\<close>

definition grows :: "server \<Rightarrow> server \<Rightarrow> bool" where
  "grows s s' \<longleftrightarrow> length (sv_objects s) \<le> length (sv_objects s') \<and> (within_capacity s \<longrightarrow> within_capacity s')"

lemma grows_same: "same_roster s s' \<Longrightarrow> grows s s'"
  using same_roster_objects(1)[of s s'] by (simp add: grows_def within_capacity_def same_roster_def)

lemma grows_drop: "grows s (drop_session ep sid u s)"
  using length_udel[of sid "sv_byId s"] by (auto simp: grows_def within_capacity_def)

lemma grows_admit: "grows s (snd (admit now remote uid name s))"
  using admit_capacity by (auto simp: grows_def admit_snd Let_def)

lemma grows_packet: "grows s (snd (server_packet now data remote s))"
proof -
  have "grows s (snd (handleDisconnect remote s))"
    using grows_drop[of s] grows_same[of s s] by (auto simp: handleDisconnect_def Let_def split: option.split)
  moreover have "grows s (snd (handleConnectRequest now r remote s))" for r
    using handleConnectRequest_frame[of now r remote s] grows_admit[of s now remote] grows_same[of s s] by auto
  moreover have "grows s (snd (handleRosterRequest remote s))"
    by (auto simp: handleRosterRequest_def grows_same split: option.split)
  ultimately show ?thesis
    using handlePing_frame[THEN grows_same] handleVoiceUp_frame[THEN grows_same] handleRadioTxUpdate_frame[THEN grows_same]
    by (simp add: server_packet_def Let_def grows_same)
qed

lemma grows_step: "grows s (snd (server_step now ev s))"
proof -
  have "grows s (snd (sweep_next s))"
    using length_udel[of _ "sv_byId s"]
    by (auto simp: sweep_next_def Let_def grows_def within_capacity_def split: option.split list.split)
      (metis length_udel of_nat_le_iff order_trans)
  moreover have "grows s (sweep_wakes now s)"
    by (simp add: sweep_wakes_def grows_def within_capacity_def split: option.split)
  ultimately show ?thesis
    using grows_packet grows_same[of s s] by (auto simp: server_step_def split: server_event.split)
qed

definition server_moves :: "server \<Rightarrow> server \<Rightarrow> bool" where
  "server_moves s s' \<longleftrightarrow> (\<exists>now ev. s' = snd (server_step now ev s))"

definition server_inv :: "server \<Rightarrow> bool" where
  "server_inv s \<longleftrightarrow> (few_sessions s \<longrightarrow> server_ok s) \<and> within_capacity s"

interpretation server_system: transition_system server_moves "\<lambda>s. \<exists>sha version p. s = new_server sha version p" server_inv
proof unfold_locales
  show "server_inv s" if "\<exists>sha version p. s = new_server sha version p" for s
    using that by (auto simp: server_inv_def new_server_def server_ok_def numbered_def dict_ok_def within_capacity_def)
  show "server_inv s'" if m: "server_moves s s'" and i: "server_inv s" for s s'
  proof -
    from m obtain now ev where s': "s' = snd (server_step now ev s)" by (auto simp: server_moves_def)
    have g: "grows s s'" unfolding s' by (rule grows_step)
    then have "few_sessions s' \<Longrightarrow> few_sessions s" by (simp add: few_sessions_def grows_def)
    with i g server_step_ok[of s now ev] show ?thesis by (auto simp: server_inv_def s' grows_def)
  qed
qed

lemma server_run_moves: "server_moves\<^sup>*\<^sup>* s (snd (server_run evs s))"
proof (induction evs arbitrary: s)
  case (Cons e evs)
  obtain now ev where e: "e = (now, ev)" by force
  have "server_moves s (snd (server_step now ev s))" by (auto simp: server_moves_def)
  moreover have "snd (server_run (e # evs) s) = snd (server_run evs (snd (server_step now ev s)))"
    by (simp add: e split: prod.split)
  ultimately show ?case using Cons.IH by (metis converse_rtranclp_into_rtranclp)
qed simp

text \<open>
  The dictionaries agree when every session of \<open>_sessionsById\<close> is also found under its endpoint and its
  uid. Two things break that, and nothing else: a session made at an endpoint at which another player still
  has one, and a session made while the sweep is under way, because the sweep removes by key what it found
  stale in its snapshot. A step is orderly when it does neither.
\<close>

definition agreed :: "server \<Rightarrow> bool" where
  "agreed s \<longleftrightarrow> (\<forall>(sid, i) \<in> set (sv_byId s).
     uget (sv_byEndPoint s) (cl_endPoint (session_of s i)) = Some i \<and> uget (sv_byUid s) (cl_uid (session_of s i)) = Some i)"

definition orderly :: "server \<Rightarrow> server \<Rightarrow> bool" where
  "orderly s s' \<longleftrightarrow> length (sv_objects s') = length (sv_objects s) \<or>
     sv_pending s = None \<and>
     (case uget (sv_byEndPoint s) (cl_endPoint (last (sv_objects s'))) of
        None \<Rightarrow> True | Some i \<Rightarrow> cl_uid (session_of s i) = cl_uid (last (sv_objects s')))"

fun orderly_run :: "(time \<times> server_event) list \<Rightarrow> server \<Rightarrow> bool" where
  "orderly_run [] s = True"
| "orderly_run ((now, ev) # evs) s =
     (let s' = snd (server_step now ev s) in orderly s s' \<and> orderly_run evs s')"

text \<open>No other session is found under the endpoint or the uid of the session; the sweep only holds such ones.\<close>

definition unrivalled :: "nat \<Rightarrow> server \<Rightarrow> bool" where
  "unrivalled i s \<longleftrightarrow> uget (sv_byEndPoint s) (cl_endPoint (session_of s i)) \<in> {None, Some i} \<and>
     uget (sv_byUid s) (cl_uid (session_of s i)) \<in> {None, Some i}"

definition clean_sweep :: "server \<Rightarrow> bool" where
  "clean_sweep s \<longleftrightarrow> (\<forall>cutoff rest. sv_pending s = Some (cutoff, rest) \<longrightarrow> (\<forall>i \<in> set rest. unrivalled i s))"

definition agreement :: "server \<Rightarrow> bool" where
  "agreement s \<longleftrightarrow> agreed s \<and> clean_sweep s"

lemma agreed_live:
  assumes "agreed s" "uget (sv_byId s) sid = Some i"
  shows "unrivalled i s"
  using assms uget_Some_in[of "sv_byId s" sid i] by (auto simp: agreed_def unrivalled_def)

lemma same_roster_agreement:
  assumes "same_roster s s'" "server_ok s" "agreement s"
  shows "agreement s'"
proof -
  have k: "cl_endPoint (session_of s' i) = cl_endPoint (session_of s i)" "cl_uid (session_of s' i) = cl_uid (session_of s i)"
    if "i < length (sv_objects s)" for i
    using same_roster_objects(2)[OF assms(1) that] by (simp_all add: ident_of_def)
  have "i < length (sv_objects s)" if "(sid, i) \<in> set (sv_byId s)" for sid i
    using assms(2) that by (auto simp: server_ok_def dict_ok_def)
  moreover have "i < length (sv_objects s)" if "sv_pending s = Some (c, rest)" "i \<in> set rest" for c rest i
    using assms(2) that by (auto simp: server_ok_def numbered_def)
  ultimately show ?thesis using assms(1,3) k
    by (fastforce simp: agreement_def agreed_def clean_sweep_def unrivalled_def same_roster_def)
qed

lemma drop_agreement:
  assumes "server_ok s" "i < length (sv_objects s)" "unrivalled i s" "agreement s"
  shows "agreement (drop_session (cl_endPoint (session_of s i)) (cl_sessionId (session_of s i)) (cl_uid (session_of s i)) s)"
proof -
  let ?t = "drop_session (cl_endPoint (session_of s i)) (cl_sessionId (session_of s i)) (cl_uid (session_of s i)) s"
  have wf: "uwf (sv_byEndPoint s)" "uwf (sv_byUid s)" "uwf (sv_byId s)"
    using assms(1) by (auto simp: server_ok_def dict_ok_def)
  have "uget (sv_byEndPoint ?t) (cl_endPoint (session_of s j)) = Some j \<and> uget (sv_byUid ?t) (cl_uid (session_of s j)) = Some j"
    if j: "(k, j) \<in> set (sv_byId s)" "k \<noteq> cl_sessionId (session_of s i)" for k j
  proof -
    have "cl_sessionId (session_of s j) = k" using assms(1) j(1) by (auto simp: server_ok_def dict_ok_def)
    with j(2) have "j \<noteq> i" by auto
    moreover have "uget (sv_byEndPoint s) (cl_endPoint (session_of s j)) = Some j" "uget (sv_byUid s) (cl_uid (session_of s j)) = Some j"
      using assms(4) j(1) by (auto simp: agreement_def agreed_def)
    ultimately show ?thesis using assms(3) wf by (auto simp: unrivalled_def uget_udel)
  qed
  then have "agreed ?t" using wf(3) by (auto simp: agreed_def set_udel)
  moreover have "clean_sweep ?t"
    using assms(4) wf by (fastforce simp: agreement_def clean_sweep_def unrivalled_def uget_udel)
  ultimately show ?thesis by (simp add: agreement_def)
qed

lemma drop_stale_agreement:
  assumes "server_ok s" "agreement s"
  shows "agreement (snd (drop_stale uid s))"
    and "uget (sv_byUid (snd (drop_stale uid s))) uid = None"
proof -
  have wf: "uwf (sv_byUid s)" using assms(1) by (simp add: server_ok_def dict_ok_def)
  then show "uget (sv_byUid (snd (drop_stale uid s))) uid = None"
    by (auto simp: drop_stale_def Let_def uget_udel split: option.split)
  show "agreement (snd (drop_stale uid s))"
  proof (cases "uget (sv_byUid s) uid")
    case (Some i)
    have d: "i < length (sv_objects s)" "cl_uid (session_of s i) = uid"
      "uget (sv_byId s) (cl_sessionId (session_of s i)) = Some i"
      using assms(1) Some dict_okD[of cl_uid "sv_byUid s" s uid i] by (auto simp: server_ok_def)
    with drop_agreement[OF assms(1) d(1) agreed_live[OF _ d(3)] assms(2)] assms(2) Some show ?thesis
      by (simp add: drop_stale_def Let_def agreement_def)
  qed (use assms(2) in \<open>simp add: drop_stale_def\<close>)
qed

lemma admit_agreement:
  assumes "server_ok s" "agreement s" "orderly s (snd (admit now remote uid name s))"
  shows "agreement (snd (admit now remote uid name s))"
proof -
  define s1 where "s1 = snd (drop_stale uid s)"
  define n where "n = length (sv_objects s1)"
  have s1: "agreement s1" "uget (sv_byUid s1) uid = None" "sv_objects s1 = sv_objects s"
    unfolding s1_def using drop_stale_agreement[OF assms(1,2)] by simp_all
  have ok: "server_ok s" by (rule assms(1))
  show ?thesis
  proof (cases "op_maxClients (sv_options s) \<le> int (length (sv_byId s1))")
    case True
    with s1(1) show ?thesis by (simp add: admit_snd Let_def s1_def[symmetric])
  next
    case False
    define t where "t = snd (add_session now remote uid name s1)"
    have t: "snd (admit now remote uid name s) = t"
      using False by (simp add: admit_snd Let_def s1_def[symmetric] t_def)
    obtain c where c: "sv_objects t = sv_objects s1 @ [c]" "cl_endPoint c = remote" "cl_uid c = uid"
      "sv_byEndPoint t = uput remote n (sv_byEndPoint s1)" "sv_byUid t = uput uid n (sv_byUid s1)"
      "sv_byId t = uput (sv_nextSessionId s1) n (sv_byId s1)" "sv_pending t = sv_pending s1"
      by (simp add: t_def n_def add_session_def Let_def)
    have o: "sv_pending s = None" "\<forall>i. uget (sv_byEndPoint s) remote = Some i \<longrightarrow> cl_uid (session_of s i) = uid"
      using assms(3) unfolding t by (auto simp: orderly_def c s1(3) split: option.splits)
    have p: "sv_pending t = None" using o(1) c(7) by (auto simp: s1_def drop_stale_def Let_def split: option.splits)
    have old: "uget (sv_byEndPoint t) (cl_endPoint (session_of t j)) = Some j \<and> uget (sv_byUid t) (cl_uid (session_of t j)) = Some j"
      if j: "(k, j) \<in> set (sv_byId s1)" for k j
    proof -
      have a: "uget (sv_byEndPoint s1) (cl_endPoint (session_of s1 j)) = Some j" "uget (sv_byUid s1) (cl_uid (session_of s1 j)) = Some j"
        using s1(1) j by (auto simp: agreement_def agreed_def)
      have "(k, j) \<in> set (sv_byId s)" using j in_udelD[of "(k, j)"]
        by (auto simp: s1_def drop_stale_def Let_def split: option.splits)
      then have n: "j < n" using ok by (auto simp: n_def s1(3) server_ok_def dict_ok_def)
      have "cl_uid (session_of s1 j) \<noteq> uid" using a(2) s1(2) by auto
      moreover have "cl_endPoint (session_of s1 j) \<noteq> remote"
      proof
        assume "cl_endPoint (session_of s1 j) = remote"
        with a(1) have "uget (sv_byEndPoint s1) remote = Some j" by simp
        then have "uget (sv_byEndPoint s) remote = Some j"
          using ok by (auto simp: s1_def drop_stale_def Let_def uget_udel server_ok_def dict_ok_def split: option.splits if_splits)
        with o(2) \<open>cl_uid (session_of s1 j) \<noteq> uid\<close> show False by (simp add: s1(3))
      qed
      ultimately show ?thesis using a n by (simp add: c uget_uput nth_append n_def)
    qed
    have new: "uget (sv_byEndPoint t) (cl_endPoint (session_of t n)) = Some n \<and> uget (sv_byUid t) (cl_uid (session_of t n)) = Some n"
      by (simp add: c uget_uput nth_append n_def)
    have "uwf (sv_byId s1)"
      using ok by (auto simp: s1_def drop_stale_def Let_def server_ok_def dict_ok_def split: option.splits)
    then have "agreed t" using old new by (auto simp: agreed_def c(6) set_uput)
    with p show ?thesis unfolding t by (simp add: agreement_def clean_sweep_def)
  qed
qed

lemma sweep_agreement:
  assumes "server_ok s" "agreement s"
  shows "agreement (snd (sweep_next s))" "agreement (sweep_wakes now s)"
proof -
  have live: "unrivalled i s" if "(sid, i) \<in> set (sv_byId s)" for sid i
    using assms(2) that by (auto simp: agreement_def agreed_def unrivalled_def)
  then show "agreement (sweep_wakes now s)"
    using assms(2) by (auto simp: sweep_wakes_def agreement_def agreed_def clean_sweep_def unrivalled_def split: option.split)
  show "agreement (snd (sweep_next s))"
  proof (cases "\<exists>c i rest. sv_pending s = Some (c, i # rest)")
    case True
    then obtain c i rest where p: "sv_pending s = Some (c, i # rest)" by blast
    let ?s = "s\<lparr>sv_pending := Some (c, rest)\<rparr>"
    have i: "i < length (sv_objects s)" "\<forall>j \<in> set rest. j < length (sv_objects s)" "unrivalled i s"
      using assms p by (auto simp: server_ok_def numbered_def agreement_def clean_sweep_def)
    have t: "server_ok ?s" by (rule server_ok_pending[OF assms(1)]) (use i in auto)
    have a: "agreement ?s" "unrivalled i ?s"
      using assms(2) p i(3) by (auto simp: agreement_def agreed_def clean_sweep_def unrivalled_def)
    from drop_agreement[OF t _ a(2,1)] i(1) a p show ?thesis by (simp add: sweep_next_def Let_def)
  next
    case False
    have "agreement (s\<lparr>sv_pending := None\<rparr>)"
      using assms(2) by (auto simp: agreement_def agreed_def clean_sweep_def)
    with False assms(2) show ?thesis by (auto simp: sweep_next_def split: option.splits list.splits)
  qed
qed

lemma handleDisconnect_agreement:
  assumes "server_ok s" "agreement s"
  shows "agreement (snd (handleDisconnect remote s))"
proof (cases "uget (sv_byEndPoint s) remote")
  case (Some i)
  have d: "i < length (sv_objects s)" "cl_endPoint (session_of s i) = remote"
    "uget (sv_byId s) (cl_sessionId (session_of s i)) = Some i"
    using assms(1) Some dict_okD[of cl_endPoint "sv_byEndPoint s" s remote i] by (auto simp: server_ok_def)
  with drop_agreement[OF assms(1) d(1) agreed_live[OF _ d(3)] assms(2)] assms(2) Some show ?thesis
    by (simp add: handleDisconnect_def Let_def agreement_def)
qed (use assms(2) in \<open>simp add: handleDisconnect_def\<close>)

lemma server_step_agreement:
  assumes "server_ok s" "agreement s" "orderly s (snd (server_step now ev s))"
  shows "agreement (snd (server_step now ev s))"
proof (cases ev)
  case (Received remote data)
  have c: "agreement (snd (handleConnectRequest now r remote s))" if "orderly s (snd (handleConnectRequest now r remote s))" for r
    using handleConnectRequest_frame[of now r remote s] admit_agreement[OF assms(1,2)] assms(2) that by metis
  note same = same_roster_agreement[OF _ assms(1,2)]
  have "snd (handleRosterRequest remote s) = s" by (simp add: handleRosterRequest_def split: option.split)
  with c assms(2,3) same[OF handlePing_frame] same[OF handleVoiceUp_frame] same[OF handleRadioTxUpdate_frame]
    handleDisconnect_agreement[OF assms(1,2)]
  show ?thesis unfolding Received server_step_def server_packet_def Let_def
    by (simp split: if_splits)
qed (use assms sweep_agreement[OF assms(1,2)] in \<open>simp_all add: server_step_def\<close>)

lemma grows_run: "grows s (snd (server_run evs s))"
proof (induction evs arbitrary: s)
  case (Cons e evs)
  obtain now ev where e: "e = (now, ev)" by force
  from Cons.IH[of "snd (server_step now ev s)"] grows_step[of s now ev] show ?case
    by (auto simp: e case_prod_unfold grows_def)
qed (simp add: grows_def)

lemma server_run_agreement:
  assumes "server_ok s" "agreement s" "orderly_run evs s" "few_sessions (snd (server_run evs s))"
  shows "agreement (snd (server_run evs s))"
  using assms
proof (induction evs arbitrary: s)
  case (Cons e evs)
  obtain now ev where e: "e = (now, ev)" by force
  let ?t = "snd (server_step now ev s)"
  have r: "snd (server_run (e # evs) s) = snd (server_run evs ?t)" by (simp add: e case_prod_unfold)
  have "grows ?t (snd (server_run evs ?t))" by (rule grows_run)
  then have "few_sessions ?t" using Cons.prems(4) by (simp add: r few_sessions_def grows_def)
  note ok = server_step_ok[OF Cons.prems(1) this]
  have o: "orderly s ?t" "orderly_run evs ?t" using Cons.prems(3) by (simp_all add: e Let_def)
  show ?case unfolding r
    by (rule Cons.IH[OF ok server_step_agreement[OF Cons.prems(1,2) o(1)] o(2) Cons.prems(4)[unfolded r]])
qed simp

text \<open>C21. Whatever datagrams the relay receives, however its timeout sweep interleaves with them, and
  whatever the clock says: each dictionary maps a key to a session with that key, everyone found by
  endpoint or by uid is a session that broadcasts reach, and there are never more sessions than the
  configured maximum. The converse, that every session is also found by its endpoint and its uid, so that
  the three dictionaries agree, holds after every run in which no session is made at an endpoint that
  another player still has or while a sweep is under way. (Session numbers must not have wrapped around.)\<close>

theorem server_stays_consistent:
  assumes "few_sessions (snd (server_run evs (new_server sha version p)))"
  shows "let s = snd (server_run evs (new_server sha version p))
    in server_ok s \<and> within_capacity s \<and> (orderly_run evs (new_server sha version p) \<longrightarrow> agreed s)"
proof -
  have n: "server_ok (new_server sha version p)" "agreement (new_server sha version p)"
    by (auto simp: new_server_def server_ok_def numbered_def dict_ok_def agreement_def agreed_def clean_sweep_def)
  show ?thesis
    using server_system.reachable_inv[OF _ server_run_moves[of "new_server sha version p" evs]] assms
      server_run_agreement[OF n _ assms]
    by (auto simp: server_inv_def agreement_def Let_def)
qed

definition zero_hash :: "byte list \<Rightarrow> byte list" where "zero_hash bs = replicate 32 0"

definition small_server :: serverOptions where
  "small_server = \<lparr>op_port = 9987, op_password = [], op_maxClients = 2, op_timeoutSeconds = 20, op_debugForceAudible = False\<rparr>"

text \<open>The ConnectRequest of a client without a password and with a one-letter uid.\<close>

definition knock :: "byte \<Rightarrow> byte list" where
  "knock letter = [1, 1] @ replicate 32 0 @ [1, letter, 1, letter]"

definition two_clients :: server where
  "two_clients = snd (server_run [(0, Received (1, 1) (knock 65)), (0, Received (2, 1) (knock 66))]
     (new_server zero_hash (ascii ''1.0'') small_server))"

lemma two_clients_eq: "two_clients = \<lparr>sv_options = small_server, sv_expectedHash = replicate 32 0,
    sv_version = [49, 46, 48],
    sv_objects = [\<lparr>cl_sessionId = 1, cl_endPoint = (1, 1), cl_uid = [65], cl_name = [65], cl_lastSeen = 0, cl_lastVoiceSequence = 0\<rparr>,
      \<lparr>cl_sessionId = 2, cl_endPoint = (2, 1), cl_uid = [66], cl_name = [66], cl_lastSeen = 0, cl_lastVoiceSequence = 0\<rparr>],
    sv_byEndPoint = [((1, 1), 0), ((2, 1), 1)], sv_byId = [(1, 0), (2, 1)], sv_byUid = [([65], 0), ([66], 1)],
    sv_nextSessionId = 3, sv_pending = None\<rparr>"
  by code_simp

lemma two_clients_ok: "server_ok two_clients"
  by (auto simp: two_clients_eq server_ok_def numbered_def dict_ok_def uwf_def less_Suc_eq)

lemma server_stays_consistent_witness: "server_ok two_clients \<and> within_capacity two_clients \<and> agreed two_clients"
proof -
  have "few_sessions two_clients" by (simp add: two_clients_eq few_sessions_def)
  moreover have "orderly_run [(0, Received (1, 1) (knock 65)), (0, Received (2, 1) (knock 66))]
      (new_server zero_hash (ascii ''1.0'') small_server)" by code_simp
  ultimately show ?thesis
    using server_stays_consistent[of "[(0, Received (1, 1) (knock 65)), (0, Received (2, 1) (knock 66))]"
        zero_hash "ascii ''1.0''" small_server, folded two_clients_def] by (simp add: Let_def)
qed

section \<open>Voice\<close>

lemma same_roster_others:
  assumes "same_roster s s'" "server_ok s"
  shows "map (f \<circ> ident_of) (others sid s') = map (f \<circ> ident_of) (others sid s)"
proof -
  have i: "ident_of (session_of s' i) = ident_of (session_of s i)" if "(k, i) \<in> set (sv_byId s)" for k i
    using that assms same_roster_objects(2)[OF assms(1), of i] by (auto simp: server_ok_def dict_ok_def)
  have "map (f \<circ> ident_of) (filter (\<lambda>c. cl_sessionId c \<noteq> sid) (map (session_of s' \<circ> snd) m)) =
      map (f \<circ> ident_of) (filter (\<lambda>c. cl_sessionId c \<noteq> sid) (map (session_of s \<circ> snd) m))"
    if "set m \<subseteq> set (sv_byId s)" for m
    using that i by (induction m) (auto simp: ident_of_def)
  then show ?thesis using assms(1) by (simp add: others_def same_roster_def)
qed

definition endpoints :: "clientSession list \<Rightarrow> endpoint list" where
  "endpoints cs = map cl_endPoint cs"

lemma same_roster_endpoints: "same_roster s s' \<Longrightarrow> server_ok s \<Longrightarrow>
    endpoints (others sid s') = endpoints (others sid s)"
  using same_roster_others[where f = "fst \<circ> snd"] by (simp add: endpoints_def ident_of_def comp_def)

text \<open>A voice datagram from a session's endpoint: every other session is sent the same frame, with the
  sender's number in front.\<close>

lemma voice_relayed:
  assumes s: "server_ok s" and i: "uget (sv_byEndPoint s) remote = Some i" and n: "length opus \<le> 500"
  defines "sid \<equiv> cl_sessionId (session_of s i)"
  shows "\<exists>s'. server_step now (Received remote (packet_code VoiceUp # enc16 sequence @ flags # opus)) s =
      ((map (\<lambda>ep. (packet_code VoiceDown # enc32 sid @ enc16 sequence @ flags # opus, ep))
          (endpoints (others sid s)), None), s') \<and> same_roster s s'"
proof -
  let ?s = "mark_sequence sequence i (touch now i s)"
  have same: "same_roster s ?s" using same_roster_trans[OF touch_same_roster mark_same_roster] .
  have "i < length (sv_objects s)" using dict_okD[OF _ i] s by (auto simp: server_ok_def)
  with same_roster_objects(2)[OF same this] have sid: "cl_sessionId (session_of ?s i) = sid"
    by (simp add: ident_of_def sid_def)
  have r: "rbind (cs_readUInt16 (new_reader (enc16 sequence @ flags # opus))) (\<lambda>(sequence, r).
      rbind (cs_readByte r) (\<lambda>(flags, r). Inr (sequence, flags, fst (cs_readRemaining r)))) = Inr (sequence, flags, opus)"
    by (simp add: new_reader_rdr)
  have "server_to_others (session_of ?s i) (Inr p) ?s = (map (\<lambda>ep. (p, ep)) (endpoints (others sid s)), None)" for p
    unfolding server_to_others_def sid same_roster_endpoints[OF same s, symmetric]
    by (simp add: to_def each_all[where g = "\<lambda>c. (p, cl_endPoint c)"] endpoints_def)
  with voice_down_packet[of opus sid sequence flags] n r i sid
  have "handleVoiceUp now (new_reader (enc16 sequence @ flags # opus)) remote s =
      ((map (\<lambda>ep. (packet_code VoiceDown # enc32 sid @ enc16 sequence @ flags # opus, ep))
          (endpoints (others sid s)), None), ?s)"
    by (simp add: handleVoiceUp_def Let_def kMaxOpusFrameLength_def)
  with same show ?thesis by (simp add: server_step_def server_packet_def Let_def)
qed

section \<open>Text\<close>

definition scalar :: "int \<Rightarrow> bool" where
  "scalar c \<longleftrightarrow> 0 \<le> c \<and> c < 0x110000 \<and> \<not> (0xD800 \<le> c \<and> c \<le> 0xDFFF)"

lemma utf8_bytes_range: "scalar c \<Longrightarrow> b \<in> set (utf8_bytes c) \<Longrightarrow> 0 \<le> b \<and> b < 256"
  unfolding scalar_def utf8_bytes_def by (auto split: if_splits; presburger)

text \<open>A code point by its six-bit groups.\<close>

lemma six_bits:
  fixes c :: int
  obtains a x b d where "c div 262144 = a" "c div 4096 mod 64 = x" "c div 4096 = 64 * a + x"
    "c div 64 mod 64 = b" "c mod 64 = d" "c = 262144 * a + 4096 * x + 64 * b + d"
    "0 \<le> x" "x < 64" "0 \<le> b" "b < 64" "0 \<le> d" "d < 64"
proof (rule that[of "c div 262144" "c div 4096 mod 64" "c div 64 mod 64" "c mod 64"])
  have split64: "y = 64 * (y div 64) + y mod 64" "0 \<le> y mod 64" "y mod 64 < 64" for y :: int
    by (simp_all add: mult_div_mod_eq)
  have d1: "c div 64 div 64 = c div 4096" and d2: "c div 4096 div 64 = c div 262144"
    using zdiv_zmult2_eq[of 64 c 64] zdiv_zmult2_eq[of 64 c 4096] by simp_all
  show h: "c div 4096 = 64 * (c div 262144) + c div 4096 mod 64" using split64(1)[of "c div 4096"] by (simp only: d2)
  have "c div 64 = 64 * (64 * (c div 262144) + c div 4096 mod 64) + c div 64 mod 64"
    using split64(1)[of "c div 64"] h by (simp only: d1)
  then have "c = 64 * (64 * (64 * (c div 262144) + c div 4096 mod 64) + c div 64 mod 64) + c mod 64"
    using split64(1)[of c] by (simp only:)
  then show "c = 262144 * (c div 262144) + 4096 * (c div 4096 mod 64) + 64 * (c div 64 mod 64) + c mod 64"
    by (simp only: distrib_left mult.assoc[symmetric] semiring_norm numeral_times_numeral)
qed (rule refl pos_mod_sign[OF zero_less_numeral] pos_mod_bound[OF zero_less_numeral])+

text \<open>A sequence of three and of four bytes, from the six-bit groups of its code point.\<close>

lemma utf8_first3:
  assumes "0 \<le> a" "a < 16" "0 \<le> b" "b < 64" "0 \<le> d" "d < 64" "a = 0 \<Longrightarrow> 32 \<le> b" "a = 13 \<Longrightarrow> b < 32"
  shows "utf8_first (0xE0 + a) ((0x80 + b) # (0x80 + d) # rest) = (a * 4096 + b * 64 + d, rest)"
  using assms by (auto simp: utf8_first_def eval_nat_numeral)

lemma utf8_first4:
  assumes "0 \<le> a" "a < 5" "0 \<le> b" "b < 64" "0 \<le> d" "d < 64" "0 \<le> e" "e < 64" "a = 0 \<Longrightarrow> 16 \<le> b" "a = 4 \<Longrightarrow> b < 16"
  shows "utf8_first (0xF0 + a) ((0x80 + b) # (0x80 + d) # (0x80 + e) # rest) =
    (a * 262144 + b * 4096 + d * 64 + e, rest)"
  using assms by (auto simp: utf8_first_def eval_nat_numeral)

lemma concat_map_in: "(\<And>x. x \<in> set xs \<Longrightarrow> \<forall>y \<in> set (f x). P y) \<Longrightarrow> \<forall>y \<in> set (concat (map f xs)). P y"
  by auto

lemma utf8_points_bytes:
  assumes "scalar c"
  shows "utf8_points (utf8_bytes c @ rest) = c # utf8_points rest"
proof -
  consider "c < 0x80" | "0x80 \<le> c" "c < 0x800" | "0x800 \<le> c" "c < 0x10000" | "0x10000 \<le> c" by linarith
  then show ?thesis
  proof cases
    case 2
    have "utf8_first (0xC0 + c div 64) ((0x80 + c mod 64) # rest) = (c, rest)"
      using 2 by (simp add: utf8_first_def eval_nat_numeral) presburger
    then show ?thesis using 2 by (simp add: utf8_bytes_def)
  next
    case 3
    obtain a x b d where g: "c div 262144 = a" "c div 4096 mod 64 = x" "c div 4096 = 64 * a + x"
      "c div 64 mod 64 = b" "c mod 64 = d" "c = 262144 * a + 4096 * x + 64 * b + d"
      "0 \<le> x" "x < 64" "0 \<le> b" "b < 64" "0 \<le> d" "d < 64" by (rule six_bits)
    with 3 have a: "a = 0" by linarith
    have "x < 16" "x = 0 \<longrightarrow> 32 \<le> b" "x = 13 \<longrightarrow> b < 32"
      using g(6-12) a 3 assms unfolding scalar_def by linarith+
    then have "utf8_first (0xE0 + x) ((0x80 + b) # (0x80 + d) # rest) = (c, rest)"
      using utf8_first3[of x b d rest] g(6-12) a by simp
    then show ?thesis using 3 by (simp add: utf8_bytes_def g(3-5) a)
  next
    case 4
    obtain a x b d where g: "c div 262144 = a" "c div 4096 mod 64 = x" "c div 4096 = 64 * a + x"
      "c div 64 mod 64 = b" "c mod 64 = d" "c = 262144 * a + 4096 * x + 64 * b + d"
      "0 \<le> x" "x < 64" "0 \<le> b" "b < 64" "0 \<le> d" "d < 64" by (rule six_bits)
    have "0 \<le> a" "a < 5" "a = 0 \<longrightarrow> 16 \<le> x" "a = 4 \<longrightarrow> x < 16"
      using g(6-12) 4 assms unfolding scalar_def by linarith+
    then have "utf8_first (0xF0 + a) ((0x80 + x) # (0x80 + b) # (0x80 + d) # rest) = (c, rest)"
      using utf8_first4[of a x b d rest] g(6-12) by (simp add: mult.commute)
    then show ?thesis using 4 by (simp add: utf8_bytes_def g(1,2,4,5))
  qed (simp add: utf8_bytes_def utf8_first_def)
qed

text \<open>Text that is well formed survives the relay unchanged.\<close>

lemma getString_getBytes: "\<forall>c \<in> set s. scalar c \<Longrightarrow> getString (getBytes s) = s"
proof (induction s)
  case (Cons c s)
  have "map uint (map (word_of_int :: int \<Rightarrow> byte) bs) = bs" if "\<forall>b \<in> set bs. 0 \<le> b \<and> b < 256" for bs
    using that by (induction bs) (auto simp: uint_word_of_int)
  then have "getString (getBytes s) = utf8_points (concat (map utf8_bytes s))"
    if "\<forall>c \<in> set s. scalar c" for s
    using that utf8_bytes_range unfolding getString_def getBytes_def by (metis (no_types, lifting) concat_map_in[where f = utf8_bytes and P = "\<lambda>b. 0 \<le> b \<and> b < 256"])
  with Cons show ?case by (simp add: utf8_points_bytes)
qed (simp add: getString_def getBytes_def)

section \<open>The handshake\<close>

definition is_ascii :: "string \<Rightarrow> bool" where
  "is_ascii v \<longleftrightarrow> (\<forall>c \<in> set v. (of_char c :: int) < 0x80)"

lemma getBytes_ascii: "is_ascii v \<Longrightarrow> getBytes (ascii v) = map byte_of v"
  by (induction v) (simp_all add: getBytes_def ascii_def is_ascii_def utf8_bytes_def byte_of_def)

lemma accept_packet:
  assumes "is_ascii v" "length v \<le> 16" "sv_version s = ascii v"
  shows "sendAccept c s = Inr (packet_code ConnectAccept # enc32 (cl_sessionId c) @
    enc16 (word_of_int (op_maxClients (sv_options s))) @ (if op_debugForceAudible (sv_options s) then 1 else 0) #
    enc_string8 v, cl_endPoint c)"
proof -
  have "truncateVersion (ascii v) 16 = ascii v"
    using assms(1,2) by (simp add: truncateVersion.simps getBytes_ascii)
  then show ?thesis using assms
    by (simp add: sendAccept_def to_def written_def cs_writes max_lengths getBytes_ascii enc_string8_def)
qed

lemma parse_accept_sent:
  assumes "length v \<le> 16"
  shows "parse_accept (packet_code ConnectAccept # enc32 sid @ enc16 mx @ (if d then 1 else 0) # enc_string8 v) =
    Inr (sid, d, v)"
  using assms string_field.rd_enc_end[of v 16]
  by (simp add: parse_accept_def new_reader_rdr readByte_rdr u32_field.rd_enc u16_field.rd_enc max_lengths)

text \<open>Whatever was sent before an accept, a ClientLeft never answers a handshake.\<close>

lemma await_reply_lefts: "await_reply (map (\<lambda>_. Datagram (packet_code ClientLeft # enc32 sid)) xs @ rs) = await_reply rs"
  by (induction xs) auto

lemma drop_stale_sends: "\<exists>sid eps. fst (fst (drop_stale uid s)) =
    map (\<lambda>ep. (packet_code ClientLeft # enc32 sid, ep)) eps"
proof (cases "uget (sv_byUid s) uid")
  case None
  then show ?thesis by (intro exI[of _ 0] exI[of _ "[]"]) (simp add: drop_stale_def)
next
  case (Some i)
  show ?thesis
    by (rule exI[of _ "cl_sessionId (session_of s i)"])
      (auto simp: drop_stale_def Some Let_def broadcastClientLeft_eq map_eq_conv
        intro!: exI[of _ "map (\<lambda>(_, i). cl_endPoint (session_of s i)) (udel (cl_sessionId (session_of s i)) (sv_byId s))"])
qed

lemma request_read:
  assumes "length hash = 32" "length u \<le> 40" "length nm \<le> 32"
  shows "handleConnectRequest now (new_reader (kVersionMajor # hash @ enc_string8 u @ enc_string8 nm)) remote s =
    (if getString (map byte_of u) = [] then (one (sendReject remote BadRequest), s)
     else if hash \<noteq> sv_expectedHash s then (one (sendReject remote BadPassword), s)
     else admit now remote (getString (map byte_of u)) (getString (map byte_of nm)) s)"
proof -
  have f: "cs_readBytesFixed 32 (rdr [kVersionMajor] (hash @ enc_string8 u @ enc_string8 nm)) =
      Inr (hash, rdr (kVersionMajor # hash) (enc_string8 u @ enc_string8 nm))"
    using assms(1) advance_rdr[of 32 "hash @ enc_string8 u @ enc_string8 nm" "[kVersionMajor]"]
    by (simp add: cs_readBytesFixed_def) (simp add: rdr_def)
  have "cs_readString8 kMaxUidLength (rdr (kVersionMajor # hash) (enc_string8 u @ enc_string8 nm)) =
      Inr (getString (map byte_of u), rdr (kVersionMajor # hash @ enc_string8 u) (enc_string8 nm))"
    "cs_readString8 kMaxNameLength (rdr (kVersionMajor # hash @ enc_string8 u) (enc_string8 nm)) =
      Inr (getString (map byte_of nm), rdr (kVersionMajor # hash @ enc_string8 u @ enc_string8 nm) [])"
    using assms cs_readString8_enc[of u 40] cs_readString8_enc[of nm 32 _ "[]"] by (simp_all add: max_lengths)
  with f show ?thesis
    using assms(1) by (simp add: handleConnectRequest_def Let_def new_reader_rdr)
qed

lemma getString_Nil: "getString bs = [] \<longleftrightarrow> bs = []"
  unfolding getString_def by (cases bs) simp_all

text \<open>C20. A client that connects and the relay agree. A client with the relay's password and a nonempty uid asks from
  some endpoint, and there is room. Whatever the relay does with an earlier session of that uid and
  whoever else is connected, the datagrams it sends back to the endpoint, read as a handshake reply,
  are an acceptance with the session number under which the relay now knows the endpoint, its debug
  flag and its version.\<close>

theorem connect_end_to_end:
  assumes "length hash = 32" "sv_expectedHash s = hash" "connect_packet hash idt = Inr p"
    and "truncateUtf8 (id_uid idt) kMaxUidLength \<noteq> []"
    and "int (length (sv_byId s)) < op_maxClients (sv_options s)"
    and "sv_version s = ascii v" "is_ascii v" "length v \<le> 16" 
  shows "\<exists>ds e s'. server_step now (Received remote p) s = ((ds, e), s') \<and>
    await_reply (map Datagram (map fst (filter (\<lambda>(_, ep). ep = remote) ds))) =
      Some (Accepted (sv_nextSessionId s) (op_debugForceAudible (sv_options s)) v) \<and>
    (\<exists>i. uget (sv_byEndPoint s') remote = Some i \<and> cl_sessionId (session_of s' i) = sv_nextSessionId s)"
proof -
  define uid where "uid = getString (map byte_of (truncateUtf8 (id_uid idt) kMaxUidLength))"
  define name where "name = getString (map byte_of (truncateUtf8 (id_name idt) kMaxNameLength))"
  have step: "server_step now (Received remote p) s = admit now remote uid name s"
    using connect_packet_eq[OF assms(1), of idt] assms(1-4) length_truncateUtf8[of _ 40] length_truncateUtf8[of _ 32]
    by (simp add: server_step_def server_packet_def Let_def request_read uid_def name_def getString_Nil max_lengths)
  obtain ds0 s1 where d: "drop_stale uid s = ((ds0, None), s1)"
    using drop_stale_sel(3)[of uid s] by (metis prod.collapse)
  have s1: "sv_objects s1 = sv_objects s" "sv_options s1 = sv_options s" "length (sv_byId s1) \<le> length (sv_byId s)"
    "sv_nextSessionId s1 = sv_nextSessionId s" "sv_version s1 = sv_version s"
    using d drop_stale_sel[of uid s] by (auto simp: drop_stale_def drop_session_def Let_def split: option.splits)
  obtain c s2 where a: "add_session now remote uid name s1 = (c, s2)" by fastforce
  then have s2: "cl_sessionId c = sv_nextSessionId s" "cl_endPoint c = remote" "sv_options s2 = sv_options s"
    "sv_version s2 = sv_version s" "sv_objects s2 = sv_objects s @ [c]"
    "uget (sv_byEndPoint s2) remote = Some (length (sv_objects s))"
    using s1 by (auto simp: add_session_def Let_def umap_simps)
  define reply where "reply = packet_code ConnectAccept # enc32 (sv_nextSessionId s) @
    enc16 (word_of_int (op_maxClients (sv_options s))) @ (if op_debugForceAudible (sv_options s) then 1 else 0) # enc_string8 v"
  have accept: "sendAccept c s2 = Inr (reply, remote)"
    using accept_packet[OF assms(7,8), of s2 c] assms(6) s2 by (simp add: reply_def)
  obtain ds1 e1 where g: "greet remote c s2 = ((reply, remote) # ds1, e1)"
    by (metis accept andThen.simps(1) append_Cons append_Nil greet_def one_def prod.collapse sum.case(2))
  have "admit now remote uid name s = ((ds0 @ (reply, remote) # ds1, e1), s2)"
    using d a g s1 assms(5) by (simp add: admit_def)
  moreover obtain sid eps where "ds0 = map (\<lambda>ep. (packet_code ClientLeft # enc32 sid, ep)) eps"
    using drop_stale_sends[of uid s] d by auto
  then have "map Datagram (map fst (filter (\<lambda>(_, ep). ep = remote) ds0)) =
      map (\<lambda>_. Datagram (packet_code ClientLeft # enc32 sid)) (filter (\<lambda>ep. ep = remote) eps)"
    by (induction eps arbitrary: ds0) auto
  moreover have "await_reply (Datagram reply # rs) =
      Some (Accepted (sv_nextSessionId s) (op_debugForceAudible (sv_options s)) v)" for rs
    using parse_accept_sent[OF assms(8)] by (simp add: reply_def)
  ultimately show ?thesis
    using step s2 by (simp add: await_reply_lefts del: await_reply.simps packet_code.simps map_map)
qed

lemma connect_end_to_end_witness:
  "\<exists>ds e s'. server_step 0 (Received (1, 1) (knock 65)) (new_server zero_hash (ascii ''1.0'') small_server) = ((ds, e), s') \<and>
     await_reply (map Datagram (map fst (filter (\<lambda>(_, ep). ep = (1, 1)) ds))) = Some (Accepted 1 False ''1.0'') \<and>
     (\<exists>i. uget (sv_byEndPoint s') (1, 1) = Some i \<and> cl_sessionId (session_of s' i) = 1)"
proof -
  let ?idt = "\<lparr>id_uid = ''A'', id_name = ''A''\<rparr>"
  have p: "connect_packet (replicate 32 0) ?idt = Inr (knock 65)" by code_simp
  have "is_ascii ''1.0''" by (simp add: is_ascii_def)
  from connect_end_to_end[of "replicate 32 0" "new_server zero_hash (ascii ''1.0'') small_server" ?idt "knock 65" "''1.0''" 0 "(1, 1)"] p this
  show ?thesis
    by (simp add: new_server_def zero_hash_def small_server_def truncateUtf8.simps max_lengths)
qed

section \<open>A name the relay cannot repeat\<close>

text \<open>An ill-formed byte of a name is read as U+FFFD, which is three bytes when it is written again. A
  session whose uid and name no longer fit a ClientJoined ends every loop over the sessions that
  reaches it: a roster request of anyone else, and, after the accept, the rest of every later
  handshake, so that nobody is told of the client that just connected.\<close>

definition unrepeatable :: "clientSession \<Rightarrow> bool" where
  "unrepeatable c \<longleftrightarrow> 72 < length (getBytes (cl_uid c)) + length (getBytes (cl_name c))"

lemma sendClientJoined_raises: "unrepeatable c \<Longrightarrow> \<exists>e. sendClientJoined target c = Inl e"
  unfolding sendClientJoined_def to_def joined_packet unrepeatable_def by auto

lemma each_raises_unrepeatable:
  assumes "c \<in> set cs" "unrepeatable c"
  shows "snd (each (sendClientJoined target) cs) \<noteq> None"
  using sendClientJoined_raises[OF assms(2), of target] each_raises[OF assms(1)] by blast

lemma each_sends: "d \<in> set (fst (each f xs)) \<Longrightarrow> \<exists>x \<in> set xs. f x = Inr d"
  by (induction xs) (auto split: sum.splits prod.splits)

theorem unrepeatable_name_breaks_roster:
  assumes c: "c \<in> set (map (session_of s \<circ> snd) (sv_byId s))" "unrepeatable c"
    and remote: "uget (sv_byEndPoint s) remote = Some i" "cl_sessionId (session_of s i) \<noteq> cl_sessionId c"
    and c': "cl_sessionId c' \<noteq> cl_sessionId c"
  shows "snd (fst (handleRosterRequest remote s)) \<noteq> None \<and>
    snd (greet (cl_endPoint c') c' s) \<noteq> None \<and>
    (\<forall>d \<in> set (fst (greet (cl_endPoint c') c' s)). snd d = cl_endPoint c')"
proof -
  have r: "snd (each (sendClientJoined t) (others n s)) \<noteq> None" if "n \<noteq> cl_sessionId c" for n t
    by (rule each_raises_unrepeatable[OF _ c(2)]) (use that c(1) in \<open>auto simp: others_def\<close>)
  let ?joins = "each (sendClientJoined (cl_endPoint c')) (others (cl_sessionId c') s)"
  have "andThen x y = x" if "snd x \<noteq> None" for x y
    using that by (cases x) auto
  with r[of "cl_sessionId c'"] c' have g: "greet (cl_endPoint c') c' s = andThen (one (sendAccept c' s)) ?joins"
    by (simp add: greet_def)
  have to: "snd d = t" if "to t p = Inr d" for d t p using that by (cases p) (auto simp: to_def)
  then have joins: "\<forall>d \<in> set (fst ?joins). snd d = cl_endPoint c'"
    using each_sends[of _ "sendClientJoined (cl_endPoint c')"] unfolding sendClientJoined_def by blast
  have "snd (fst (handleRosterRequest remote s)) \<noteq> None"
    using r remote by (simp add: handleRosterRequest_def)
  moreover have "snd (andThen (one x) ?joins) \<noteq> None" for x
    using r[OF c', of "cl_endPoint c'"] by (cases ?joins) (auto simp: one_def split: sum.split)
  moreover have "\<forall>d \<in> set (fst (andThen (one (sendAccept c' s)) ?joins)). snd d = cl_endPoint c'"
    using joins to unfolding sendAccept_def one_def by (cases ?joins) (auto split: sum.split)
  ultimately show ?thesis by (simp add: g)
qed

text \<open>Thirty-two ill-formed bytes make such a name, and a client can send them.\<close>

definition spoiled :: server where
  "spoiled = snd (server_run [(0, Received (3, 1) ([1, 1] @ replicate 32 0 @ [1, 67, 32] @ replicate 32 0xFF)),
     (0, Received (1, 1) (knock 65))] (new_server zero_hash (ascii ''1.0'') small_server))"

lemma spoiled_name: "session_of spoiled 0 = \<lparr>cl_sessionId = 1, cl_endPoint = (3, 1), cl_uid = [67],
    cl_name = replicate 32 0xFFFD, cl_lastSeen = 0, cl_lastVoiceSequence = 0\<rparr>"
  "sv_byId spoiled = [(1, 0), (2, 1)]" "sv_byEndPoint spoiled = [((3, 1), 0), ((1, 1), 1)]"
  "cl_sessionId (session_of spoiled (Suc 0)) = 2"
  by code_simp+

lemma unrepeatable_name_breaks_roster_witness:
  "snd (fst (handleRosterRequest (1, 1) spoiled)) \<noteq> None \<and>
   snd (greet (cl_endPoint (session_of spoiled 1)) (session_of spoiled 1) spoiled) \<noteq> None"
proof -
  have "unrepeatable (session_of spoiled 0)" unfolding spoiled_name unrepeatable_def by code_simp
  moreover have "session_of spoiled 0 \<in> set (map (session_of spoiled \<circ> snd) (sv_byId spoiled))"
    by (simp add: spoiled_name(2))
  ultimately show ?thesis
    using unrepeatable_name_breaks_roster[of "session_of spoiled 0" spoiled "(1, 1)" 1 "session_of spoiled 1"]
    by (simp add: spoiled_name)
qed

text \<open>A client that connects again from the same endpoint under another uid replaces itself only in the
  dictionary of endpoints: until its old session times out, it is sent its own voice.\<close>

lemma reused_endpoint_hears_itself:
  "fst (server_step 1 (Received (1, 1) [7, 0, 0, 0, 5])
     (snd (server_run [(0, Received (1, 1) (knock 65)), (0, Received (1, 1) (knock 66))]
       (new_server zero_hash (ascii ''1.0'') small_server)))) =
   ([([8, 2, 0, 0, 0, 0, 0, 0, 5], (1, 1))], None)"
  by code_simp

text \<open>A client that connects again while the sweep holds its old session in its snapshot loses its entries by
  endpoint and uid when the sweep comes to the old session: it stays in \<open>_sessionsById\<close>, but what it says
  is ignored.\<close>

lemma swept_reconnect_ignored:
  "(let s = snd (server_run [(0, Received (1, 1) (knock 65)), (0, Received (2, 1) (knock 66)), (ms 29000, Received (2, 1) [5, 0, 0, 0, 0]),
        (ms 30000, SweepWakes), (ms 30000, Received (1, 1) (knock 65)), (ms 30000, SweepNext)]
      (new_server zero_hash (ascii ''1.0'') small_server))
    in (map fst (sv_byId s), map fst (sv_byEndPoint s), fst (server_step (ms 30001) (Received (1, 1) [7, 0, 0, 0, 5]) s))) =
   ([2, 3], [(2, 1)], ([], None))"
  by code_simp

end
