(* ===== verification/Hearing.thy ===== *)
theory Hearing
  imports Program "HOL-Library.Sublist"
begin

text \<open>
  What becomes of the frames in the queue of one speaker while the loudspeaker thread renders: whatever
  the render loops of source and mixer do between two arrivals, the decoder is given the queued frames in
  order, with concealment in between. Used for a whole transmission in \<open>EndToEnd\<close>.
\<close>

section \<open>One source among the others\<close>

definition at_source :: "32 word \<Rightarrow> ('d source \<Rightarrow> bool) \<Rightarrow> 'd mixer \<Rightarrow> bool" where
  "at_source sid P x = (case uget (mx_sources x) sid of None \<Rightarrow> False | Some s \<Rightarrow> P s)"

lemma at_sourceE:
  assumes "at_source sid P x"
  obtains s where "uget (mx_sources x) sid = Some s" "P s"
  using assms by (auto simp: at_source_def split: option.splits)

lemma at_source_cong: "mx_sources x' = mx_sources x \<Longrightarrow> at_source sid P x' = at_source sid P x"
  by (simp add: at_source_def)

lemma at_source_mono: "at_source sid P x \<Longrightarrow> (\<And>s. P s \<Longrightarrow> Q s) \<Longrightarrow> at_source sid Q x"
  by (auto simp: at_source_def split: option.splits)

text \<open>
  A predicate on a source that survives the production of a frame and does not look at the cursors and the
  cue survives a whole device buffer.
\<close>

locale watched_source =
  fixes m :: libm and dec :: "'d opus_decode" and Q :: "'d source \<Rightarrow> bool"
  assumes produced: "Q s \<Longrightarrow> Q (snd (tryProduceNextFrame m dec s))"
    and cursor: "Q (s\<lparr>so_stereoFramePos := p\<rparr>) = Q s"
    and beep: "Q (take_beep s) = Q s" "Q (s\<lparr>so_beepPos := p\<rparr>) = Q s"
begin

lemma render_voice_keeps:
  assumes "render_voice m dec n s = Some r" "Q s"
  shows "Q (snd r)"
proof -
  have "m = m \<longrightarrow> dec = dec \<longrightarrow> Q s \<longrightarrow> Q (snd r)"
  proof (rule render_voice.raw_induct[where P = "\<lambda>m' dec' n s r. m' = m \<longrightarrow> dec' = dec \<longrightarrow> Q s \<longrightarrow> Q (snd r)", OF _ assms(1)],
      goal_cases)
    case (1 rv m' dec' n s r)
    have p: "Q s \<Longrightarrow> Q s'" if "tryProduceNextFrame m dec s = (b, s')" for b s'
      using produced[of s] that by simp
    have ih: "rv m dec n s = Some (out, s') \<Longrightarrow> Q s \<Longrightarrow> Q s'" for n s out s'
      using 1(1)[of m dec n s "(out, s')"] by simp
    from 1(2) show ?case
      by (auto simp: Let_def p cursor bind_eq_Some_conv dest!: ih split: if_splits prod.splits bool.splits)
  qed
  with assms(2) show ?thesis by simp
qed

lemma render_keeps:
  assumes "render m dec n s = Some (out, s')" "Q s"
  shows "Q s'"
proof -
  obtain out0 s0 where r: "render_voice m dec n s = Some (out0, s0)" "render_beep m n out0 s0 = (out, s')"
    using assms(1) by (auto simp: render_def bind_eq_Some_conv)
  have "Q (snd (render_beep m n out0 s0)) = Q s0"
    by (simp add: render_beep_def Let_def beep split: option.split prod.split)
  with render_voice_keeps[OF r(1) assms(2)] r(2) show ?thesis by simp
qed

lemma mix_sources_keeps:
  "mix_sources m dec srcs mix = Some (mix', srcs') \<Longrightarrow> uget srcs sid = Some s \<Longrightarrow> Q s \<Longrightarrow>
     \<exists>s'. uget srcs' sid = Some s' \<and> Q s'"
proof (induction srcs arbitrary: mix mix' srcs')
  case (Cons e srcs)
  obtain k t where e: "e = (k, t)" by force
  with Cons.prems(1) obtain out t' mix1 rest' where r: "render m dec kChunkFrames t = Some (out, t')"
    "mix_sources m dec srcs (map2 add32 mix out) = Some (mix1, rest')" "srcs' = (k, t') # rest'"
    by (auto simp: bind_eq_Some_conv)
  show ?case
  proof (cases "k = sid")
    case True
    with Cons.prems(2,3) e render_keeps[OF r(1)] r(3) show ?thesis by simp
  next
    case False
    with Cons.prems(2,3) Cons.IH[OF r(2)] e r(3) show ?thesis by simp
  qed
qed simp

lemma generateChunk_keeps:
  assumes "generateChunk m dec x = Some x'" "at_source sid Q x"
  shows "at_source sid Q x'"
proof -
  obtain mix srcs mix1 y where ms: "mix_sources m dec (mx_sources x) (replicate (kChunkFrames * 2) (Fin 0)) = Some (mix, srcs)"
    and y: "mix_local_beep mix (x\<lparr>mx_sources := srcs\<rparr>) = (mix1, y)"
    using assms(1) by (auto simp: generateChunk_def bind_eq_Some_conv) force
  have "mx_sources y = srcs" using y by (auto simp: mix_local_beep_def Let_def split: if_splits)
  moreover have "mx_sources (phantom_check mix2 y) = mx_sources y" for mix2 by (simp add: phantom_check_def)
  ultimately have "mx_sources x' = srcs" using assms(1) ms y by (auto simp: generateChunk_def Let_def)
  moreover from assms(2) obtain s where "uget (mx_sources x) sid = Some s" "Q s" by (rule at_sourceE)
  ultimately show ?thesis using mix_sources_keeps[OF ms] by (fastforce simp: at_source_def)
qed

lemma top_up_keeps:
  assumes "top_up m dec x = Some x'" "at_source sid Q x"
  shows "at_source sid Q x'"
proof -
  have "m = m \<longrightarrow> dec = dec \<longrightarrow> at_source sid Q x \<longrightarrow> at_source sid Q x'"
  proof (rule top_up.raw_induct[where P = "\<lambda>m' dec' x x'. m' = m \<longrightarrow> dec' = dec \<longrightarrow> at_source sid Q x \<longrightarrow> at_source sid Q x'"
        and xa = "((m, dec), x)" and y = x', unfolded prod.case], goal_cases)
    case (1 tu m' dec' x x')
    then show ?case
    proof (cases "length (mx_mixed48k x) div 2 \<le> size_cast m' (mx_resampleCursor x) + 1")
      case True
      with 1(2) obtain y where "generateChunk m' dec' x = Some y" "tu m' dec' y = Some x'"
        by (auto simp: bind_eq_Some_conv)
      then show ?thesis using 1(1) generateChunk_keeps by blast
    qed simp
  qed (rule assms(1))
  with assms(2) show ?thesis by simp
qed

lemma device_frames_keeps:
  "device_frames m dec step k x = Some (frs, x') \<Longrightarrow> at_source sid Q x \<Longrightarrow> at_source sid Q x'"
proof (induction k arbitrary: x frs)
  case (Suc k)
  then obtain fr y frs' where d: "device_frame m dec step x = Some (fr, y)" "device_frames m dec step k y = Some (frs', x')"
    by (auto simp: bind_eq_Some_conv)
  then have "at_source sid Q y"
    using Suc.prems(2) top_up_keeps by (auto simp: device_frame_def Let_def bind_eq_Some_conv at_source_def)
  from Suc.IH[OF d(2) this] show ?case .
qed simp

lemma fill_buffer_keeps:
  assumes "fill_buffer m dec fmt k x = Some (b, x')" "at_source sid Q x"
  shows "at_source sid Q x'"
proof -
  obtain frs y where "device_frames m dec (resample_step (wf_samplesPerSec fmt)) k x = Some (frs, y)" "x' = drop_consumed m y"
    using assms(1) by (auto simp: fill_buffer_def bind_eq_Some_conv)
  with device_frames_keeps[OF this(1) assms(2)] show ?thesis
    by (simp add: drop_consumed_def Let_def at_source_def)
qed

end

section \<open>What the decoder was given\<close>

text \<open>The requests to the decoder: the bytes of a frame, or \<open>None\<close> for the concealment of a missing one.\<close>

definition decode_log :: "'d opus_decode \<Rightarrow> byte list option list \<Rightarrow> 'd option \<Rightarrow> 'd option" where
  "decode_log dec requests d = fold (\<lambda>p d. snd (run_decoder dec p d)) requests d"

definition packets_of :: "byte list option list \<Rightarrow> byte list list" where
  "packets_of requests = List.map_filter (\<lambda>p. p) requests"

lemma packets_of_simps [simp]:
  "packets_of [] = []" "packets_of (xs @ [None]) = packets_of xs" "packets_of (xs @ [Some p]) = packets_of xs @ [p]"
  by (simp_all add: packets_of_def List.map_filter_def)

lemma decode_log_append [simp]: "decode_log dec (xs @ ys) d = decode_log dec ys (decode_log dec xs d)"
  by (simp add: decode_log_def)

text \<open>At most ten concealments in a row; the count of a playing source bounds those at the end.\<close>

definition gaps_bounded :: "byte list option list \<Rightarrow> bool \<Rightarrow> int \<Rightarrow> bool" where
  "gaps_bounded reqs playing cnt \<longleftrightarrow> \<not> sublist (replicate 11 None) reqs \<and>
     (\<forall>k. suffix (replicate k None) reqs \<longrightarrow> k \<le> 10 \<and> (playing \<longrightarrow> int k \<le> cnt))"

lemma replicate_Suc_snoc: "replicate (Suc n) a = zs @ [x] \<longleftrightarrow> zs = replicate n a \<and> x = a"
  by (metis append1_eq_conv replicate_Suc replicate_append_same)

lemma suffix_replicate_snoc: "suffix (replicate k None) (reqs @ [x]) \<longleftrightarrow>
    k = 0 \<or> x = None \<and> (\<exists>j. k = Suc j \<and> suffix (replicate j None) reqs)"
  by (cases k) (auto simp: replicate_Suc_snoc simp del: replicate_Suc)

lemma sublist_replicate_snoc:
  "sublist (replicate k None) (reqs @ [x]) \<Longrightarrow> sublist (replicate k None) reqs \<or> suffix (replicate k None) (reqs @ [x])"
  by (auto simp: sublist_snoc)

lemma gaps_start: "0 \<le> cnt \<Longrightarrow> gaps_bounded [] playing cnt"
  by (auto simp: gaps_bounded_def)

lemma gaps_idle: "gaps_bounded reqs playing cnt \<Longrightarrow> gaps_bounded reqs False cnt'"
  by (auto simp: gaps_bounded_def)

lemma gaps_extend:
  assumes "gaps_bounded reqs playing cnt"
    and "\<And>k. suffix (replicate k None) (reqs @ [x]) \<Longrightarrow> k \<le> 10 \<and> (playing' \<longrightarrow> int k \<le> cnt')"
  shows "gaps_bounded (reqs @ [x]) playing' cnt'"
proof -
  have "\<not> sublist (replicate 11 None) (reqs @ [x])"
  proof
    assume "sublist (replicate 11 None) (reqs @ [x])"
    from sublist_replicate_snoc[OF this] assms(1) have "suffix (replicate 11 None) (reqs @ [x])"
      by (auto simp only: gaps_bounded_def)
    from assms(2)[OF this] show False by linarith
  qed
  with assms(2) show ?thesis by (simp only: gaps_bounded_def simp_thms) blast
qed

lemma gaps_frame:
  assumes "gaps_bounded reqs playing cnt"
  shows "gaps_bounded (reqs @ [Some p]) playing' 0"
proof (rule gaps_extend[OF assms])
  show "k \<le> 10 \<and> (playing' \<longrightarrow> int k \<le> 0)" if "suffix (replicate k None) (reqs @ [Some p])" for k
    using that unfolding suffix_replicate_snoc by simp
qed

lemma gaps_conceal:
  assumes "gaps_bounded reqs True cnt" "cnt < 10"
  shows "gaps_bounded (reqs @ [None]) True (cnt + 1)"
proof (rule gaps_extend[OF assms(1)])
  show "k \<le> 10 \<and> (True \<longrightarrow> int k \<le> cnt + 1)" if k: "suffix (replicate k None) (reqs @ [None])" for k
  proof (cases k)
    case 0
    have "suffix (replicate 0 None) reqs" by simp
    with assms(1) have "int 0 \<le> cnt" unfolding gaps_bounded_def by blast
    with 0 show ?thesis by simp
  next
    case (Suc j)
    with k have "suffix (replicate j None) reqs" unfolding suffix_replicate_snoc by simp
    with assms(1) have "int j \<le> cnt" unfolding gaps_bounded_def by blast
    with assms(2) Suc show ?thesis by simp
  qed
qed

text \<open>
  The source has been given the frames \<open>got\<close>: those that went to the decoder and those still queued are a
  part of them in order, all of them when \<open>kept\<close>, and the last one never is dropped. It does not play on
  after a frame with the end marker.
\<close>

definition frames_decoded :: "'d opus_decode \<Rightarrow> 'd option \<Rightarrow> pendingFrame list \<Rightarrow> byte list option list \<Rightarrow> 'd source \<Rightarrow> bool" where
  "frames_decoded dec d0 played reqs s \<longleftrightarrow> so_decoder s = decode_log dec reqs d0 \<and> packets_of reqs = map pf_data played \<and>
     gaps_bounded reqs (so_isPlaying s) (so_concealmentCount s) \<and>
     (so_isPlaying s \<and> played \<noteq> [] \<longrightarrow> \<not> pf_isLast (last played))"

definition in_order :: "bool \<Rightarrow> pendingFrame list \<Rightarrow> pendingFrame list \<Rightarrow> bool" where
  "in_order kept frames got \<longleftrightarrow> subseq frames got \<and> (kept \<longrightarrow> frames = got) \<and>
     (got \<noteq> [] \<longrightarrow> frames \<noteq> [] \<and> last frames = last got)"

definition follows :: "'d opus_decode \<Rightarrow> 'd option \<Rightarrow> bool \<Rightarrow> pendingFrame list \<Rightarrow> 'd source \<Rightarrow> bool" where
  "follows dec d0 kept got s \<longleftrightarrow> audible s \<and>
     (\<exists>played reqs. frames_decoded dec d0 played reqs s \<and> in_order kept (played @ so_pending s) got)"

lemma follows_start:
  assumes "audible s" "0 \<le> so_concealmentCount s"
  shows "follows dec (so_decoder s) kept (so_pending s) s"
  unfolding follows_def
  by (intro conjI assms(1) exI[of _ "[]"])
    (use assms(2) in \<open>simp_all add: frames_decoded_def in_order_def gaps_start decode_log_def\<close>)

lemma follows_produced:
  assumes "follows dec d0 kept got s"
  shows "follows dec d0 kept got (snd (tryProduceNextFrame m dec s))"
proof -
  from assms obtain played reqs where h: "audible s" "frames_decoded dec d0 played reqs s"
    "in_order kept (played @ so_pending s) got" by (auto simp: follows_def)
  let ?t = "snd (tryProduceNextFrame m dec s)"
  have a: "audible ?t" by (rule produce_audible[OF h(1)])
  have "\<exists>played reqs. frames_decoded dec d0 played reqs ?t \<and> in_order kept (played @ so_pending ?t) got"
  proof (cases "so_pending s")
    case Nil
    consider "\<not> so_isPlaying s" | "so_isPlaying s" "10 \<le> so_concealmentCount s" | "so_isPlaying s" "so_concealmentCount s < 10"
      by linarith
    then show ?thesis
    proof cases
      case 3
      with h Nil show ?thesis
        by (intro exI[of _ played] exI[of _ "reqs @ [None]"])
          (auto simp: produce_cases[OF h(1)] Let_def kMaxConcealmentFrames_def case_prod_unfold frames_decoded_def
            decode_log_def decodePacketLoss_def gaps_conceal)
    qed (use h Nil in \<open>intro exI[of _ played] exI[of _ reqs], auto simp: produce_cases[OF h(1)] Let_def
        kMaxConcealmentFrames_def frames_decoded_def intro: gaps_idle\<close>)+
  next
    case (Cons f rest)
    show ?thesis
    proof (cases "\<not> so_isPlaying s \<and> int (length rest) < kJitterTargetFrames - 1 \<and> \<not> (pf_isLast f \<or> list_ex pf_isLast rest)")
      case True
      with h Cons show ?thesis
        by (intro exI[of _ played] exI[of _ reqs]) (auto simp: produce_cases[OF h(1)] Let_def frames_decoded_def)
    next
      case False
      then have t: "so_pending ?t = rest" "so_isPlaying ?t = (\<not> pf_isLast f)" "so_concealmentCount ?t = 0"
        "so_decoder ?t = snd (run_decoder dec (Some (pf_data f)) (so_decoder s))"
        using Cons by (auto simp: produce_cases[OF h(1)] Let_def case_prod_unfold decode_def)
      with h Cons show ?thesis
        by (intro exI[of _ "played @ [f]"] exI[of _ "reqs @ [Some (pf_data f)]"])
          (auto simp: frames_decoded_def decode_log_def intro: gaps_frame)
    qed
  qed
  with a show ?thesis by (simp add: follows_def)
qed

lemma follows_upd [simp]:
  "follows dec d0 kept got (s\<lparr>so_stereoFramePos := p\<rparr>) = follows dec d0 kept got s"
  "follows dec d0 kept got (s\<lparr>so_beepPos := p\<rparr>) = follows dec d0 kept got s"
  "follows dec d0 kept got (s\<lparr>so_pendingBeep := b\<rparr>) = follows dec d0 kept got s"
  "follows dec d0 kept got (take_beep s) = follows dec d0 kept got s"
  by (simp_all add: follows_def audible_def frames_decoded_def take_beep_def split: option.split)

lemma follows_states:
  "follows dec d0 kept got s \<Longrightarrow> audible (s\<lparr>so_states := sts\<rparr>) \<Longrightarrow> follows dec d0 kept got (s\<lparr>so_states := sts\<rparr>)"
  by (simp add: follows_def frames_decoded_def)

interpretation following: watched_source m dec "follows dec d0 kept got" for m dec d0 kept got
  by unfold_locales (simp_all add: follows_produced)

text \<open>A frame arrives; the queue drops its oldest frame when it holds ten already.\<close>

lemma in_order_arrival:
  assumes "in_order kept (played @ pending) got" "kept \<longrightarrow> length pending < kMaxQueuedFrames"
  shows "in_order kept (played @ drop (length (pending @ [q]) - kMaxQueuedFrames) (pending @ [q])) (got @ [q])"
proof -
  let ?k = "length (pending @ [q]) - kMaxQueuedFrames"
  have "?k \<le> length pending" by (simp add: kMaxQueuedFrames_def)
  then have k: "drop ?k (pending @ [q]) = drop ?k pending @ [q]" by simp
  have "subseq (drop ?k (pending @ [q])) (pending @ [q])" by (rule suffix_imp_subseq[OF suffix_drop])
  then have "subseq (played @ drop ?k (pending @ [q])) (played @ (pending @ [q]))" by (simp only: subseq_append')
  then have "subseq (played @ drop ?k (pending @ [q])) ((played @ pending) @ [q])" by (simp only: append_assoc)
  moreover have "subseq ((played @ pending) @ [q]) (got @ [q])" using assms(1) by (simp add: in_order_def del: append_assoc)
  ultimately have "subseq (played @ drop ?k (pending @ [q])) (got @ [q])" by (rule subseq_order.order_trans)
  moreover have "last (played @ drop ?k (pending @ [q])) = q" "drop ?k (pending @ [q]) \<noteq> []"
    unfolding k by simp_all
  moreover have "played @ drop ?k (pending @ [q]) = got @ [q]" if kept
    using assms that by (simp add: in_order_def)
  ultimately show ?thesis by (simp add: in_order_def)
qed

lemma follows_arrival:
  assumes "follows dec d0 kept got s" "kept \<longrightarrow> length (so_pending s) < kMaxQueuedFrames"
  shows "follows dec d0 kept (got @ [\<lparr>pf_data = opus, pf_isLast = isLast\<rparr>]) (enqueueOpusFrame opus isLast s)"
proof -
  from assms(1) obtain played reqs where h: "audible s" "frames_decoded dec d0 played reqs s"
    "in_order kept (played @ so_pending s) got" by (auto simp: follows_def)
  from in_order_arrival[OF h(3) assms(2)] h(1,2) show ?thesis
    unfolding follows_def enqueueOpusFrame_def Let_def
    by (intro conjI exI[of _ played] exI[of _ reqs]) (simp_all add: audible_def frames_decoded_def)
qed

end
