(* ===== verification/EndToEnd.thy ===== *)
theory EndToEnd
  imports VoiceServerProps Hearing
begin

text \<open>
  The parts together: what one client says, through its network client, the relay, and another
  client's network client and session, to the queue and the decoder of the source it is heard
  from.
\<close>

section \<open>Through the relay\<close>















text \<open>A datagram starts with the byte that is written first.\<close>

definition appends :: "(writer \<Rightarrow> writer cs_result) \<Rightarrow> bool" where
  "appends f \<longleftrightarrow> (\<forall>w w'. f w = Inr w' \<longrightarrow> (\<exists>q. pw_bytes w' = pw_bytes w @ q))"

lemma appends_writes [simp]:
  "appends (cs_writeByte b)" "appends (cs_writeUInt16 v)" "appends (cs_writeUInt32 u)" "appends (cs_writeString8 s)"
  "appends (cs_writeBytes bs)"
  by (auto simp: appends_def cs_writes split: if_splits)















section \<open>Into the queue of the receiver\<close>













section \<open>The threads of the receiver\<close>












section \<open>Out of the queue\<close>




section \<open>From one client to another\<close>













end
