(* ===== verification/Spec2Isabelle.thy ===== *)
theory Spec2Isabelle
  imports UtilProps CommandProps NetProps SourceProps MixerProps TransmitProps CaptureProps SessionProps
    TickProps Program Platform Lifecycle Supervision VoiceServerProps EndToEnd
begin

text \<open>
  A model of the native extension of Task Force Radio Standalone, the C++ library under
  \<open>src/addon/extensions/task_force_radio_pipe/src/\<close> that the game loads. Paths below are relative to that
  directory. With it a model of the relay its clients talk to, the C# program under
  \<open>src/voice-server/src/Tfrs.VoiceServer\<close>, so that what two clients say to each other can be followed from
  end to end.

  \<^bold>\<open>The program.\<close> The game's scripts call one exported function (\<open>Extension.cpp\<close>,
  \<open>RVExtension\<close>) with text commands; \<open>CommandProcessor\<close> parses them and lets \<open>State\<close>, the game state
  known to the extension (players, radios, antennas, settings), change or answer. From that state
  \<open>State::computeAudibleUnits\<close> derives, fifteen times a second, who is heard, how loud, from where and
  through which radio. The voice side (\<open>Voice/\<close>) has one thread each for the network
  (\<open>VoiceNetworkClient\<close>, UDP to the relay server), the microphone (\<open>WasapiCaptureEngine\<close> feeding
  \<open>TransmitController\<close>) and the loudspeaker (\<open>PlaybackMixer\<close> with one \<open>RemoteVoiceSource\<close> per remote
  speaker). \<open>VoiceSession\<close> owns them and routes their callbacks. The sender thread of \<open>Extension.cpp\<close> is
  the only place where \<open>State\<close> and \<open>VoiceSession\<close> meet: each pass carries settings, identity and the
  announcement of the local transmission to the session, the remote transmissions back to the state, and
  the snapshot of audible units to the mixer. The relay knows its clients by their endpoints, session
  numbers and uids, tells each of the others, and hands every voice frame and radio announcement of one
  to all others.

  \<^bold>\<open>Theories and sources.\<close>
  \<^item> \<open>Prelude\<close>: ordered finite maps for \<open>std::unordered_map\<close>, loops with a state, and the contracts shared
    by the components.
  \<^item> \<open>Floats\<close>: binary32 and binary64 with NaN, infinities and one rounding per operation.
  \<^item> \<open>CStrings\<close>, \<open>Strtof\<close>, \<open>VecMath\<close>, with \<open>UtilProps\<close>: \<open>Util.h\<close>, \<open>Util.cpp\<close>.
  \<^item> \<open>ExtState\<close> (data and handlers), \<open>StateInv\<close> (invariant), \<open>Solver\<close> (audibility), \<open>SolverFacts\<close>,
    \<open>SolverProps\<close>: \<open>State.h\<close>, \<open>State.cpp\<close>.
  \<^item> \<open>Commands\<close>, \<open>CommandProps\<close>: \<open>CommandProcessor.cpp\<close>.
  \<^item> \<open>Protocol\<close>, \<open>ProtocolFacts\<close>, \<open>NetClient\<close>, \<open>NetProps\<close>: \<open>Voice/Protocol.cpp\<close>, \<open>Voice/VoiceNetworkClient.cpp\<close>.
  \<^item> \<open>Cursor\<close>, \<open>Dsp\<close>: the resamplers' read position, \<open>Voice/Dsp/*\<close>. \<open>OpusCodec\<close>: \<open>Voice/OpusCodec.cpp\<close>,
    \<open>Voice/Dsp/NoiseSuppressor.cpp\<close>.
  \<^item> \<open>RemoteSource\<close>, \<open>SourceProps\<close>: \<open>Voice/RemoteVoiceSource.cpp\<close>. \<open>Mixer\<close>, \<open>MixerProps\<close>:
    \<open>Voice/PlaybackMixer.cpp\<close> and the cue table of \<open>Voice/RadioBeepAssets.cpp\<close>.
  \<^item> \<open>Transmit\<close>, \<open>TransmitProps\<close>: \<open>Voice/TransmitController.cpp\<close>. \<open>Capture\<close>, \<open>CaptureProps\<close>:
    \<open>Voice/WasapiCaptureEngine.cpp\<close>.
  \<^item> \<open>Session\<close>, \<open>SessionProps\<close>: \<open>Voice/VoiceSession.cpp\<close>. \<open>ExtTick\<close>, \<open>TickProps\<close>: the sender thread of
    \<open>Extension.cpp\<close>. \<open>Lifecycle\<close>: starting, stopping and loading. \<open>Platform\<close>: \<open>Voice/AudioDeviceUtil.cpp\<close>
    and the text \<open>Voice/Log.cpp\<close> writes. \<open>Supervision\<close>: the outermost loops of the two device threads with
    their throttled log, the file calls of \<open>Voice/Log.cpp\<close>, the hash of \<open>Voice/VoiceNetworkClient.cpp\<close>.
  \<^item> \<open>Program\<close>: all threads on the shared state.
  \<^item> \<open>VoiceServer\<close>, \<open>VoiceServerProps\<close>: the relay (\<open>RelayServer.cs\<close>, \<open>Protocol.cs\<close>, \<open>ClientSession.cs\<close>,
    \<open>ServerOptions.cs\<close>). \<open>Hearing\<close>: the receiving side of one speaker, from the datagrams to the decoder.
    \<open>EndToEnd\<close>: a client, the relay and another client.

  \<^bold>\<open>States and operations.\<close> Each class is a record with the fields of the class (a prefix keeps the names
  apart), each method a function from state to state with its results; definitions keep the names of the
  methods, so \<open>State::handlePos\<close> is \<open>handlePos\<close>. A mutex makes every method one step, and threads are
  arbitrary interleavings of these steps (\<open>sys_step\<close>, \<open>session_step\<close>, \<open>net_run\<close>, \<open>ext_run\<close>,
  \<open>program_step\<close> for the whole; there an iteration of the network thread is one step, and its callbacks are
  delivered one by one, the other threads running in between). Clocks, answers
  of the operating system and random draws are arguments. An \<open>std::unordered_map\<close> is a list of entries
  with distinct keys in an arbitrary order. A C++ exception is the left side of a sum, a loop that need
  not end is a \<open>partial_function\<close> whose value is then \<open>None\<close>, and so is a call of \<open>std::terminate\<close>.
  Integers of fixed width are words; where the code converts, the model converts. In the relay a
  dictionary entry refers to a session object by its position in the list of all objects made, an
  exception of a handler comes with what was sent and stored before it, and the timeout sweep, which is a
  task of its own, is a step per session of its snapshot between which datagrams are handled.

  \<^bold>\<open>Parameters.\<close> \<open>libm\<close> holds \<open>atan2f\<close>, \<open>sin\<close>, \<open>cos\<close>, \<open>pow\<close> and their kin; \<open>atan2_doc\<close> says that \<open>atan2f\<close>
  answers within half a turn. The Opus encoder and decoder and RNNoise are arguments, with the sizes
  their documentation promises (\<open>encoder_doc\<close>, \<open>decoder_doc\<close>, \<open>denoise_doc\<close>); SHA-256 is a function to 32
  bytes (\<open>sha_doc\<close>); the PCM data of the radio cues is an argument. Winsock and WASAPI are traces of answers.

  \<^bold>\<open>What the lemmas show.\<close>
  \<^item> The game state: its invariant under every interleaving of calls and voice events; what a snapshot
    contains and why, and that it does not depend on the order of the maps; half duplex, antennas, radio
    towers, the \<open>NEEDCFG\<close> and not-connected throttles.
  \<^item> The wire: round trips for every packet, no read outside a datagram, no packet too long for its
    buffer, truncation at the last whole UTF-8 sequence. The client: handshake, keepalive, watchdog,
    reconnection after a change of configuration, the order of the callbacks.
  \<^item> Playback: sizes and ranges of every rendered frame, jitter cushion, concealment and its end, device
    buffers that are always filled from samples that exist. Capture and transmission: frames of 20 ms,
    gain bounds, voice activation, talkspurts with exactly one end marker.
  \<^item> The whole: the snapshot replaces the audibility of the session, a session without connection is
    empty, the key binds act on the mutes and the talk key of the session and on nothing else, the local
    transmission is announced in time and its end three times, workers are never started twice. Composed: in every interleaving no
    thread gets stuck, and a remote player is played only if the solver put that player into the last
    snapshot, with a fresh position and, for radio, a fresh transmission.
  \<^item> Workers: the device threads run one device session after the other, whatever the devices do, and log
    every thirtieth failed attempt.
  \<^item> The relay: under every order of datagrams and sweep steps whoever is found by endpoint or uid is a
    session that broadcasts reach, and the configured limit holds; the three dictionaries agree in runs
    without a session made at another player's endpoint or during a sweep, and two lemmas show what
    happens in the others. Its readers and writers agree with the client's; well-formed text passes it
    unchanged, and what an ill-formed name does to it. Client and relay: a handshake ends with the session
    number the relay assigned; a transmission of any length is decoded in order, no frame twice, whatever
    gets lost, and when nothing is lost and the queue does not overflow, no frame is missing.

  \<^bold>\<open>Shared contracts.\<close> \<open>keyed_store\<close> (lookup after update and removal) is interpreted by the ordered maps
  and by the antenna registry; \<open>field_codec\<close> (a written field is read back, nothing is read outside) by the
  four field types of the protocol; \<open>correct_rounding\<close> by the two float formats; \<open>transition_system\<close> by the
  interleavings of the session, of the program and of the relay; \<open>supervised\<close> (a device session returns, and
  the reset after it restores the invariant) by the playback and the capture
  loop; \<open>simulation\<close> by the command processor's view of the session; \<open>watched_source\<close> (what the
  production of a frame keeps of a source, a whole device buffer keeps) by the decoding of a transmission.

  \<^bold>\<open>Bounds and fuel.\<close> The bounds are the code's own: 256 datagrams per receive pump, five handshake
  attempts of 1.5 seconds, ten queued frames per speaker, ten concealed frames, a
  jitter cushion of four frames. No recursion is cut short by fuel: the loops over angles, samples and
  packets are proved to return. The render theorems hold for device rates from 32 kHz, the capture
  theorems from 8 to 768 kHz; outside, the model is the same but the bounds are not claimed.

  \<^bold>\<open>Not modelled.\<close> The internals of COM, WASAPI and winsock, reference counts, and the creation of threads
  failing; what two threads see of each other inside one method, and what the relay's two tasks see of each
  other inside one handler; the generated PCM arrays; the game's scripts and configurations; the relay's
  console log; the vendored libopus and RNNoise, which are parameters here. The network between a client
  and the relay may do anything in the properties of either side; \<open>EndToEnd\<close> assumes that it delivers the
  datagrams in order, some of them perhaps never. What is said of the relay's dictionaries holds until its
  32-bit session counter wraps.
\<close>

end
